theory Spec2Isabelle
  imports Main "HOL-Library.Word"
begin

unbundle bit_operations_syntax

section \<open>Data model of nand\_dumper.c\<close>

text \<open>
  \<^verbatim>\<open>nand_pins_t\<close> (lines 69-80): the pin numbers are C \<^verbatim>\<open>int\<close>s.
\<close>

record nand_pins_t =
  io_start :: int
  ale :: int
  cle :: int
  ce :: int
  re :: int
  we :: int
  wp :: int
  ry :: int

text \<open>\<^verbatim>\<open>id_data_t\<close> (lines 82-88): five \<^verbatim>\<open>uint8_t\<close> fields, no padding.\<close>

record id_data_t =
  maker :: "8 word"
  device :: "8 word"
  chip_n_type :: "8 word"
  pgsz_bksz_iow :: "8 word"
  districts :: "8 word"

text \<open>\<^verbatim>\<open>cmd_enum_t\<close> (lines 90-98), values 0 to 6 in this order.\<close>

datatype cmd_enum_t =
  CMD_READ_ID
  | CMD_READ_PAGE
  | CMD_RESET_PAGE_NO
  | CMD_SET_PAGE_NO
  | CMD_GET_DRIVE_STRENGTH
  | CMD_GET_FLASH_INFO
  | CMD_NONE

record cmd_t =
  cmd :: cmd_enum_t
  arg :: "32 word"

text \<open>
  \<^verbatim>\<open>result_t\<close> (lines 105-108): \<^verbatim>\<open>sz\<close> is a C \<^verbatim>\<open>int\<close>; the only values the
  program stores in it are 0, 1, 5 and a sum of two \<^verbatim>\<open>uint16_t\<close>, so no arithmetic on it can
  overflow and it is an \<open>int\<close> here. \<^verbatim>\<open>alloc\<close> is a pointer that is only ever null.
\<close>

record result_t =
  sz :: int
  alloc :: nat

text \<open>\<^verbatim>\<open>flash_info_struct\<close> (lines 363-367).\<close>

record flash_info_struct =
  page_size_bytes :: "16 word"
  oob_size_bytes :: "16 word"
  flash_size_bytes :: "64 word"

text \<open>The four values of the SDK's \<^verbatim>\<open>enum gpio_drive_strength\<close>.\<close>

datatype gpio_drive_strength =
  GPIO_DRIVE_STRENGTH_2MA
  | GPIO_DRIVE_STRENGTH_4MA
  | GPIO_DRIVE_STRENGTH_8MA
  | GPIO_DRIVE_STRENGTH_12MA

section \<open>The hardware and the host as seen by the program\<close>

text \<open>
  Every call of an SDK function that acts on the outside world is recorded, in program
  order, as one event. Calls that read from the outside carry the value they returned.
\<close>

datatype event =
  GpioInit int
  | GpioSetPulls int bool bool
  | GpioSetDir int bool
  | GpioSetDirOutMasked "32 word"
  | GpioSetDirInMasked "32 word"
  | GpioSetDriveStrength int gpio_drive_strength
  | GpioPut int bool
  | GpioPutMasked "32 word" "32 word"
  | GpioGet int bool
  | GpioGetAll "32 word"
  | BusyWaitCycles nat
  | SleepUs nat
  | SleepMs nat
  | MulticoreLaunchCore1
  | StdioInitAll

text \<open>An argument of a \<^verbatim>\<open>printf\<close> call, and the call itself with its format string.\<close>

datatype parg =
  PInt int
  | PStr string
  | PPtrSharedBuffer
  | PDrive gpio_drive_strength

datatype pcall = Printf string "parg list"

text \<open>
  The world: the events so far, and what the outside will answer. \<open>gpio_in k\<close> is the level
  returned by the \<open>k\<close>-th call of \<^verbatim>\<open>gpio_get\<close>, \<open>all_in k\<close> the value of the \<open>k\<close>-th
  \<^verbatim>\<open>gpio_get_all\<close>, \<open>time_in k\<close> that of the \<open>k\<close>-th \<^verbatim>\<open>time_us_32\<close>, and
  \<open>serial_in k\<close> the outcome of the \<open>k\<close>-th \<^verbatim>\<open>getchar_timeout_us\<close>: \<open>Some b\<close> for the
  character \<open>b\<close> (0 to 255), \<open>None\<close> for the return value \<^verbatim>\<open>PICO_ERROR_TIMEOUT\<close>, a
  negative error code of the SDK that differs from every character. \<open>drive\<close> is the drive
  strength register of each pin and \<open>out\<close> the \<^verbatim>\<open>printf\<close> calls made so far.
\<close>

record world =
  trace :: "event list"
  gpio_in :: "nat \<Rightarrow> bool"
  gpio_cnt :: nat
  all_in :: "nat \<Rightarrow> 32 word"
  all_cnt :: nat
  time_in :: "nat \<Rightarrow> 32 word"
  time_cnt :: nat
  serial_in :: "nat \<Rightarrow> 8 word option"
  serial_cnt :: nat
  drive :: "int \<Rightarrow> gpio_drive_strength"
  out :: "pcall list"

text \<open>
  How a call ends: it returns a value; it never returns because the ready/busy poll of
  \<^verbatim>\<open>read_bytes\<close> spins forever; it waits in a blocking queue operation for the other core;
  or it accesses a buffer out of bounds, which C leaves undefined.
\<close>

datatype 'a outcome = Returns 'a | Hangs | Blocks | Undefined

fun obind :: "'a outcome \<Rightarrow> ('a \<Rightarrow> 'b outcome) \<Rightarrow> 'b outcome" where
  "obind (Returns x) f = f x"
| "obind Hangs f = Hangs"
| "obind Blocks f = Blocks"
| "obind Undefined f = Undefined"

subsection \<open>SDK calls\<close>

definition emit :: "event \<Rightarrow> world \<Rightarrow> world" where
  "emit e w = w\<lparr>trace := trace w @ [e]\<rparr>"

definition gpio_init :: "int \<Rightarrow> world \<Rightarrow> world" where
  "gpio_init pin w = emit (GpioInit pin) w"

definition gpio_set_pulls :: "int \<Rightarrow> bool \<Rightarrow> bool \<Rightarrow> world \<Rightarrow> world" where
  "gpio_set_pulls pin up down w = emit (GpioSetPulls pin up down) w"

definition gpio_set_dir :: "int \<Rightarrow> bool \<Rightarrow> world \<Rightarrow> world" where
  "gpio_set_dir pin outp w = emit (GpioSetDir pin outp) w"

definition gpio_set_dir_out_masked :: "32 word \<Rightarrow> world \<Rightarrow> world" where
  "gpio_set_dir_out_masked m w = emit (GpioSetDirOutMasked m) w"

definition gpio_set_dir_in_masked :: "32 word \<Rightarrow> world \<Rightarrow> world" where
  "gpio_set_dir_in_masked m w = emit (GpioSetDirInMasked m) w"

definition gpio_set_drive_strength :: "int \<Rightarrow> gpio_drive_strength \<Rightarrow> world \<Rightarrow> world" where
  "gpio_set_drive_strength pin s w =
     emit (GpioSetDriveStrength pin s) (w\<lparr>drive := (drive w)(pin := s)\<rparr>)"

definition gpio_get_drive_strength :: "int \<Rightarrow> world \<Rightarrow> gpio_drive_strength" where
  "gpio_get_drive_strength pin w = drive w pin"

definition gpio_put :: "int \<Rightarrow> bool \<Rightarrow> world \<Rightarrow> world" where
  "gpio_put pin v w = emit (GpioPut pin v) w"

definition gpio_put_masked :: "32 word \<Rightarrow> 32 word \<Rightarrow> world \<Rightarrow> world" where
  "gpio_put_masked m v w = emit (GpioPutMasked m v) w"

definition gpio_get :: "int \<Rightarrow> world \<Rightarrow> bool \<times> world" where
  "gpio_get pin w =
     (let v = gpio_in w (gpio_cnt w)
      in (v, emit (GpioGet pin v) (w\<lparr>gpio_cnt := Suc (gpio_cnt w)\<rparr>)))"

definition gpio_get_all :: "world \<Rightarrow> 32 word \<times> world" where
  "gpio_get_all w =
     (let v = all_in w (all_cnt w)
      in (v, emit (GpioGetAll v) (w\<lparr>all_cnt := Suc (all_cnt w)\<rparr>)))"

definition busy_wait_at_least_cycles :: "nat \<Rightarrow> world \<Rightarrow> world" where
  "busy_wait_at_least_cycles n w = emit (BusyWaitCycles n) w"

definition sleep_us :: "nat \<Rightarrow> world \<Rightarrow> world" where
  "sleep_us n w = emit (SleepUs n) w"

definition sleep_ms :: "nat \<Rightarrow> world \<Rightarrow> world" where
  "sleep_ms n w = emit (SleepMs n) w"

definition time_us_32 :: "world \<Rightarrow> 32 word \<times> world" where
  "time_us_32 w = (time_in w (time_cnt w), w\<lparr>time_cnt := Suc (time_cnt w)\<rparr>)"

definition getchar_timeout_us :: "nat \<Rightarrow> world \<Rightarrow> 8 word option \<times> world" where
  "getchar_timeout_us t w = (serial_in w (serial_cnt w), w\<lparr>serial_cnt := Suc (serial_cnt w)\<rparr>)"

definition printf :: "string \<Rightarrow> parg list \<Rightarrow> world \<Rightarrow> world" where
  "printf fmt args w = w\<lparr>out := out w @ [Printf fmt args]\<rparr>"

section \<open>Geometry decoding\<close>

definition TOSHIBA_KIOXIA :: "8 word" where
  "TOSHIBA_KIOXIA = 0x98"

text \<open>
  \<^verbatim>\<open>get_flash_info\<close> (lines 369-397). The out-parameter \<^verbatim>\<open>flash_info\<close> is passed in and
  returned next to the \<^verbatim>\<open>bool\<close>; the \<^verbatim>\<open>switch\<close> either picks the two sizes or leaves
  by \<^verbatim>\<open>return false\<close> (\<open>None\<close>). The product \<^verbatim>\<open>64 * 2048 * total_pg_size\<close> is computed
  in \<^verbatim>\<open>uint32_t\<close> and then widened to the \<^verbatim>\<open>uint64_t\<close> field.
\<close>

definition get_flash_info :: "id_data_t \<Rightarrow> flash_info_struct \<Rightarrow> bool \<times> flash_info_struct" where
  "get_flash_info id_bytes flash_info =
     (let pg_size_kb = (push_bit (unat (pgsz_bksz_iow id_bytes AND 0x03)) 1 :: 32 word)
      in if maker id_bytes = TOSHIBA_KIOXIA then
           (case (if pg_size_kb = 4
                  then Some (flash_info\<lparr>page_size_bytes := 4096, oob_size_bytes := 256\<rparr>)
                  else if pg_size_kb = 2
                  then Some (flash_info\<lparr>page_size_bytes := 2048, oob_size_bytes := 128\<rparr>)
                  else None) of
              None \<Rightarrow> (False, flash_info)
            | Some flash_info \<Rightarrow>
                (let total_pg_size =
                       (ucast (page_size_bytes flash_info) + ucast (oob_size_bytes flash_info) :: 32 word);
                     flash_info =
                       flash_info\<lparr>flash_size_bytes := ucast (64 * 2048 * total_pg_size)\<rparr>
                 in (True, flash_info)))
         else (False, flash_info))"

text \<open>\<^verbatim>\<open>check_supported_io_width\<close> (lines 399-404).\<close>

definition check_supported_io_width :: "id_data_t \<Rightarrow> bool" where
  "check_supported_io_width id_bytes =
     (let io_width = (push_bit (unat (drop_bit 6 (pgsz_bksz_iow id_bytes AND 0x40))) 1 * 8 :: 32 word)
      in io_width = 8)"

section \<open>Pin map and bus primitives\<close>

text \<open>\<^verbatim>\<open>LED_PIN\<close> (line 123).\<close>

definition LED_PIN :: int where
  "LED_PIN = 25"

text \<open>\<^verbatim>\<open>set_gpios\<close> (lines 125-139).\<close>

definition set_gpios :: "nand_pins_t \<Rightarrow> nand_pins_t" where
  "set_gpios pins =
     pins\<lparr>io_start := 0, cle := 22, ale := 21, ce := 20, re := 19, we := 18, wp := 17, ry := 16\<rparr>"

text \<open>The zero-initialised \<^verbatim>\<open>pins_glob\<close> (line 435).\<close>

definition pins_zero :: nand_pins_t where
  "pins_zero = \<lparr>io_start = 0, ale = 0, cle = 0, ce = 0, re = 0, we = 0, wp = 0, ry = 0\<rparr>"

text \<open>\<^verbatim>\<open>set_drive_strengths\<close> (lines 141-153).\<close>

definition set_drive_strengths :: "nand_pins_t \<Rightarrow> gpio_drive_strength \<Rightarrow> world \<Rightarrow> world" where
  "set_drive_strengths pins strength w =
     (let w = fold (\<lambda>i. gpio_set_drive_strength (io_start pins + int i) strength) [0..<8] w;
          w = gpio_set_drive_strength (ale pins) strength w;
          w = gpio_set_drive_strength (cle pins) strength w;
          w = gpio_set_drive_strength (ce pins) strength w;
          w = gpio_set_drive_strength (re pins) strength w;
          w = gpio_set_drive_strength (we pins) strength w;
          w = gpio_set_drive_strength (wp pins) strength w
      in w)"

text \<open>\<^verbatim>\<open>init_gpios\<close> (lines 155-192).\<close>

definition init_gpios :: "nand_pins_t \<Rightarrow> gpio_drive_strength \<Rightarrow> world \<Rightarrow> world" where
  "init_gpios pins init_strength w =
     (let w = fold (\<lambda>i. gpio_init (io_start pins + int i)) [0..<8] w;
          w = gpio_init (ale pins) w;
          w = gpio_init (cle pins) w;
          w = gpio_init (ce pins) w;
          w = gpio_init (re pins) w;
          w = gpio_init (we pins) w;
          w = gpio_init (wp pins) w;
          w = gpio_init (ry pins) w;
          w = gpio_init LED_PIN w;
          w = gpio_set_pulls (ry pins) True False w;
          w = gpio_set_dir_out_masked 0xFF w;
          w = gpio_set_dir (ale pins) True w;
          w = gpio_set_dir (cle pins) True w;
          w = gpio_set_dir (ce pins) True w;
          w = gpio_set_dir (re pins) True w;
          w = gpio_set_dir (we pins) True w;
          w = gpio_set_dir (wp pins) True w;
          w = gpio_set_dir (ry pins) False w;
          w = gpio_set_dir LED_PIN True w;
          w = gpio_put (ale pins) False w;
          w = gpio_put (cle pins) False w;
          w = gpio_put (ce pins) True w;
          w = gpio_put (we pins) True w;
          w = gpio_put (re pins) True w;
          w = gpio_put (wp pins) True w;
          w = gpio_put LED_PIN True w
      in set_drive_strengths pins init_strength w)"

text \<open>\<^verbatim>\<open>set_io_dir\<close>, \<^verbatim>\<open>set_io_val\<close>, \<^verbatim>\<open>get_io_val\<close> (lines 194-211).\<close>

definition set_io_dir :: "nand_pins_t \<Rightarrow> bool \<Rightarrow> world \<Rightarrow> world" where
  "set_io_dir pins to_output w =
     (if to_output then gpio_set_dir_out_masked 0x000000FF w
      else gpio_set_dir_in_masked 0x000000FF w)"

definition set_io_val :: "nand_pins_t \<Rightarrow> 8 word \<Rightarrow> world \<Rightarrow> world" where
  "set_io_val pins io_val w = gpio_put_masked 0x000000FF (ucast io_val) w"

definition get_io_val :: "nand_pins_t \<Rightarrow> world \<Rightarrow> 8 word \<times> world" where
  "get_io_val pins w = (let (v, w) = gpio_get_all w in (ucast (v AND 0xFF), w))"

text \<open>\<^verbatim>\<open>write_cmd\<close> (lines 213-229).\<close>

definition write_cmd :: "nand_pins_t \<Rightarrow> 8 word \<Rightarrow> world \<Rightarrow> world" where
  "write_cmd pins c w =
     (let w = gpio_put (re pins) True w;
          w = gpio_put (we pins) True w;
          w = gpio_put (ale pins) False w;
          w = set_io_dir pins True w;
          w = set_io_val pins c w;
          w = gpio_put (cle pins) True w;
          w = gpio_put (ce pins) False w;
          w = busy_wait_at_least_cycles 5 w;
          w = gpio_put (we pins) False w;
          w = busy_wait_at_least_cycles 3 w;
          w = gpio_put (we pins) True w;
          w = busy_wait_at_least_cycles 3 w;
          w = gpio_put (cle pins) False w
      in w)"

text \<open>\<^verbatim>\<open>reset_nand\<close> (lines 231-236).\<close>

definition reset_nand :: "nand_pins_t \<Rightarrow> world \<Rightarrow> world" where
  "reset_nand pins w =
     (let w = write_cmd pins 0xFF w;
          w = gpio_put (ce pins) True w;
          w = sleep_us 600 w
      in w)"

text \<open>\<^verbatim>\<open>write_addr_1\<close> (lines 238-255).\<close>

definition write_addr_1 :: "nand_pins_t \<Rightarrow> 8 word \<Rightarrow> world \<Rightarrow> world" where
  "write_addr_1 pins addr w =
     (let w = gpio_put (ce pins) False w;
          w = gpio_put (re pins) True w;
          w = gpio_put (we pins) True w;
          w = gpio_put (cle pins) False w;
          w = set_io_dir pins True w;
          w = gpio_put (ale pins) True w;
          w = busy_wait_at_least_cycles 4 w;
          w = set_io_val pins addr w;
          w = busy_wait_at_least_cycles 3 w;
          w = gpio_put (we pins) False w;
          w = busy_wait_at_least_cycles 3 w;
          w = gpio_put (we pins) True w;
          w = busy_wait_at_least_cycles 3 w;
          w = gpio_put (ale pins) False w
      in w)"

text \<open>
  \<^verbatim>\<open>write_addr_5\<close> (lines 257-289). The five address bytes are computed first, each a
  \<^verbatim>\<open>uint8_t\<close> cut out of a \<^verbatim>\<open>uint32_t\<close>; the \<^verbatim>\<open>for\<close> loop over \<^verbatim>\<open>addr_bytes\<close> is a fold.
\<close>

definition write_addr_5 :: "nand_pins_t \<Rightarrow> 32 word \<Rightarrow> 32 word \<Rightarrow> world \<Rightarrow> world" where
  "write_addr_5 pins page_addr col_addr w =
     (let timing_multiplier = (10 :: nat);
          col_addr_0 = (ucast (col_addr AND 0xFF) :: 8 word);
          col_addr_1 = (ucast (drop_bit 8 col_addr AND 0x1F) :: 8 word);
          page_addr_0 = (ucast (page_addr AND 0xFF) :: 8 word);
          page_addr_1 = (ucast (drop_bit 8 page_addr AND 0xFF) :: 8 word);
          page_addr_2 = (ucast (drop_bit 16 page_addr AND 0x01) :: 8 word);
          addr_bytes = [col_addr_0, col_addr_1, page_addr_0, page_addr_1, page_addr_2];
          w = gpio_put (ce pins) False w;
          w = gpio_put (re pins) True w;
          w = gpio_put (we pins) True w;
          w = gpio_put (cle pins) False w;
          w = set_io_dir pins True w;
          w = gpio_put (ale pins) True w;
          w = busy_wait_at_least_cycles (5 * timing_multiplier) w;
          w = fold (\<lambda>b w.
                 let w = set_io_val pins b w;
                     w = busy_wait_at_least_cycles (4 * timing_multiplier) w;
                     w = gpio_put (we pins) False w;
                     w = busy_wait_at_least_cycles (4 * timing_multiplier) w;
                     w = gpio_put (we pins) True w;
                     w = busy_wait_at_least_cycles (4 * timing_multiplier) w
                 in w) addr_bytes w;
          w = busy_wait_at_least_cycles (3 * timing_multiplier) w;
          w = gpio_put (ale pins) False w
      in w)"

subsection \<open>Reading bytes\<close>

text \<open>
  The poll of \<^verbatim>\<open>read_bytes\<close> (lines 304-306): \<^verbatim>\<open>while (!gpio_get(pins->ry))\<close> has no
  bound, so the loop is a partial function and \<open>None\<close> stands for a poll that never ends.
\<close>

partial_function (option) read_bytes_poll :: "nand_pins_t \<Rightarrow> nat \<Rightarrow> world \<Rightarrow> world option" where
  "read_bytes_poll pins timing_multiplier w =
     (if \<not> fst (gpio_get (ry pins) w)
      then read_bytes_poll pins timing_multiplier
             (busy_wait_at_least_cycles (20 * timing_multiplier) (snd (gpio_get (ry pins) w)))
      else Some (snd (gpio_get (ry pins) w)))"

text \<open>
  A \<^verbatim>\<open>for\<close> loop over the indices \<open>is\<close> whose body can fail: it stops at the first
  iteration that does not return.
\<close>

fun for_loop :: "nat list \<Rightarrow> (nat \<Rightarrow> 's \<Rightarrow> 's outcome) \<Rightarrow> 's \<Rightarrow> 's outcome" where
  "for_loop [] body s = Returns s"
| "for_loop (i # is) body s = obind (body i s) (for_loop is body)"

text \<open>
  The body of the byte loop of \<^verbatim>\<open>read_bytes\<close> (lines 310-315). The store
  \<^verbatim>\<open>*(dst + i) = ...\<close> is checked against the size of the destination object.
\<close>

definition read_bytes_body ::
  "nand_pins_t \<Rightarrow> nat \<Rightarrow> nat \<Rightarrow> world \<times> 8 word list \<Rightarrow> (world \<times> 8 word list) outcome" where
  "read_bytes_body pins timing_multiplier i s =
     (let (w, dst) = s;
          w = gpio_put (re pins) False w;
          w = busy_wait_at_least_cycles (5 * timing_multiplier) w;
          (v, w) = get_io_val pins w
      in if i < length dst then
           (let dst = dst[i := v];
                w = busy_wait_at_least_cycles (3 * timing_multiplier) w;
                w = gpio_put (re pins) True w;
                w = busy_wait_at_least_cycles (3 * timing_multiplier) w
            in Returns (w, dst))
         else Undefined)"

text \<open>
  \<^verbatim>\<open>read_bytes\<close> (lines 291-317). \<open>dst\<close> is the content of the object \<^verbatim>\<open>dst\<close> points to,
  returned updated. \<^verbatim>\<open>num_bytes\<close> is a \<^verbatim>\<open>uint32_t\<close> compared with an \<^verbatim>\<open>int\<close> counter; it
  is below \<open>2^31\<close> at every call site and a natural number here.
\<close>

definition read_bytes ::
  "nand_pins_t \<Rightarrow> world \<Rightarrow> 8 word list \<Rightarrow> nat \<Rightarrow> (world \<times> 8 word list) outcome" where
  "read_bytes pins w dst num_bytes =
     (let timing_multiplier = (2 :: nat);
          w = set_io_dir pins False w;
          w = gpio_put (ce pins) False w;
          w = gpio_put (cle pins) False w;
          w = gpio_put (ale pins) False w;
          w = gpio_put (we pins) True w;
          w = gpio_put (re pins) True w;
          w = busy_wait_at_least_cycles (20 * timing_multiplier) w
      in case read_bytes_poll pins timing_multiplier w of
           None \<Rightarrow> Hangs
         | Some w \<Rightarrow>
             (let w = busy_wait_at_least_cycles (5 * timing_multiplier) w
              in for_loop [0..<num_bytes] (read_bytes_body pins timing_multiplier) (w, dst)))"

section \<open>Protocol engine\<close>

text \<open>
  \<^verbatim>\<open>read_id\<close> (lines 329-334); \<open>id_bytes\<close> is the byte content of the object the pointer
  refers to, and \<^verbatim>\<open>sizeof(id_data_t)\<close> is 5.
\<close>

definition read_id :: "nand_pins_t \<Rightarrow> world \<Rightarrow> 8 word list \<Rightarrow> (world \<times> 8 word list) outcome" where
  "read_id pins w id_bytes =
     (let w = write_cmd pins 0x90 w;
          w = write_addr_1 pins 0x00 w
      in read_bytes pins w id_bytes 5)"

text \<open>Reading five bytes as an \<^verbatim>\<open>id_data_t\<close> (the casts between the two pointer types).\<close>

definition id_data_of_bytes :: "8 word list \<Rightarrow> id_data_t" where
  "id_data_of_bytes bs =
     \<lparr>maker = bs ! 0, device = bs ! 1, chip_n_type = bs ! 2, pgsz_bksz_iow = bs ! 3,
      districts = bs ! 4\<rparr>"

text \<open>\<^verbatim>\<open>read_page\<close> (lines 415-423).\<close>

definition read_page ::
  "nand_pins_t \<Rightarrow> world \<Rightarrow> 32 word \<Rightarrow> 8 word list \<Rightarrow> nat \<Rightarrow> (world \<times> 8 word list) outcome" where
  "read_page pins w page_num page_buff page_size =
     (let w = reset_nand pins w;
          w = write_cmd pins 0x00 w;
          w = write_addr_5 pins page_num 0 w;
          w = write_cmd pins 0x30 w;
          w = sleep_us 1 w
      in read_bytes pins w page_buff page_size)"

text \<open>\<^verbatim>\<open>explain_id\<close> (lines 340-361); every \<^verbatim>\<open>%d\<close> argument is a C \<^verbatim>\<open>int\<close>.\<close>

definition explain_id :: "id_data_t \<Rightarrow> world \<Rightarrow> world" where
  "explain_id id_bytes w =
     (let w = printf ''Maker: '' [] w;
          w = (if maker id_bytes = TOSHIBA_KIOXIA then printf ''Toshiba/Kioxia'' [] w
               else printf ''Unknown (%x)'' [PInt (uint (maker id_bytes))] w);
          w = printf ''\<newline>'' [] w;
          w = printf ''Device Code: %x\<newline>'' [PInt (uint (device id_bytes))] w;
          w = printf ''Internal Chip Number: %d\<newline>''
                [PInt (sint (push_bit (unat (chip_n_type id_bytes AND 0x03)) 1 :: 32 word))] w;
          w = printf ''Number of Cell Levels: %d\<newline>''
                [PInt (sint (push_bit (unat (drop_bit 2 (chip_n_type id_bytes AND 0x0B)) + 1) 1 :: 32 word))] w;
          w = printf ''Page Size (without redundant area): %d KB\<newline>''
                [PInt (sint (push_bit (unat (pgsz_bksz_iow id_bytes AND 0x03)) 1 :: 32 word))] w;
          w = printf ''Block Size: %d KB\<newline>''
                [PInt (sint (push_bit (unat (drop_bit 4 (pgsz_bksz_iow id_bytes AND 0x30))) 1 * 64 :: 32 word))] w;
          w = printf ''I/O Width: x%d\<newline>''
                [PInt (sint (push_bit (unat (drop_bit 6 (pgsz_bksz_iow id_bytes AND 0x40))) 1 * 8 :: 32 word))] w;
          w = printf ''Number of Districts: %d\<newline>''
                [PInt (sint (push_bit (unat (drop_bit 6 (pgsz_bksz_iow id_bytes AND 0x0B)) + 1) 1 :: 32 word))] w
      in w)"

text \<open>
  \<^verbatim>\<open>display_page\<close> (lines 425-430); a read of \<^verbatim>\<open>page_buff[i]\<close> beyond the buffer is
  undefined.
\<close>

definition display_page :: "8 word list \<Rightarrow> nat \<Rightarrow> world \<Rightarrow> world outcome" where
  "display_page page_buff page_size w =
     for_loop [0..<page_size]
       (\<lambda>i w. if i < length page_buff
              then Returns (printf ''%02X'' [PInt (uint (page_buff ! i))] w)
              else Undefined) w"

section \<open>The two cores\<close>

text \<open>
  The state shared between the cores (lines 433-437), the locals of \<^verbatim>\<open>core1_main\<close>
  (\<open>cmd_arg1\<close> for its \<^verbatim>\<open>cmd_arg\<close>, \<open>result\<close>, \<open>page_num\<close>; lines 442-444) and the local
  \<^verbatim>\<open>curr_page\<close> of \<^verbatim>\<open>main\<close> (line 523). \<^verbatim>\<open>page_num\<close> is a C \<^verbatim>\<open>int\<close> that is assigned
  from and passed as a \<^verbatim>\<open>uint32_t\<close>: a 32-bit word, whose increment wraps (C leaves the
  increment of \<^verbatim>\<open>INT_MAX\<close> undefined).
\<close>

record sys =
  cmd_queue :: "cmd_t list"
  results_queue :: "result_t list"
  pins_glob :: nand_pins_t
  shared_buffer :: "8 word list"
  flash_info_glob :: flash_info_struct
  hw :: world
  cmd_arg1 :: cmd_t
  result :: result_t
  page_num :: "32 word"
  curr_page :: "32 word"

text \<open>
  The SDK queues hold at most the 20 elements given to \<^verbatim>\<open>queue_init\<close> (lines 488, 491).
  \<^verbatim>\<open>queue_add_blocking\<close> waits while the queue is full, \<^verbatim>\<open>queue_remove_blocking\<close> while
  it is empty.
\<close>

definition queue_capacity :: nat where
  "queue_capacity = 20"

definition queue_add_blocking :: "'a list \<Rightarrow> 'a \<Rightarrow> 'a list outcome" where
  "queue_add_blocking q x = (if length q < queue_capacity then Returns (q @ [x]) else Blocks)"

definition queue_remove_blocking :: "'a list \<Rightarrow> ('a \<times> 'a list) outcome" where
  "queue_remove_blocking q = (case q of [] \<Rightarrow> Blocks | x # q' \<Rightarrow> Returns (x, q'))"

text \<open>
  The \<^verbatim>\<open>switch\<close> of \<^verbatim>\<open>core1_main\<close> (lines 450-478) on the command just dequeued.
\<close>

definition core1_execute :: "cmd_t \<Rightarrow> sys \<Rightarrow> sys outcome" where
  "core1_execute c s =
     (case cmd c of
        CMD_READ_ID \<Rightarrow>
          (let s = s\<lparr>result := (result s)\<lparr>sz := 5\<rparr>\<rparr>
           in obind (read_id (pins_glob s) (hw s) (shared_buffer s))
                (\<lambda>(w, buf). Returns (s\<lparr>hw := w, shared_buffer := buf\<rparr>)))
      | CMD_READ_PAGE \<Rightarrow>
          (let s = s\<lparr>result := (result s)\<lparr>sz :=
                     uint (page_size_bytes (flash_info_glob s)) + uint (oob_size_bytes (flash_info_glob s))\<rparr>\<rparr>;
               s = s\<lparr>shared_buffer := replicate 16384 0\<rparr>
           in obind (read_page (pins_glob s) (hw s) (page_num s) (shared_buffer s) (nat (sz (result s))))
                (\<lambda>(w, buf). Returns (s\<lparr>hw := w, shared_buffer := buf, page_num := page_num s + 1\<rparr>)))
      | CMD_RESET_PAGE_NO \<Rightarrow>
          Returns (s\<lparr>result := (result s)\<lparr>sz := 1, alloc := 0\<rparr>, page_num := 0\<rparr>)
      | CMD_SET_PAGE_NO \<Rightarrow>
          Returns (s\<lparr>result := (result s)\<lparr>sz := 1, alloc := 0\<rparr>, page_num := arg c\<rparr>)
      | _ \<Rightarrow> Returns s)"

text \<open>One pass of the \<^verbatim>\<open>while (1)\<close> of \<^verbatim>\<open>core1_main\<close> (lines 446-481).\<close>

definition core1_main_iter :: "sys \<Rightarrow> sys outcome" where
  "core1_main_iter s =
     obind (queue_remove_blocking (cmd_queue s))
       (\<lambda>(c, q).
          let s = s\<lparr>cmd_queue := q, cmd_arg1 := c\<rparr>
          in obind (core1_execute c s)
               (\<lambda>s. obind (queue_add_blocking (results_queue s) (result s))
                      (\<lambda>q. Returns (s\<lparr>results_queue := q\<rparr>))))"

text \<open>
  The pair \<^verbatim>\<open>queue_add_blocking(&cmd_queue, &cmd_arg); queue_remove_blocking(&results_queue, &res)\<close>
  of \<^verbatim>\<open>main\<close> (lines 540-541, 559-560, 573-574, 594-595). Core 0 waits in the second call
  until core 1, which was waiting for a command, has run one pass of its loop; with both
  queues empty before the pair this is the only schedule, and the two cores never run the
  code modelled here at the same time.
\<close>

definition exchange :: "cmd_t \<Rightarrow> sys \<Rightarrow> (result_t \<times> sys) outcome" where
  "exchange c s =
     obind (queue_add_blocking (cmd_queue s) c)
       (\<lambda>q. obind (core1_main_iter (s\<lparr>cmd_queue := q\<rparr>))
          (\<lambda>s. obind (queue_remove_blocking (results_queue s))
             (\<lambda>(res, q). Returns (res, s\<lparr>results_queue := q\<rparr>))))"

section \<open>Serial command interface\<close>

text \<open>\<^verbatim>\<open>HELP_STR\<close> (lines 115-121).\<close>

definition HELP_STR :: string where
  "HELP_STR = ''Commands: \<newline>'' @
     ''0: id - shows the ID/parameters of the connected NAND chip\<newline>'' @
     ''1: read - reads the contents of one page of the NAND chip and increments internal counter\<newline>'' @
     ''2: reset page - reset the page number to read\<newline>'' @
     ''3: set page - set the page number to specific offset\<newline>'' @
     ''4: get drive strength - get drive strength of pins\<newline>'' @
     ''else: help - Display this help string\<newline>''"

text \<open>
  What \<^verbatim>\<open>main\<close> does with the result of a \<^verbatim>\<open>CMD_READ_ID\<close> (lines 543-554). In
  \<^verbatim>\<open>res.sz > sizeof(id_data_t)\<close> the \<^verbatim>\<open>int\<close> is converted to the unsigned \<^verbatim>\<open>size_t\<close>;
  the comparison is only evaluated when \<^verbatim>\<open>res.sz\<close> is positive, where the conversion
  keeps the value.
\<close>

definition main_read_id_result :: "result_t \<Rightarrow> sys \<Rightarrow> sys outcome" where
  "main_read_id_result res s =
     (if sz res \<le> 0 \<or> sz res > 5 then
        Returns (s\<lparr>hw := printf ''Error return: %d %p\<newline>'' [PInt (sz res), PPtrSharedBuffer] (hw s)\<rparr>)
      else
        obind (for_loop [0..<nat (sz res)]
                 (\<lambda>i w. if i < length (shared_buffer s)
                        then Returns (printf ''%02x '' [PInt (uint (shared_buffer s ! i))] w)
                        else Undefined)
                 (printf ''ID: '' [] (hw s)))
          (\<lambda>w. let w = printf ''\<newline>'' [] w
               in if 5 \<le> length (shared_buffer s)
                  then Returns (s\<lparr>hw := explain_id (id_data_of_bytes (shared_buffer s)) w\<rparr>)
                  else Undefined))"

text \<open>The same for \<^verbatim>\<open>CMD_READ_PAGE\<close> (lines 562-569).\<close>

definition main_read_page_result :: "result_t \<Rightarrow> sys \<Rightarrow> sys outcome" where
  "main_read_page_result res s =
     (if sz res \<le> 0 \<or>
         sz res > uint (page_size_bytes (flash_info_glob s)) + uint (oob_size_bytes (flash_info_glob s))
      then Returns (s\<lparr>hw := printf ''Error reading page: %d\<newline>'' [PInt (sz res)] (hw s)\<rparr>)
      else obind (display_page (shared_buffer s) (nat (sz res)) (hw s))
             (\<lambda>w. Returns (s\<lparr>hw := w, curr_page := curr_page s + 1\<rparr>)))"

text \<open>\<^verbatim>\<open>CMD_RESET_PAGE_NO\<close> (lines 575-577) and \<^verbatim>\<open>CMD_SET_PAGE_NO\<close> (lines 597-599).\<close>

definition main_reset_page_result :: "result_t \<Rightarrow> sys \<Rightarrow> sys" where
  "main_reset_page_result res s =
     (if sz res \<noteq> 1
      then s\<lparr>hw := printf ''Error resetting page %d\<newline>'' [PInt (sz res)] (hw s)\<rparr>
      else s)"

definition main_set_page_result :: "result_t \<Rightarrow> sys \<Rightarrow> sys" where
  "main_set_page_result res s =
     (if sz res \<noteq> 1
      then s\<lparr>hw := printf ''Error setting page %d\<newline>'' [PInt (sz res)] (hw s)\<rparr>
      else s)"

text \<open>The page number assembled from the three argument bytes (line 591).\<close>

definition page_no_of :: "8 word \<Rightarrow> 8 word \<Rightarrow> 8 word \<Rightarrow> 32 word" where
  "page_no_of p1 p2 p3 =
     (ucast p1 AND 0xff) OR push_bit 8 (ucast p2 AND 0xff) OR push_bit 16 (ucast p3 AND 0x1)"

text \<open>
  The case \<^verbatim>\<open>CMD_SET_PAGE_NO\<close> of \<^verbatim>\<open>main\<close> (lines 580-601): all three reads are made
  before the timeouts are looked at.
\<close>

definition main_set_page_no :: "sys \<Rightarrow> sys outcome" where
  "main_set_page_no s =
     (let (p1, w) = getchar_timeout_us 2000000 (hw s);
          (p2, w) = getchar_timeout_us 2000000 w;
          (p3, w) = getchar_timeout_us 2000000 w;
          s = s\<lparr>hw := w\<rparr>
      in case (p1, p2, p3) of
           (Some b1, Some b2, Some b3) \<Rightarrow>
             obind (exchange \<lparr>cmd = CMD_SET_PAGE_NO, arg = page_no_of b1 b2 b3\<rparr> s)
               (\<lambda>(res, s). Returns (main_set_page_result res s))
         | _ \<Rightarrow> Returns (s\<lparr>hw := printf ''Timed out reading page number\<newline>'' [] (hw s)\<rparr>))"

text \<open>
  The \<^verbatim>\<open>switch (c - 0x30)\<close> of \<^verbatim>\<open>main\<close> (lines 536-616), for a character \<open>c\<close> that passed
  the test of line 533.
\<close>

definition main_switch :: "8 word \<Rightarrow> sys \<Rightarrow> sys outcome" where
  "main_switch c s =
     (let d = uint c - 0x30
      in if d = 0 then
           obind (exchange \<lparr>cmd = CMD_READ_ID, arg = 0\<rparr> s) (\<lambda>(res, s). main_read_id_result res s)
         else if d = 1 then
           obind (exchange \<lparr>cmd = CMD_READ_PAGE, arg = 0\<rparr> s) (\<lambda>(res, s). main_read_page_result res s)
         else if d = 2 then
           obind (exchange \<lparr>cmd = CMD_RESET_PAGE_NO, arg = 0\<rparr> s)
             (\<lambda>(res, s). Returns (main_reset_page_result res s))
         else if d = 3 then main_set_page_no s
         else if d = 4 then
           (let str = gpio_get_drive_strength 1 (hw s)
            in Returns (s\<lparr>hw := printf ''Drive strength is %u\<newline>'' [PDrive str] (hw s)\<rparr>))
         else if d = 5 then
           Returns (s\<lparr>hw := printf ''%d,%d,%lld\<newline>''
                      [PInt (uint (page_size_bytes (flash_info_glob s))),
                       PInt (uint (oob_size_bytes (flash_info_glob s))),
                       PInt (uint (flash_size_bytes (flash_info_glob s)))] (hw s)\<rparr>)
         else Returns (s\<lparr>hw := printf ''%s'' [PStr HELP_STR] (hw s)\<rparr>))"

text \<open>
  One pass of the \<^verbatim>\<open>while (1)\<close> of \<^verbatim>\<open>main\<close> (lines 525-618). \<^verbatim>\<open>char c\<close> receives the
  character, or the low byte of the negative \<^verbatim>\<open>PICO_ERROR_TIMEOUT\<close>, which is no digit.
\<close>

definition main_loop_iter :: "sys \<Rightarrow> sys outcome" where
  "main_loop_iter s =
     (let (t, w) = time_us_32 (hw s);
          val = (drop_bit 17 t AND 0x1 \<noteq> 0);
          w = gpio_put LED_PIN val w;
          (c, w) = getchar_timeout_us 0 w;
          s = s\<lparr>hw := w\<rparr>
      in case c of
           None \<Rightarrow> Returns s
         | Some c \<Rightarrow>
             if 0x30 \<le> c \<and> c \<le> 0x39
             then main_switch c (s\<lparr>hw := gpio_put LED_PIN True (hw s)\<rparr>)
             else Returns s)"

text \<open>
  \<^verbatim>\<open>main\<close> up to its loop (lines 484-523). It ends in one of the two
  \<^verbatim>\<open>while (true) tight_loop_contents();\<close>, which nothing leaves, or it launches core 1 and
  enters the command loop with the state given.
\<close>

datatype boot = Halted world | Running sys

definition main_boot :: "world \<Rightarrow> boot outcome" where
  "main_boot w =
     (let pins = set_gpios pins_zero;
          w = init_gpios pins GPIO_DRIVE_STRENGTH_2MA w;
          w = reset_nand pins w;
          id_data = replicate 5 0
      in obind (read_id pins w id_data)
           (\<lambda>(w, id_data).
              if \<not> check_supported_io_width (id_data_of_bytes id_data) then
                Returns (Halted (printf ''Unsupported I/O width!\<newline>'' [] w))
              else
                (let (ok, flash_info) =
                       get_flash_info (id_data_of_bytes id_data)
                         \<lparr>page_size_bytes = 0, oob_size_bytes = 0, flash_size_bytes = 0\<rparr>
                 in if \<not> ok then
                      Returns (Halted (printf ''Unrecognized NAND flash ID bytes!\<newline>'' [] w))
                    else
                      (let w = sleep_ms 500 w;
                           w = emit MulticoreLaunchCore1 w;
                           w = emit StdioInitAll w
                       in Returns (Running
                            \<lparr>cmd_queue = [], results_queue = [], pins_glob = pins,
                             shared_buffer = replicate 16384 0, flash_info_glob = flash_info,
                             hw = w, cmd_arg1 = \<lparr>cmd = CMD_READ_ID, arg = 5\<rparr>,
                             result = \<lparr>sz = 0, alloc = 0\<rparr>, page_num = 0, curr_page = 0\<rparr>)))))"

section \<open>Vocabulary for the properties\<close>

text \<open>
  The ready/busy line as the poll of \<^verbatim>\<open>read_bytes\<close> will find it: first high at the
  \<open>d\<close>-th next sample, never high again, or high again and again.
\<close>

definition ready_after :: "world \<Rightarrow> nat \<Rightarrow> bool" where
  "ready_after w d \<longleftrightarrow> gpio_in w (gpio_cnt w + d) \<and> (\<forall>j<d. \<not> gpio_in w (gpio_cnt w + j))"

definition never_ready :: "world \<Rightarrow> bool" where
  "never_ready w \<longleftrightarrow> (\<forall>i\<ge>gpio_cnt w. \<not> gpio_in w i)"

definition responsive :: "world \<Rightarrow> bool" where
  "responsive w \<longleftrightarrow> (\<forall>k. \<exists>i\<ge>k. gpio_in w i)"

text \<open>The events of the primitives, as lists.\<close>

definition cmd_events :: "nand_pins_t \<Rightarrow> 8 word \<Rightarrow> event list" where
  "cmd_events pins c =
     [GpioPut (re pins) True, GpioPut (we pins) True, GpioPut (ale pins) False,
      GpioSetDirOutMasked 0xFF, GpioPutMasked 0xFF (ucast c), GpioPut (cle pins) True,
      GpioPut (ce pins) False, BusyWaitCycles 5, GpioPut (we pins) False, BusyWaitCycles 3,
      GpioPut (we pins) True, BusyWaitCycles 3, GpioPut (cle pins) False]"

definition addr1_events :: "nand_pins_t \<Rightarrow> 8 word \<Rightarrow> event list" where
  "addr1_events pins a =
     [GpioPut (ce pins) False, GpioPut (re pins) True, GpioPut (we pins) True,
      GpioPut (cle pins) False, GpioSetDirOutMasked 0xFF, GpioPut (ale pins) True,
      BusyWaitCycles 4, GpioPutMasked 0xFF (ucast a), BusyWaitCycles 3,
      GpioPut (we pins) False, BusyWaitCycles 3, GpioPut (we pins) True, BusyWaitCycles 3,
      GpioPut (ale pins) False]"

definition addr5_events :: "nand_pins_t \<Rightarrow> 8 word list \<Rightarrow> event list" where
  "addr5_events pins bs =
     [GpioPut (ce pins) False, GpioPut (re pins) True, GpioPut (we pins) True,
      GpioPut (cle pins) False, GpioSetDirOutMasked 0xFF, GpioPut (ale pins) True,
      BusyWaitCycles 50] @
     concat (map (\<lambda>b. [GpioPutMasked 0xFF (ucast b), BusyWaitCycles 40,
                       GpioPut (we pins) False, BusyWaitCycles 40,
                       GpioPut (we pins) True, BusyWaitCycles 40]) bs) @
     [BusyWaitCycles 30, GpioPut (ale pins) False]"

definition read_setup_events :: "nand_pins_t \<Rightarrow> event list" where
  "read_setup_events pins =
     [GpioSetDirInMasked 0xFF, GpioPut (ce pins) False, GpioPut (cle pins) False,
      GpioPut (ale pins) False, GpioPut (we pins) True, GpioPut (re pins) True,
      BusyWaitCycles 40]"

definition poll_events :: "int \<Rightarrow> nat \<Rightarrow> nat \<Rightarrow> event list" where
  "poll_events pin cycles d =
     concat (replicate d [GpioGet pin False, BusyWaitCycles cycles]) @ [GpioGet pin True]"

definition read_events :: "nand_pins_t \<Rightarrow> nat \<Rightarrow> world \<Rightarrow> nat \<Rightarrow> event list" where
  "read_events pins tm w n =
     concat (map (\<lambda>k. [GpioPut (re pins) False, BusyWaitCycles (5 * tm),
                       GpioGetAll (all_in w (all_cnt w + k)), BusyWaitCycles (3 * tm),
                       GpioPut (re pins) True, BusyWaitCycles (3 * tm)]) [0..<n])"

text \<open>The next \<open>n\<close> bytes the I/O lines will deliver.\<close>

definition sampled :: "world \<Rightarrow> nat \<Rightarrow> 8 word list" where
  "sampled w n = map (\<lambda>k. ucast (all_in w (all_cnt w + k) AND 0xFF)) [0..<n]"

text \<open>
  What the NAND chip makes of the events, by the rules the header comment of the source
  quotes from the data sheet (lines 25-50): a command is latched from the I/O port on the
  rising edge of WE while CLE is high, an address on the rising edge of WE while ALE is
  high, a data byte is put out on the falling edge of RE, and the chip goes to standby when
  CE goes high; all of it only while CE is low. \<open>lines\<close> are the levels the program drives.
\<close>

datatype bus_cycle = Command "8 word" | Address "8 word" | DataOut | Standby | Delay nat

record lines =
  l_cle :: bool
  l_ale :: bool
  l_ce :: bool
  l_re :: bool
  l_we :: bool
  l_io :: "32 word"

definition drive_io :: "32 word \<Rightarrow> 32 word \<Rightarrow> 32 word \<Rightarrow> 32 word" where
  "drive_io m v old = (old AND NOT m) OR (v AND m)"

fun bus_step :: "nand_pins_t \<Rightarrow> event \<Rightarrow> lines \<times> bus_cycle list \<Rightarrow> lines \<times> bus_cycle list" where
  "bus_step pins (GpioPut pin v) (l, cs) =
     (if pin = we pins then
        (l\<lparr>l_we := v\<rparr>,
         if v \<and> \<not> l_we l \<and> \<not> l_ce l \<and> l_cle l then cs @ [Command (ucast (l_io l))]
         else if v \<and> \<not> l_we l \<and> \<not> l_ce l \<and> l_ale l then cs @ [Address (ucast (l_io l))]
         else cs)
      else if pin = re pins then
        (l\<lparr>l_re := v\<rparr>, if \<not> v \<and> l_re l \<and> \<not> l_ce l then cs @ [DataOut] else cs)
      else if pin = ce pins then
        (l\<lparr>l_ce := v\<rparr>, if v \<and> \<not> l_ce l then cs @ [Standby] else cs)
      else if pin = cle pins then (l\<lparr>l_cle := v\<rparr>, cs)
      else if pin = ale pins then (l\<lparr>l_ale := v\<rparr>, cs)
      else (l, cs))"
| "bus_step pins (GpioPutMasked m v) (l, cs) = (l\<lparr>l_io := drive_io m v (l_io l)\<rparr>, cs)"
| "bus_step pins (SleepUs n) (l, cs) = (l, cs @ [Delay n])"
| "bus_step pins e (l, cs) = (l, cs)"

definition nand_sees :: "nand_pins_t \<Rightarrow> lines \<Rightarrow> event list \<Rightarrow> bus_cycle list" where
  "nand_sees pins l es = snd (fold (bus_step pins) es (l, []))"

text \<open>The levels \<^verbatim>\<open>init_gpios\<close> leaves on the control lines (lines 183-187).\<close>

definition idle_lines :: lines where
  "idle_lines = \<lparr>l_cle = False, l_ale = False, l_ce = True, l_re = True, l_we = True, l_io = 0\<rparr>"

text \<open>The events of \<^verbatim>\<open>read_page\<close> before it calls \<^verbatim>\<open>read_bytes\<close>.\<close>

definition page_events :: "nand_pins_t \<Rightarrow> 32 word \<Rightarrow> event list" where
  "page_events pins pn =
     cmd_events pins 0xFF @ [GpioPut (ce pins) True, SleepUs 600] @ cmd_events pins 0x00 @
     addr5_events pins
       [0, 0, ucast (pn AND 0xFF), ucast (drop_bit 8 pn AND 0xFF),
        ucast (drop_bit 16 pn AND 0x01)] @
     cmd_events pins 0x30 @ [SleepUs 1]"

text \<open>
  Concrete worlds to run the model on. In \<open>test_world d xs\<close> the ready/busy line is high at
  every \<open>(d + 1)\<close>-th sample, the I/O lines first deliver the identification bytes
  98 DC 90 26 76 of the comment of lines 319-327 and then \<open>k\<close> at the \<open>k\<close>-th sample, each
  with bit 8 set as well, and the host sends the outcomes \<open>xs\<close>, then nothing. In
  \<open>stuck_world\<close> the ready/busy line stays low.
\<close>

definition test_world :: "nat \<Rightarrow> 8 word option list \<Rightarrow> world" where
  "test_world d xs =
     \<lparr>trace = [], gpio_in = (\<lambda>k. k mod Suc d = d), gpio_cnt = 0,
      all_in = (\<lambda>k. if k < 5 then [0x198, 0x1DC, 0x190, 0x126, 0x176] ! k else 0x100 + of_nat k),
      all_cnt = 0,
      time_in = (\<lambda>k. 0), time_cnt = 0,
      serial_in = (\<lambda>k. if k < length xs then xs ! k else None), serial_cnt = 0,
      drive = (\<lambda>pin. GPIO_DRIVE_STRENGTH_4MA), out = []\<rparr>"

definition stuck_world :: world where
  "stuck_world = (test_world 0 [])\<lparr>gpio_in := (\<lambda>k. False)\<rparr>"

text \<open>
  The world after a call of \<^verbatim>\<open>read_bytes\<close> for \<open>n\<close> bytes that found the ready/busy line
  high at the \<open>d\<close>-th sample, the events \<open>pre\<close> having come first.
\<close>

definition after_read :: "nand_pins_t \<Rightarrow> event list \<Rightarrow> world \<Rightarrow> nat \<Rightarrow> nat \<Rightarrow> world" where
  "after_read pins pre w d n =
     w\<lparr>trace := trace w @ pre @ read_setup_events pins @ poll_events (ry pins) 40 d @
                  [BusyWaitCycles 10] @ read_events pins 2 w n,
       gpio_cnt := gpio_cnt w + d + 1, all_cnt := all_cnt w + n\<rparr>"

text \<open>
  Two worlds that differ at most in the events and in how far the GPIO inputs have been
  consumed; and two worlds with the same future inputs.
\<close>

definition same_outside :: "world \<Rightarrow> world \<Rightarrow> bool" where
  "same_outside w' w \<longleftrightarrow>
     gpio_in w' = gpio_in w \<and> all_in w' = all_in w \<and> time_in w' = time_in w \<and>
     time_cnt w' = time_cnt w \<and> serial_in w' = serial_in w \<and> serial_cnt w' = serial_cnt w \<and>
     drive w' = drive w \<and> out w' = out w"

definition same_inputs :: "world \<Rightarrow> world \<Rightarrow> bool" where
  "same_inputs w' w \<longleftrightarrow>
     gpio_in w' = gpio_in w \<and> all_in w' = all_in w \<and> time_in w' = time_in w \<and>
     serial_in w' = serial_in w"

text \<open>
  The states in which \<^verbatim>\<open>main\<close> is between two commands, of a system that works: both
  queues are empty, the chip answers every poll in the end, the shared buffer has its
  16384 bytes and the geometry is one whose pages fit into it.
\<close>

definition sys_ok :: "sys \<Rightarrow> bool" where
  "sys_ok s \<longleftrightarrow>
     cmd_queue s = [] \<and> results_queue s = [] \<and> responsive (hw s) \<and>
     length (shared_buffer s) = 16384 \<and>
     0 < uint (page_size_bytes (flash_info_glob s)) + uint (oob_size_bytes (flash_info_glob s)) \<and>
     uint (page_size_bytes (flash_info_glob s)) + uint (oob_size_bytes (flash_info_glob s)) \<le> 16384"

definition carried :: "sys \<Rightarrow> sys \<Rightarrow> bool" where
  "carried s' s \<longleftrightarrow>
     sys_ok s' \<and> pins_glob s' = pins_glob s \<and> flash_info_glob s' = flash_info_glob s \<and>
     same_inputs (hw s') (hw s)"

text \<open>
  The world after lines 526-528 of one pass of the loop of \<^verbatim>\<open>main\<close> (the time is read,
  the LED set and one character asked for), and the state in which the \<^verbatim>\<open>switch\<close> is
  entered (line 535 has lit the LED).
\<close>

definition polled :: "world \<Rightarrow> world" where
  "polled w =
     w\<lparr>time_cnt := Suc (time_cnt w), serial_cnt := Suc (serial_cnt w),
       trace := trace w @ [GpioPut LED_PIN (drop_bit 17 (time_in w (time_cnt w)) AND 0x1 \<noteq> 0)]\<rparr>"

definition lit :: "sys \<Rightarrow> sys" where
  "lit s = s\<lparr>hw := emit (GpioPut LED_PIN True) (polled (hw s))\<rparr>"

text \<open>The events and the drive strengths of \<^verbatim>\<open>init_gpios\<close>, and the events of start-up.\<close>

definition init_events :: "nand_pins_t \<Rightarrow> gpio_drive_strength \<Rightarrow> event list" where
  "init_events pins strength =
     map (\<lambda>i. GpioInit (io_start pins + int i)) [0..<8] @
     [GpioInit (ale pins), GpioInit (cle pins), GpioInit (ce pins), GpioInit (re pins),
      GpioInit (we pins), GpioInit (wp pins), GpioInit (ry pins), GpioInit LED_PIN,
      GpioSetPulls (ry pins) True False, GpioSetDirOutMasked 0xFF,
      GpioSetDir (ale pins) True, GpioSetDir (cle pins) True, GpioSetDir (ce pins) True,
      GpioSetDir (re pins) True, GpioSetDir (we pins) True, GpioSetDir (wp pins) True,
      GpioSetDir (ry pins) False, GpioSetDir LED_PIN True,
      GpioPut (ale pins) False, GpioPut (cle pins) False, GpioPut (ce pins) True,
      GpioPut (we pins) True, GpioPut (re pins) True, GpioPut (wp pins) True,
      GpioPut LED_PIN True] @
     map (\<lambda>i. GpioSetDriveStrength (io_start pins + int i) strength) [0..<8] @
     [GpioSetDriveStrength (ale pins) strength, GpioSetDriveStrength (cle pins) strength,
      GpioSetDriveStrength (ce pins) strength, GpioSetDriveStrength (re pins) strength,
      GpioSetDriveStrength (we pins) strength, GpioSetDriveStrength (wp pins) strength]"

definition init_drive ::
  "nand_pins_t \<Rightarrow> gpio_drive_strength \<Rightarrow> (int \<Rightarrow> gpio_drive_strength) \<Rightarrow> int \<Rightarrow> gpio_drive_strength" where
  "init_drive pins strength dr =
     fold (\<lambda>p d. d(p := strength))
       (map (\<lambda>i. io_start pins + int i) [0..<8] @
        [ale pins, cle pins, ce pins, re pins, we pins, wp pins]) dr"

definition id_events :: "nand_pins_t \<Rightarrow> event list" where
  "id_events pins = cmd_events pins 0x90 @ addr1_events pins 0x00"

definition boot_events :: "nand_pins_t \<Rightarrow> event list" where
  "boot_events pins =
     init_events pins GPIO_DRIVE_STRENGTH_2MA @ cmd_events pins 0xFF @
     [GpioPut (ce pins) True, SleepUs 600] @ id_events pins"

text \<open>
  The world when \<^verbatim>\<open>main\<close> has read the identification bytes (line 500), the ready/busy
  line having been high at the \<open>d\<close>-th sample.
\<close>

definition booted_world :: "world \<Rightarrow> nat \<Rightarrow> world" where
  "booted_world w d =
     after_read (set_gpios pins_zero) (boot_events (set_gpios pins_zero))
       (w\<lparr>drive := init_drive (set_gpios pins_zero) GPIO_DRIVE_STRENGTH_2MA (drive w)\<rparr>) d 5"

text \<open>Commands sent one after the other, each by the pair of queue calls of \<^verbatim>\<open>main\<close>.\<close>

fun exchanges :: "cmd_t list \<Rightarrow> sys \<Rightarrow> sys outcome" where
  "exchanges [] s = Returns s"
| "exchanges (c # cs) s = obind (exchange c s) (\<lambda>(res, s). exchanges cs s)"

text \<open>
  The state in which \<^verbatim>\<open>main\<close> enters its loop with the 4 KB chip of lines 319-327, over a
  given world.
\<close>

definition test_sys :: "world \<Rightarrow> sys" where
  "test_sys w =
     \<lparr>cmd_queue = [], results_queue = [], pins_glob = set_gpios pins_zero,
      shared_buffer = replicate 16384 0,
      flash_info_glob =
        \<lparr>page_size_bytes = 4096, oob_size_bytes = 256, flash_size_bytes = 570425344\<rparr>,
      hw = w, cmd_arg1 = \<lparr>cmd = CMD_READ_ID, arg = 5\<rparr>,
      result = \<lparr>sz = 0, alloc = 0\<rparr>, page_num = 0, curr_page = 0\<rparr>"

text \<open>The world in which \<^verbatim>\<open>main\<close> enters its loop (lines 516-520 have run).\<close>

definition launched :: "world \<Rightarrow> nat \<Rightarrow> world" where
  "launched w d =
     (booted_world w d)\<lparr>trace := trace (booted_world w d) @
        [SleepMs 500, MulticoreLaunchCore1, StdioInitAll]\<rparr>"

text \<open>
  Two more worlds: a chip that reports a 16 bit wide organisation and a chip of another
  maker.
\<close>

definition wide_world :: world where
  "wide_world = (test_world 0 [])\<lparr>all_in := (\<lambda>k. [0x98, 0xDC, 0x90, 0x66, 0x76] ! (k mod 5))\<rparr>"

definition foreign_world :: world where
  "foreign_world = (test_world 0 [])\<lparr>all_in := (\<lambda>k. [0x2C, 0xDC, 0x90, 0x26, 0x76] ! (k mod 5))\<rparr>"

text \<open>
  A world in which the ready/busy line is high at one sample only, the third.
\<close>

definition once_world :: world where
  "once_world = (test_world 0 [])\<lparr>gpio_in := (\<lambda>k. k = 2)\<rparr>"


text \<open>
  What start-up leaves and no later code changes, whatever the chip and the host do: the
  result queue is empty when \<^verbatim>\<open>main\<close> is not inside one of its pairs of queue calls, the
  shared buffer has its 16384 bytes, and the geometry is one of the two that
  \<^verbatim>\<open>get_flash_info\<close> knows.
\<close>

definition started :: "sys \<Rightarrow> bool" where
  "started s \<longleftrightarrow>
     results_queue s = [] \<and> length (shared_buffer s) = 16384 \<and>
     (flash_info_glob s =
        \<lparr>page_size_bytes = 2048, oob_size_bytes = 128, flash_size_bytes = 285212672\<rparr> \<or>
      flash_info_glob s =
        \<lparr>page_size_bytes = 4096, oob_size_bytes = 256, flash_size_bytes = 570425344\<rparr>)"

section \<open>Lemmas on the bus primitives\<close>

lemmas sdk_defs = emit_def gpio_put_def gpio_put_masked_def gpio_get_def gpio_get_all_def
  busy_wait_at_least_cycles_def sleep_us_def sleep_ms_def gpio_set_dir_out_masked_def
  gpio_set_dir_in_masked_def set_io_dir_def set_io_val_def get_io_val_def Let_def

lemma for_loop_append:
  "for_loop (xs @ ys) body s = obind (for_loop xs body s) (for_loop ys body)"
proof (induction xs arbitrary: s)
  case Nil
  show ?case by simp
next
  case (Cons x xs)
  show ?case by (cases "body x s") (simp_all add: Cons.IH)
qed

lemma read_bytes_poll_ready:
  "gpio_in w (gpio_cnt w + d) \<Longrightarrow> \<forall>j<d. \<not> gpio_in w (gpio_cnt w + j) \<Longrightarrow>
   read_bytes_poll pins tm w =
     Some (w\<lparr>trace := trace w @ poll_events (ry pins) (20 * tm) d, gpio_cnt := gpio_cnt w + d + 1\<rparr>)"
proof (induction d arbitrary: w)
  case 0
  then show ?case
    by (subst read_bytes_poll.simps) (simp add: sdk_defs poll_events_def)
next
  case (Suc d)
  let ?w1 = "busy_wait_at_least_cycles (20 * tm) (snd (gpio_get (ry pins) w))"
  have low: "\<not> gpio_in w (gpio_cnt w)" using Suc.prems(2) by (metis add.right_neutral zero_less_Suc)
  have a: "gpio_in ?w1 (gpio_cnt ?w1 + d)" using Suc.prems(1) by (simp add: sdk_defs)
  have b: "\<forall>j<d. \<not> gpio_in ?w1 (gpio_cnt ?w1 + j)"
  proof (intro allI impI)
    fix j assume "j < d"
    then have "Suc j < Suc d" by simp
    then have "\<not> gpio_in w (gpio_cnt w + Suc j)" using Suc.prems(2) by blast
    then show "\<not> gpio_in ?w1 (gpio_cnt ?w1 + j)" by (simp add: sdk_defs)
  qed
  have "read_bytes_poll pins tm w = read_bytes_poll pins tm ?w1"
    using low by (subst read_bytes_poll.simps) (simp add: sdk_defs)
  also have "\<dots> = Some (?w1\<lparr>trace := trace ?w1 @ poll_events (ry pins) (20 * tm) d,
                            gpio_cnt := gpio_cnt ?w1 + d + 1\<rparr>)"
    by (rule Suc.IH [OF a b])
  also have "\<dots> = Some (w\<lparr>trace := trace w @ poll_events (ry pins) (20 * tm) (Suc d),
                            gpio_cnt := gpio_cnt w + Suc d + 1\<rparr>)"
    using low by (simp add: sdk_defs poll_events_def)
  finally show ?case .
qed

lemma read_bytes_poll_Some_ready:
  assumes "read_bytes_poll pins tm w = Some w'"
  shows "\<exists>i\<ge>gpio_cnt w. gpio_in w i"
proof (rule read_bytes_poll.raw_induct
    [where P = "\<lambda>pins tm w w'. \<exists>i\<ge>gpio_cnt w. gpio_in w i", OF _ assms])
  fix poll :: "nand_pins_t \<Rightarrow> nat \<Rightarrow> world \<Rightarrow> world option"
  fix pins tm w w'
  assume IH: "\<And>pins tm w w'. poll pins tm w = Some w' \<Longrightarrow> \<exists>i\<ge>gpio_cnt w. gpio_in w i"
  assume step: "(if \<not> fst (gpio_get (ry pins) w)
      then poll pins tm (busy_wait_at_least_cycles (20 * tm) (snd (gpio_get (ry pins) w)))
      else Some (snd (gpio_get (ry pins) w))) = Some w'"
  show "\<exists>i\<ge>gpio_cnt w. gpio_in w i"
  proof (cases "gpio_in w (gpio_cnt w)")
    case True
    then show ?thesis by blast
  next
    case False
    let ?w1 = "busy_wait_at_least_cycles (20 * tm) (snd (gpio_get (ry pins) w))"
    from False step have "poll pins tm ?w1 = Some w'" by (simp add: sdk_defs)
    then have "\<exists>i\<ge>gpio_cnt ?w1. gpio_in ?w1 i" by (rule IH)
    then obtain i where "i \<ge> Suc (gpio_cnt w)" "gpio_in w i" by (auto simp: sdk_defs)
    then show ?thesis by (metis Suc_leD)
  qed
qed

lemma read_bytes_poll_never:
  "\<forall>i\<ge>gpio_cnt w. \<not> gpio_in w i \<Longrightarrow> read_bytes_poll pins tm w = None"
  using read_bytes_poll_Some_ready [of pins tm w] by (cases "read_bytes_poll pins tm w") auto

lemma length_sampled: "length (sampled w n) = n"
  by (simp add: sampled_def)

lemma store_next: "length xs = n \<Longrightarrow> n < length dst \<Longrightarrow>
  (xs @ drop n dst)[n := v] = (xs @ [v]) @ drop (Suc n) dst"
  by (simp add: list_update_append Cons_nth_drop_Suc [symmetric] del: append_assoc)

lemma read_bytes_loop:
  "n \<le> length dst \<Longrightarrow>
   for_loop [0..<n] (read_bytes_body pins tm) (w, dst) =
     Returns (w\<lparr>trace := trace w @ read_events pins tm w n, all_cnt := all_cnt w + n\<rparr>,
              sampled w n @ drop n dst)"
proof (induction n)
  case 0
  show ?case by (simp add: read_events_def sampled_def)
next
  case (Suc n)
  then have n: "n < length dst" by simp
  have len: "length (sampled w n) = n" by (rule length_sampled)
  have step: "read_bytes_body pins tm n
        (w\<lparr>trace := trace w @ read_events pins tm w n, all_cnt := all_cnt w + n\<rparr>,
         sampled w n @ drop n dst) =
      Returns (w\<lparr>trace := trace w @ read_events pins tm w (Suc n), all_cnt := all_cnt w + Suc n\<rparr>,
               sampled w (Suc n) @ drop (Suc n) dst)"
    using n store_next [OF len n]
    by (simp add: read_bytes_body_def sdk_defs read_events_def length_sampled)
       (simp add: sampled_def)
  show ?case
    using Suc.IH n by (simp add: for_loop_append step)
qed

lemma write_cmd_trace: "write_cmd pins c w = w\<lparr>trace := trace w @ cmd_events pins c\<rparr>"
  by (simp add: write_cmd_def cmd_events_def sdk_defs)

lemma reset_nand_trace:
  "reset_nand pins w =
     w\<lparr>trace := trace w @ cmd_events pins 0xFF @ [GpioPut (ce pins) True, SleepUs 600]\<rparr>"
  by (simp add: reset_nand_def write_cmd_trace sdk_defs)

lemma write_addr_1_trace: "write_addr_1 pins a w = w\<lparr>trace := trace w @ addr1_events pins a\<rparr>"
  by (simp add: write_addr_1_def addr1_events_def sdk_defs)

lemma write_addr_5_trace:
  "write_addr_5 pins page_addr col_addr w =
     w\<lparr>trace := trace w @ addr5_events pins
        [ucast (col_addr AND 0xFF), ucast (drop_bit 8 col_addr AND 0x1F),
         ucast (page_addr AND 0xFF), ucast (drop_bit 8 page_addr AND 0xFF),
         ucast (drop_bit 16 page_addr AND 0x01)]\<rparr>"
  by (simp add: write_addr_5_def addr5_events_def sdk_defs)

lemma read_bytes_ready:
  assumes "ready_after w d" and "n \<le> length dst"
  shows "read_bytes pins w dst n =
     Returns (w\<lparr>trace := trace w @ read_setup_events pins @ poll_events (ry pins) 40 d @
                        [BusyWaitCycles 10] @ read_events pins 2 w n,
                gpio_cnt := gpio_cnt w + d + 1, all_cnt := all_cnt w + n\<rparr>,
              sampled w n @ drop n dst)"
proof -
  let ?w1 = "w\<lparr>trace := trace w @ read_setup_events pins\<rparr>"
  have r: "gpio_in ?w1 (gpio_cnt ?w1 + d)" "\<forall>j<d. \<not> gpio_in ?w1 (gpio_cnt ?w1 + j)"
    using assms(1) by (simp_all add: ready_after_def)
  have p: "read_bytes_poll pins 2 ?w1 =
     Some (?w1\<lparr>trace := trace ?w1 @ poll_events (ry pins) (20 * 2) d,
                gpio_cnt := gpio_cnt ?w1 + d + 1\<rparr>)"
    by (rule read_bytes_poll_ready [OF r])
  show ?thesis
    using assms(2)
    by (simp add: read_bytes_def sdk_defs read_setup_events_def [symmetric] p read_bytes_loop
        read_events_def sampled_def)
qed

lemma read_bytes_never:
  assumes "never_ready w"
  shows "read_bytes pins w dst n = Hangs"
proof -
  let ?w1 = "w\<lparr>trace := trace w @ read_setup_events pins\<rparr>"
  have "\<forall>i\<ge>gpio_cnt ?w1. \<not> gpio_in ?w1 i" using assms by (simp add: never_ready_def)
  then have "read_bytes_poll pins 2 ?w1 = None" by (rule read_bytes_poll_never)
  then show ?thesis
    by (simp add: read_bytes_def sdk_defs read_setup_events_def [symmetric])
qed

lemma ready_or_never: "never_ready w \<or> (\<exists>d. ready_after w d)"
proof (cases "\<exists>d. gpio_in w (gpio_cnt w + d)")
  case True
  define d where "d = (LEAST d. gpio_in w (gpio_cnt w + d))"
  have "gpio_in w (gpio_cnt w + d)" unfolding d_def using True by (rule LeastI_ex)
  moreover have "\<forall>j<d. \<not> gpio_in w (gpio_cnt w + j)"
    unfolding d_def using not_less_Least by blast
  ultimately show ?thesis by (auto simp: ready_after_def)
next
  case False
  have "never_ready w" unfolding never_ready_def
  proof (intro allI impI)
    fix i assume "gpio_cnt w \<le> i"
    then have "i = gpio_cnt w + (i - gpio_cnt w)" by simp
    then show "\<not> gpio_in w i" using False by metis
  qed
  then show ?thesis ..
qed


lemma read_page_trace:
  "read_page pins w pn page_buff page_size =
     read_bytes pins (w\<lparr>trace := trace w @ page_events pins pn\<rparr>) page_buff page_size"
  by (simp add: read_page_def reset_nand_trace write_cmd_trace write_addr_5_trace page_events_def
      sleep_us_def emit_def)

section \<open>Lemmas on what the chip sees\<close>

lemma io_byte: "(ucast (drive_io 0xFF v x) :: 8 word) = ucast v"
proof -
  have m: "(0xFF :: 32 word) = mask 8" by (simp add: mask_eq_exp_minus_1)
  show ?thesis
    unfolding drive_io_def m
    by (rule bit_word_eqI) (auto simp: bit_simps)
qed

lemma byte_round: "(ucast (ucast (b :: 8 word) :: 32 word) :: 8 word) = b"
  by (rule bit_word_eqI) (auto simp: bit_simps)

lemma io_again: "drive_io m v (drive_io m v' x) = drive_io m v x"
  unfolding drive_io_def
  by (rule bit_word_eqI) (auto simp: bit_simps)

lemma pins_vals:
  "we (set_gpios pins_zero) = 18" "re (set_gpios pins_zero) = 19" "ce (set_gpios pins_zero) = 20"
  "ale (set_gpios pins_zero) = 21" "cle (set_gpios pins_zero) = 22" "ry (set_gpios pins_zero) = 16"
  by (simp_all add: set_gpios_def pins_zero_def)

lemma fold_page_events:
  assumes "l_we l" "l_re l"
  shows "fold (bus_step (set_gpios pins_zero)) (page_events (set_gpios pins_zero) p) (l, cs) =
     (l\<lparr>l_cle := False, l_ale := False, l_ce := False, l_re := True, l_we := True,
         l_io := drive_io 0xFF 0x30 (l_io l)\<rparr>,
      cs @ [Command 0xFF, Standby, Delay 600, Command 0x00, Address 0, Address 0,
            Address (ucast (p AND 0xFF)), Address (ucast (drop_bit 8 p AND 0xFF)),
            Address (ucast (drop_bit 16 p AND 0x01)), Command 0x30, Delay 1])"
  using assms
  apply (simp add: page_events_def cmd_events_def addr5_events_def pins_vals io_byte io_again byte_round)
  done


lemma fold_poll_events:
  "fold (bus_step (set_gpios pins_zero)) (poll_events 16 c d) (l, cs) = (l, cs)"
  by (induction d) (simp_all add: poll_events_def)

lemma fold_read_events:
  assumes "l_re l" "\<not> l_ce l"
  shows "fold (bus_step (set_gpios pins_zero)) (read_events (set_gpios pins_zero) tm w n) (l, cs) =
     (l, cs @ replicate n DataOut)"
proof (induction n)
  case 0
  show ?case by (simp add: read_events_def)
next
  case (Suc n)
  have "l\<lparr>l_re := True\<rparr> = l" using assms(1) by simp
  then show ?case
    using assms Suc
    by (simp add: read_events_def pins_vals replicate_append_same)
qed

lemma nand_sees_read_page:
  assumes "l_we l" "l_re l"
  shows "nand_sees (set_gpios pins_zero) l
     (page_events (set_gpios pins_zero) p @ read_setup_events (set_gpios pins_zero) @
      poll_events (ry (set_gpios pins_zero)) 40 d @ [BusyWaitCycles 10] @
      read_events (set_gpios pins_zero) 2 w n) =
     [Command 0xFF, Standby, Delay 600, Command 0x00, Address 0, Address 0,
      Address (ucast (p AND 0xFF)), Address (ucast (drop_bit 8 p AND 0xFF)),
      Address (ucast (drop_bit 16 p AND 0x01)), Command 0x30, Delay 1] @ replicate n DataOut"
  by (simp add: nand_sees_def fold_page_events [OF assms] read_setup_events_def pins_vals
      fold_poll_events fold_read_events)

lemma m8: "(0xFF :: 32 word) = mask 8" by (simp add: mask_eq_exp_minus_1)
lemma m1: "(1 :: 32 word) = mask 1" by (simp add: mask_eq_exp_minus_1)

lemma lo_byte: "unat (ucast ((p :: 32 word) AND 0xFF) :: 8 word) = unat p mod 256"
  unfolding m8 take_bit_eq_mask [symmetric]
  by (simp add: unsigned_ucast_eq unsigned_take_bit_eq take_bit_eq_mod unat_mod unat_div)

lemma mid_byte: "unat (ucast (drop_bit 8 (p :: 32 word) AND 0xFF) :: 8 word) = unat p div 256 mod 256"
  unfolding m8 take_bit_eq_mask [symmetric]
  by (simp add: unsigned_ucast_eq unsigned_take_bit_eq unsigned_drop_bit_eq take_bit_eq_mod drop_bit_eq_div unat_mod unat_div)

lemma hi_bit: "unat (ucast (drop_bit 16 (p :: 32 word) AND 0x01) :: 8 word) = unat p div 65536 mod 2"
  unfolding m1 take_bit_eq_mask [symmetric]
  by (simp add: unsigned_ucast_eq unsigned_take_bit_eq unsigned_drop_bit_eq take_bit_eq_mod drop_bit_eq_div unat_mod unat_div)

lemma split17: "(n::nat) mod 256 + 256 * (n div 256 mod 256) + 65536 * (n div 65536 mod 2) = n mod 131072"
proof -
  have a: "n mod (65536 * 2) = 65536 * (n div 65536 mod 2) + n mod 65536"
    by (rule mod_mult2_eq)
  have b: "n mod (256 * 256) = 256 * (n div 256 mod 256) + n mod 256"
    by (rule mod_mult2_eq)
  from a b show ?thesis by simp
qed

lemma row_address:
  "unat (ucast (p AND 0xFF) :: 8 word) + 2 ^ 8 * unat (ucast (drop_bit 8 p AND 0xFF) :: 8 word) +
     2 ^ 16 * unat (ucast (drop_bit 16 p AND 0x01) :: 8 word) = unat (p :: 32 word) mod 2 ^ 17"
  unfolding mid_byte hi_bit unfolding lo_byte using split17 [of "unat p"] by simp

section \<open>Lemmas on the identification bytes\<close>

lemma and3_cases: "(x :: 8 word) AND 3 = 0 \<or> x AND 3 = 1 \<or> x AND 3 = 2 \<or> x AND 3 = 3"
proof -
  have "unat (x AND 3) \<le> unat (3 :: 8 word)"
    by (rule word_and_le1 [THEN word_le_nat_alt [THEN iffD1]])
  then have "unat (x AND 3) < 4" by simp
  then have "unat (x AND 3) = 0 \<or> unat (x AND 3) = 1 \<or> unat (x AND 3) = 2 \<or> unat (x AND 3) = 3"
    by arith
  then show ?thesis
    by (simp add: word_unat_eq_iff)
qed

lemma get_flash_info_cases:
  "get_flash_info idb fi =
    (if maker idb = 0x98 \<and> pgsz_bksz_iow idb AND 3 = 1
     then (True, \<lparr>page_size_bytes = 2048, oob_size_bytes = 128, flash_size_bytes = 285212672\<rparr>)
     else if maker idb = 0x98 \<and> pgsz_bksz_iow idb AND 3 = 2
     then (True, \<lparr>page_size_bytes = 4096, oob_size_bytes = 256, flash_size_bytes = 570425344\<rparr>)
     else (False, fi))"
  using and3_cases [of "pgsz_bksz_iow idb"]
  by (cases fi) (auto simp: get_flash_info_def TOSHIBA_KIOXIA_def Let_def)

section \<open>Lemmas on reading\<close>

lemma after_read_fields [simp]:
  "gpio_in (after_read pins pre w d n) = gpio_in w"
  "all_in (after_read pins pre w d n) = all_in w"
  "time_in (after_read pins pre w d n) = time_in w"
  "time_cnt (after_read pins pre w d n) = time_cnt w"
  "serial_in (after_read pins pre w d n) = serial_in w"
  "serial_cnt (after_read pins pre w d n) = serial_cnt w"
  "drive (after_read pins pre w d n) = drive w"
  "out (after_read pins pre w d n) = out w"
  "gpio_cnt (after_read pins pre w d n) = gpio_cnt w + d + 1"
  "all_cnt (after_read pins pre w d n) = all_cnt w + n"
  by (simp_all add: after_read_def)

lemma responsive_ready: "responsive w \<Longrightarrow> \<exists>d. ready_after w d"
proof -
  assume "responsive w"
  then have "\<exists>i\<ge>gpio_cnt w. gpio_in w i" by (simp add: responsive_def)
  then have "\<not> never_ready w" by (simp add: never_ready_def)
  then show ?thesis using ready_or_never by blast
qed

lemma responsive_cong: "gpio_in w' = gpio_in w \<Longrightarrow> responsive w' = responsive w"
  by (simp add: responsive_def)

lemma read_id_ready:
  assumes "ready_after w d" and "5 \<le> length dst"
  shows "read_id pins w dst =
     Returns (after_read pins (cmd_events pins 0x90 @ addr1_events pins 0x00) w d 5,
              sampled w 5 @ drop 5 dst)"
proof -
  let ?w1 = "w\<lparr>trace := trace w @ cmd_events pins 0x90 @ addr1_events pins 0x00\<rparr>"
  have r: "ready_after ?w1 d" using assms(1) by (simp add: ready_after_def)
  show ?thesis
    by (simp add: read_id_def write_cmd_trace write_addr_1_trace read_bytes_ready [OF r assms(2)]
        after_read_def read_events_def sampled_def)
qed

lemma read_page_ready:
  assumes "ready_after w d" and "n \<le> length dst"
  shows "read_page pins w pn dst n =
     Returns (after_read pins (page_events pins pn) w d n, sampled w n @ drop n dst)"
proof -
  let ?w1 = "w\<lparr>trace := trace w @ page_events pins pn\<rparr>"
  have r: "ready_after ?w1 d" using assms(1) by (simp add: ready_after_def)
  show ?thesis
    by (simp add: read_page_trace read_bytes_ready [OF r assms(2)]
        after_read_def read_events_def sampled_def)
qed

lemma read_id_never: "never_ready w \<Longrightarrow> read_id pins w dst = Hangs"
proof -
  assume n: "never_ready w"
  let ?w1 = "w\<lparr>trace := trace w @ cmd_events pins 0x90 @ addr1_events pins 0x00\<rparr>"
  have "never_ready ?w1" using n by (simp add: never_ready_def)
  then show ?thesis
    by (simp add: read_id_def write_cmd_trace write_addr_1_trace read_bytes_never)
qed

lemma read_page_never: "never_ready w \<Longrightarrow> read_page pins w pn dst n = Hangs"
proof -
  assume n: "never_ready w"
  have "never_ready (w\<lparr>trace := trace w @ page_events pins pn\<rparr>)"
    using n by (simp add: never_ready_def)
  then show ?thesis
    by (simp add: read_page_trace read_bytes_never)
qed

lemma core1_execute_read_id:
  assumes "cmd c = CMD_READ_ID" "ready_after (hw s) d" "5 \<le> length (shared_buffer s)"
  shows "core1_execute c s =
     Returns (s\<lparr>result := (result s)\<lparr>sz := 5\<rparr>,
                hw := after_read (pins_glob s) (cmd_events (pins_glob s) 0x90 @ addr1_events (pins_glob s) 0x00)
                        (hw s) d 5,
                shared_buffer := sampled (hw s) 5 @ drop 5 (shared_buffer s)\<rparr>)"
  using assms by (simp add: core1_execute_def read_id_ready [OF assms(2,3)])

lemma core1_execute_read_page:
  assumes "cmd c = CMD_READ_PAGE" "ready_after (hw s) d"
    "0 \<le> n" "n \<le> 16384"
    "n = uint (page_size_bytes (flash_info_glob s)) + uint (oob_size_bytes (flash_info_glob s))"
  shows "core1_execute c s =
     Returns (s\<lparr>result := (result s)\<lparr>sz := n\<rparr>,
                hw := after_read (pins_glob s) (page_events (pins_glob s) (page_num s)) (hw s) d (nat n),
                shared_buffer := sampled (hw s) (nat n) @ drop (nat n) (replicate 16384 0),
                page_num := page_num s + 1\<rparr>)"
proof -
  have "nat n \<le> length (replicate 16384 (0 :: 8 word))" using assms(3,4) by simp
  from read_page_ready [OF assms(2) this]
  show ?thesis using assms(1,5) by (simp add: core1_execute_def Let_def)
qed

lemma read_bytes_body_overrun:
  "length dst \<le> i \<Longrightarrow> read_bytes_body pins tm i (w, dst) = Undefined"
  by (simp add: read_bytes_body_def sdk_defs)

lemma read_bytes_loop_overrun:
  assumes "length dst < n"
  shows "for_loop [0..<n] (read_bytes_body pins tm) (w, dst) = Undefined"
proof -
  let ?L = "length dst"
  have "[0..<?L + (n - ?L)] = [0..<?L] @ [?L..<?L + (n - ?L)]"
    by (rule upt_add_eq_append) simp
  then have "[0..<n] = [0..<?L] @ [?L..<n]"
    using assms by simp
  also have "[?L..<n] = ?L # [Suc ?L..<n]"
    using assms by (rule upt_conv_Cons)
  finally have split: "[0..<n] = [0..<?L] @ ?L # [Suc ?L..<n]" .
  have first: "for_loop [0..<?L] (read_bytes_body pins tm) (w, dst) =
     Returns (w\<lparr>trace := trace w @ read_events pins tm w ?L, all_cnt := all_cnt w + ?L\<rparr>,
              sampled w ?L @ drop ?L dst)"
    by (rule read_bytes_loop) simp
  have body: "read_bytes_body pins tm ?L
       (w\<lparr>trace := trace w @ read_events pins tm w ?L, all_cnt := all_cnt w + ?L\<rparr>,
        sampled w ?L @ drop ?L dst) = Undefined"
    by (rule read_bytes_body_overrun) (simp add: length_sampled)
  show ?thesis
    unfolding split for_loop_append first by (simp only: obind.simps for_loop.simps body)
qed

lemma read_bytes_overrun:
  assumes "ready_after w d" and "length dst < n"
  shows "read_bytes pins w dst n = Undefined"
proof -
  let ?w1 = "w\<lparr>trace := trace w @ read_setup_events pins\<rparr>"
  have r: "gpio_in ?w1 (gpio_cnt ?w1 + d)" "\<forall>j<d. \<not> gpio_in ?w1 (gpio_cnt ?w1 + j)"
    using assms(1) by (simp_all add: ready_after_def)
  have p: "read_bytes_poll pins 2 ?w1 =
     Some (?w1\<lparr>trace := trace ?w1 @ poll_events (ry pins) (20 * 2) d,
                gpio_cnt := gpio_cnt ?w1 + d + 1\<rparr>)"
    by (rule read_bytes_poll_ready [OF r])
  show ?thesis
    by (simp add: read_bytes_def sdk_defs read_setup_events_def [symmetric] p
        read_bytes_loop_overrun [OF assms(2)])
qed

lemma read_bytes_Returns:
  assumes "read_bytes pins w dst n = Returns (w', dst')"
  shows "\<exists>d. ready_after w d \<and> n \<le> length dst \<and>
             w' = after_read pins [] w d n \<and> dst' = sampled w n @ drop n dst"
proof -
  from ready_or_never [of w] show ?thesis
  proof
    assume "never_ready w"
    then have "read_bytes pins w dst n = Hangs" by (rule read_bytes_never)
    with assms show ?thesis by simp
  next
    assume "\<exists>d. ready_after w d"
    then obtain d where d: "ready_after w d" ..
    show ?thesis
    proof (cases "n \<le> length dst")
      case True
      from read_bytes_ready [OF d True, of pins] assms
      have "w' = after_read pins [] w d n \<and> dst' = sampled w n @ drop n dst"
        by (simp add: after_read_def)
      with d True show ?thesis by blast
    next
      case False
      then have "length dst < n" by simp
      from read_bytes_overrun [OF d this, of pins] assms show ?thesis by simp
    qed
  qed
qed

section \<open>Lemmas on the worker core\<close>

lemma obind_Returns_iff: "obind m f = Returns y \<longleftrightarrow> (\<exists>x. m = Returns x \<and> f x = Returns y)"
  by (cases m) simp_all

lemma read_id_Returns:
  assumes "read_id pins w dst = Returns (w', dst')"
  shows "\<exists>d. ready_after w d \<and> 5 \<le> length dst \<and>
     w' = after_read pins (cmd_events pins 0x90 @ addr1_events pins 0x00) w d 5 \<and>
     dst' = sampled w 5 @ drop 5 dst"
proof -
  let ?w1 = "w\<lparr>trace := trace w @ cmd_events pins 0x90 @ addr1_events pins 0x00\<rparr>"
  from assms have "read_bytes pins ?w1 dst 5 = Returns (w', dst')"
    by (simp add: read_id_def write_cmd_trace write_addr_1_trace)
  from read_bytes_Returns [OF this]
  obtain d where "ready_after ?w1 d" "5 \<le> length dst" "w' = after_read pins [] ?w1 d 5"
    "dst' = sampled ?w1 5 @ drop 5 dst" by blast
  then have "ready_after w d \<and> 5 \<le> length dst \<and>
     w' = after_read pins (cmd_events pins 0x90 @ addr1_events pins 0x00) w d 5 \<and>
     dst' = sampled w 5 @ drop 5 dst"
    by (simp add: ready_after_def after_read_def read_events_def sampled_def)
  then show ?thesis ..
qed

lemma read_page_Returns:
  assumes "read_page pins w pn dst n = Returns (w', dst')"
  shows "\<exists>d. ready_after w d \<and> n \<le> length dst \<and>
     w' = after_read pins (page_events pins pn) w d n \<and> dst' = sampled w n @ drop n dst"
proof -
  let ?w1 = "w\<lparr>trace := trace w @ page_events pins pn\<rparr>"
  from assms have "read_bytes pins ?w1 dst n = Returns (w', dst')"
    by (simp add: read_page_trace)
  from read_bytes_Returns [OF this]
  obtain d where "ready_after ?w1 d" "n \<le> length dst" "w' = after_read pins [] ?w1 d n"
    "dst' = sampled ?w1 n @ drop n dst" by blast
  then have "ready_after w d \<and> n \<le> length dst \<and>
     w' = after_read pins (page_events pins pn) w d n \<and> dst' = sampled w n @ drop n dst"
    by (simp add: ready_after_def after_read_def read_events_def sampled_def)
  then show ?thesis ..
qed

lemma same_outside_refl [simp]: "same_outside w w"
  by (simp add: same_outside_def)

lemma same_outside_after_read [simp]: "same_outside (after_read pins pre w d n) w"
  by (simp add: same_outside_def)

lemma core1_execute_frame:
  assumes "core1_execute c s = Returns s'"
  shows "cmd_queue s' = cmd_queue s \<and> results_queue s' = results_queue s \<and>
     pins_glob s' = pins_glob s \<and> flash_info_glob s' = flash_info_glob s \<and>
     curr_page s' = curr_page s \<and> cmd_arg1 s' = cmd_arg1 s \<and> same_outside (hw s') (hw s) \<and>
     page_num s' =
       (case cmd c of CMD_READ_PAGE \<Rightarrow> page_num s + 1 | CMD_RESET_PAGE_NO \<Rightarrow> 0
        | CMD_SET_PAGE_NO \<Rightarrow> arg c | _ \<Rightarrow> page_num s) \<and>
     sz (result s') =
       (case cmd c of CMD_READ_ID \<Rightarrow> 5
        | CMD_READ_PAGE \<Rightarrow>
            uint (page_size_bytes (flash_info_glob s)) + uint (oob_size_bytes (flash_info_glob s))
        | CMD_RESET_PAGE_NO \<Rightarrow> 1 | CMD_SET_PAGE_NO \<Rightarrow> 1 | _ \<Rightarrow> sz (result s)) \<and>
     length (shared_buffer s') =
       (case cmd c of CMD_READ_PAGE \<Rightarrow> 16384 | _ \<Rightarrow> length (shared_buffer s))"
proof (cases "cmd c")
  case CMD_READ_ID
  with assms obtain w' buf where
    r: "read_id (pins_glob s) (hw s) (shared_buffer s) = Returns (w', buf)" and
    s': "s' = s\<lparr>result := (result s)\<lparr>sz := 5\<rparr>, hw := w', shared_buffer := buf\<rparr>"
    by (auto simp: core1_execute_def obind_Returns_iff)
  from read_id_Returns [OF r] s' CMD_READ_ID show ?thesis
    by (auto simp: length_sampled)
next
  case CMD_READ_PAGE
  let ?n = "uint (page_size_bytes (flash_info_glob s)) + uint (oob_size_bytes (flash_info_glob s))"
  from CMD_READ_PAGE assms obtain w' buf where
    r: "read_page (pins_glob s) (hw s) (page_num s) (replicate 16384 0) (nat ?n) = Returns (w', buf)" and
    s': "s' = s\<lparr>result := (result s)\<lparr>sz := ?n\<rparr>, shared_buffer := buf, hw := w',
                  page_num := page_num s + 1\<rparr>"
    by (auto simp: core1_execute_def obind_Returns_iff Let_def)
  from read_page_Returns [OF r] s' CMD_READ_PAGE show ?thesis
    by (auto simp: length_sampled)
qed (use assms in \<open>auto simp: core1_execute_def\<close>)

lemma queue_add_blocking_Returns:
  "queue_add_blocking q x = Returns q' \<longleftrightarrow> length q < queue_capacity \<and> q' = q @ [x]"
  by (auto simp: queue_add_blocking_def)

lemma queue_remove_blocking_Returns:
  "queue_remove_blocking q = Returns (x, q') \<longleftrightarrow> q = x # q'"
  by (cases q) (auto simp: queue_remove_blocking_def)

lemma core1_main_iter_Returns:
  assumes "core1_main_iter s = Returns s'"
  shows "\<exists>c q s2. cmd_queue s = c # q \<and>
     core1_execute c (s\<lparr>cmd_queue := q, cmd_arg1 := c\<rparr>) = Returns s2 \<and>
     length (results_queue s) < queue_capacity \<and>
     s' = s2\<lparr>results_queue := results_queue s @ [result s2]\<rparr>"
proof -
  from assms obtain c q where q: "cmd_queue s = c # q"
    by (cases "cmd_queue s") (auto simp: core1_main_iter_def queue_remove_blocking_def)
  with assms obtain s2 where
    e: "core1_execute c (s\<lparr>cmd_queue := q, cmd_arg1 := c\<rparr>) = Returns s2" and
    a: "length (results_queue s2) < queue_capacity" and
    s': "s' = s2\<lparr>results_queue := results_queue s2 @ [result s2]\<rparr>"
    by (auto simp: core1_main_iter_def queue_remove_blocking_def obind_Returns_iff
        queue_add_blocking_Returns)
  from core1_execute_frame [OF e] have "results_queue s2 = results_queue s" by simp
  with q e a s' show ?thesis by auto
qed

lemma queue_add_blocking_empty: "queue_add_blocking [] x = Returns [x]"
  by (simp add: queue_add_blocking_def queue_capacity_def)

lemma queue_remove_blocking_single: "queue_remove_blocking [x] = Returns (x, [])"
  by (simp add: queue_remove_blocking_def)

lemma exchange_idle:
  assumes "cmd_queue s = []" "results_queue s = []"
  shows "exchange c s = obind (core1_execute c (s\<lparr>cmd_arg1 := c\<rparr>)) (\<lambda>s2. Returns (result s2, s2))"
proof -
  have eq: "s\<lparr>cmd_queue := [], cmd_arg1 := c\<rparr> = s\<lparr>cmd_arg1 := c\<rparr>"
    using assms(1) by simp
  have unf: "exchange c s =
     obind (obind (core1_execute c (s\<lparr>cmd_arg1 := c\<rparr>))
              (\<lambda>s. obind (queue_add_blocking (results_queue s) (result s))
                     (\<lambda>q. Returns (s\<lparr>results_queue := q\<rparr>))))
       (\<lambda>s. obind (queue_remove_blocking (results_queue s))
              (\<lambda>(res, q). Returns (res, s\<lparr>results_queue := q\<rparr>)))"
    using assms(1)
    by (simp add: exchange_def core1_main_iter_def queue_add_blocking_empty
        queue_remove_blocking_single eq)
  show ?thesis
  proof (cases "core1_execute c (s\<lparr>cmd_arg1 := c\<rparr>)")
    case (Returns s2)
    from core1_execute_frame [OF Returns] assms
    have "cmd_queue s2 = []" "results_queue s2 = []" by simp_all
    then have "s2\<lparr>results_queue := []\<rparr> = s2" by simp
    with Returns \<open>results_queue s2 = []\<close> show ?thesis
      unfolding unf
      by (simp add: queue_add_blocking_empty queue_remove_blocking_single)
  qed (simp_all add: unf)
qed

section \<open>Lemmas on the result handlers\<close>

lemma same_outside_responsive: "same_outside w' w \<Longrightarrow> responsive w' = responsive w"
  by (simp add: same_outside_def responsive_def)

lemma core1_execute_returns:
  assumes "responsive (hw s)" "length (shared_buffer s) = 16384"
    "uint (page_size_bytes (flash_info_glob s)) + uint (oob_size_bytes (flash_info_glob s)) \<le> 16384"
  shows "\<exists>s'. core1_execute c s = Returns s'"
proof -
  from responsive_ready [OF assms(1)] obtain d where d: "ready_after (hw s) d" ..
  show ?thesis
  proof (cases "cmd c")
    case CMD_READ_ID
    from assms(2) have "5 \<le> length (shared_buffer s)" by simp
    from core1_execute_read_id [OF CMD_READ_ID d this] show ?thesis by blast
  next
    case CMD_READ_PAGE
    let ?n = "uint (page_size_bytes (flash_info_glob s)) + uint (oob_size_bytes (flash_info_glob s))"
    have "0 \<le> ?n" by simp
    from core1_execute_read_page [OF CMD_READ_PAGE d this assms(3) refl] show ?thesis by blast
  qed (simp_all add: core1_execute_def)
qed

lemma exchange_ok:
  assumes "sys_ok s"
  shows "\<exists>s'. exchange c s = Returns (result s', s') \<and> sys_ok s' \<and>
     pins_glob s' = pins_glob s \<and> flash_info_glob s' = flash_info_glob s \<and>
     curr_page s' = curr_page s \<and> cmd_arg1 s' = c \<and> same_outside (hw s') (hw s) \<and>
     page_num s' =
       (case cmd c of CMD_READ_PAGE \<Rightarrow> page_num s + 1 | CMD_RESET_PAGE_NO \<Rightarrow> 0
        | CMD_SET_PAGE_NO \<Rightarrow> arg c | _ \<Rightarrow> page_num s) \<and>
     sz (result s') =
       (case cmd c of CMD_READ_ID \<Rightarrow> 5
        | CMD_READ_PAGE \<Rightarrow>
            uint (page_size_bytes (flash_info_glob s)) + uint (oob_size_bytes (flash_info_glob s))
        | CMD_RESET_PAGE_NO \<Rightarrow> 1 | CMD_SET_PAGE_NO \<Rightarrow> 1 | _ \<Rightarrow> sz (result s))"
proof -
  let ?s1 = "s\<lparr>cmd_arg1 := c\<rparr>"
  from assms have idle: "cmd_queue s = []" "results_queue s = []" by (simp_all add: sys_ok_def)
  from assms have "\<exists>s'. core1_execute c ?s1 = Returns s'"
    by (intro core1_execute_returns) (simp_all add: sys_ok_def)
  then obtain s' where e: "core1_execute c ?s1 = Returns s'" ..
  from core1_execute_frame [OF e] assms have "sys_ok s'"
    by (auto simp: sys_ok_def same_outside_responsive split: cmd_enum_t.splits)
  with core1_execute_frame [OF e] exchange_idle [OF idle, of c] e show ?thesis
    by (auto cong: cmd_enum_t.case_cong)
qed

lemma for_loop_print:
  "n \<le> L \<Longrightarrow>
   for_loop [0..<n] (\<lambda>i w. if i < L then Returns (printf fmt (f i) w) else Undefined) w =
     Returns (w\<lparr>out := out w @ map (\<lambda>i. Printf fmt (f i)) [0..<n]\<rparr>)"
proof (induction n)
  case 0
  show ?case by simp
next
  case (Suc n)
  then show ?case by (simp add: for_loop_append printf_def)
qed

lemma display_page_ok:
  "n \<le> length buf \<Longrightarrow>
   display_page buf n w =
     Returns (w\<lparr>out := out w @ map (\<lambda>i. Printf ''%02X'' [PInt (uint (buf ! i))]) [0..<n]\<rparr>)"
  unfolding display_page_def by (rule for_loop_print)

lemma main_read_id_result_ok:
  assumes "0 < sz res" "sz res \<le> 5" "5 \<le> length (shared_buffer s)"
  shows "main_read_id_result res s =
     Returns (s\<lparr>hw := explain_id (id_data_of_bytes (shared_buffer s))
        ((hw s)\<lparr>out := out (hw s) @ [Printf ''ID: '' []] @
            map (\<lambda>i. Printf ''%02x '' [PInt (uint (shared_buffer s ! i))]) [0..<nat (sz res)] @
            [Printf ''\<newline>'' []]\<rparr>)\<rparr>)"
proof -
  have "nat (sz res) \<le> length (shared_buffer s)" using assms by simp
  from for_loop_print [OF this] assms show ?thesis
    by (simp add: main_read_id_result_def printf_def)
qed


lemma main_read_page_result_ok:
  assumes "0 < sz res"
    "sz res \<le> uint (page_size_bytes (flash_info_glob s)) + uint (oob_size_bytes (flash_info_glob s))"
    "nat (sz res) \<le> length (shared_buffer s)"
  shows "main_read_page_result res s =
     Returns (s\<lparr>hw := (hw s)\<lparr>out := out (hw s) @
                  map (\<lambda>i. Printf ''%02X'' [PInt (uint (shared_buffer s ! i))]) [0..<nat (sz res)]\<rparr>,
                curr_page := curr_page s + 1\<rparr>)"
  using assms by (simp add: main_read_page_result_def display_page_ok)


lemma main_loop_iter_unfold:
  "main_loop_iter s =
     (case serial_in (hw s) (serial_cnt (hw s)) of
        None \<Rightarrow> Returns (s\<lparr>hw := polled (hw s)\<rparr>)
      | Some c \<Rightarrow>
          if 0x30 \<le> c \<and> c \<le> 0x39
          then main_switch c (s\<lparr>hw := emit (GpioPut LED_PIN True) (polled (hw s))\<rparr>)
          else Returns (s\<lparr>hw := polled (hw s)\<rparr>))"
  by (simp add: main_loop_iter_def time_us_32_def getchar_timeout_us_def gpio_put_def emit_def
      polled_def Let_def split: option.splits)

section \<open>Lemmas on the commands that cross the queues\<close>

lemma same_inputs_refl [simp]: "same_inputs w w"
  by (simp add: same_inputs_def)

lemma same_inputs_trans: "same_inputs w'' w' \<Longrightarrow> same_inputs w' w \<Longrightarrow> same_inputs w'' w"
  by (simp add: same_inputs_def)

lemma same_outside_inputs: "same_outside w' w \<Longrightarrow> same_inputs w' w"
  by (simp add: same_outside_def same_inputs_def)

lemma same_inputs_simps [simp]:
  "same_inputs (polled w) w"
  "same_inputs (emit e w) w"
  "same_inputs (printf fmt args w) w"
  "same_inputs (explain_id idb w) w"
  "same_inputs (w\<lparr>out := x\<rparr>) w"
  "same_inputs (w\<lparr>serial_cnt := k\<rparr>) w"
  by (simp_all add: same_inputs_def polled_def emit_def printf_def explain_id_def Let_def)

lemma sys_ok_hw: "same_inputs w (hw s) \<Longrightarrow> sys_ok (s\<lparr>hw := w\<rparr>) = sys_ok s"
  by (simp add: sys_ok_def responsive_def same_inputs_def)

lemma sys_ok_curr_page [simp]: "sys_ok (s\<lparr>curr_page := x\<rparr>) = sys_ok s"
  by (simp add: sys_ok_def)

lemma serial_cnt_simps [simp]:
  "serial_cnt (polled w) = Suc (serial_cnt w)"
  "serial_cnt (emit e w) = serial_cnt w"
  "serial_cnt (printf fmt args w) = serial_cnt w"
  "serial_cnt (explain_id idb w) = serial_cnt w"
  "out (polled w) = out w"
  "out (emit e w) = out w"
  by (simp_all add: polled_def emit_def printf_def explain_id_def Let_def)

lemma main_switch_read_id:
  assumes "sys_ok s" "uint c - 0x30 = 0"
  shows "\<exists>s'. main_switch c s = Returns s' \<and> carried s' s \<and> page_num s' = page_num s \<and>
     curr_page s' = curr_page s \<and> serial_cnt (hw s') = serial_cnt (hw s)"
proof -
  from exchange_ok [OF assms(1), of "\<lparr>cmd = CMD_READ_ID, arg = 0\<rparr>"]
  obtain s2 where x: "exchange \<lparr>cmd = CMD_READ_ID, arg = 0\<rparr> s = Returns (result s2, s2)"
    and ok: "sys_ok s2" and fr: "pins_glob s2 = pins_glob s" "flash_info_glob s2 = flash_info_glob s"
      "curr_page s2 = curr_page s" "same_outside (hw s2) (hw s)" "page_num s2 = page_num s"
      "sz (result s2) = 5"
    by auto
  from ok have len: "5 \<le> length (shared_buffer s2)" by (simp add: sys_ok_def)
  have r: "main_read_id_result (result s2) s2 =
     Returns (s2\<lparr>hw := explain_id (id_data_of_bytes (shared_buffer s2))
        ((hw s2)\<lparr>out := out (hw s2) @ [Printf ''ID: '' []] @
            map (\<lambda>i. Printf ''%02x '' [PInt (uint (shared_buffer s2 ! i))]) [0..<nat (sz (result s2))] @
            [Printf ''\<newline>'' []]\<rparr>)\<rparr>)"
    by (rule main_read_id_result_ok) (simp_all add: fr len)
  let ?w = "explain_id (id_data_of_bytes (shared_buffer s2))
        ((hw s2)\<lparr>out := out (hw s2) @ [Printf ''ID: '' []] @
            map (\<lambda>i. Printf ''%02x '' [PInt (uint (shared_buffer s2 ! i))]) [0..<nat (sz (result s2))] @
            [Printf ''\<newline>'' []]\<rparr>)"
  have i2: "same_inputs ?w (hw s2)"
    by (rule same_inputs_trans [OF same_inputs_simps(4) same_inputs_simps(5)])
  have i: "same_inputs ?w (hw s)"
    by (rule same_inputs_trans [OF i2 same_outside_inputs [OF fr(4)]])
  have c: "serial_cnt ?w = serial_cnt (hw s)" using fr(4) by (simp add: same_outside_def)
  have "main_switch c s = Returns (s2\<lparr>hw := ?w\<rparr>)"
    using assms(2) x r by (simp add: main_switch_def)
  moreover have "carried (s2\<lparr>hw := ?w\<rparr>) s"
    using ok fr i sys_ok_hw [OF i2] by (simp add: carried_def)
  ultimately show ?thesis using fr c by simp
qed

lemma main_switch_read_page:
  assumes "sys_ok s" "uint c - 0x30 = 1"
  shows "\<exists>s'. main_switch c s = Returns s' \<and> carried s' s \<and> page_num s' = page_num s + 1 \<and>
     curr_page s' = curr_page s + 1 \<and> serial_cnt (hw s') = serial_cnt (hw s)"
proof -
  let ?n = "uint (page_size_bytes (flash_info_glob s)) + uint (oob_size_bytes (flash_info_glob s))"
  from exchange_ok [OF assms(1), of "\<lparr>cmd = CMD_READ_PAGE, arg = 0\<rparr>"]
  obtain s2 where x: "exchange \<lparr>cmd = CMD_READ_PAGE, arg = 0\<rparr> s = Returns (result s2, s2)"
    and ok: "sys_ok s2" and fr: "pins_glob s2 = pins_glob s" "flash_info_glob s2 = flash_info_glob s"
      "curr_page s2 = curr_page s" "same_outside (hw s2) (hw s)" "page_num s2 = page_num s + 1"
      "sz (result s2) = ?n"
    by auto
  from assms(1) have n: "0 < ?n" "?n \<le> 16384" by (simp_all add: sys_ok_def)
  from ok have len: "length (shared_buffer s2) = 16384" by (simp add: sys_ok_def)
  let ?w = "(hw s2)\<lparr>out := out (hw s2) @
                  map (\<lambda>i. Printf ''%02X'' [PInt (uint (shared_buffer s2 ! i))])
                    [0..<nat (sz (result s2))]\<rparr>"
  have r: "main_read_page_result (result s2) s2 =
     Returns (s2\<lparr>hw := ?w, curr_page := curr_page s2 + 1\<rparr>)"
    by (rule main_read_page_result_ok) (use n fr len in simp_all)
  have i2: "same_inputs ?w (hw s2)" by simp
  have i: "same_inputs ?w (hw s)"
    by (rule same_inputs_trans [OF i2 same_outside_inputs [OF fr(4)]])
  have c: "serial_cnt ?w = serial_cnt (hw s)" using fr(4) by (simp add: same_outside_def)
  have "main_switch c s = Returns (s2\<lparr>hw := ?w, curr_page := curr_page s2 + 1\<rparr>)"
    using assms(2) x r by (simp add: main_switch_def)
  moreover have "carried (s2\<lparr>hw := ?w, curr_page := curr_page s2 + 1\<rparr>) s"
    using ok fr i sys_ok_hw [OF i2] by (simp add: carried_def)
  ultimately show ?thesis using fr c by simp
qed

lemma main_switch_reset:
  assumes "sys_ok s" "uint c - 0x30 = 2"
  shows "\<exists>s'. main_switch c s = Returns s' \<and> carried s' s \<and> page_num s' = 0 \<and>
     curr_page s' = curr_page s \<and> serial_cnt (hw s') = serial_cnt (hw s) \<and>
     out (hw s') = out (hw s)"
proof -
  from exchange_ok [OF assms(1), of "\<lparr>cmd = CMD_RESET_PAGE_NO, arg = 0\<rparr>"]
  obtain s2 where x: "exchange \<lparr>cmd = CMD_RESET_PAGE_NO, arg = 0\<rparr> s = Returns (result s2, s2)"
    and ok: "sys_ok s2" and fr: "pins_glob s2 = pins_glob s" "flash_info_glob s2 = flash_info_glob s"
      "curr_page s2 = curr_page s" "same_outside (hw s2) (hw s)" "page_num s2 = 0"
      "sz (result s2) = 1"
    by auto
  have "main_switch c s = Returns s2"
    using assms(2) x fr(6) by (simp add: main_switch_def main_reset_page_result_def)
  moreover have "carried s2 s"
    using ok fr same_outside_inputs [OF fr(4)] by (simp add: carried_def)
  ultimately show ?thesis using fr by (simp add: same_outside_def)
qed

section \<open>Lemmas on the page number argument\<close>

lemma page_no_of_sum:
  "page_no_of b1 b2 b3 = ucast b1 + push_bit 8 (ucast b2) + push_bit 16 (ucast b3 AND 1)"
proof -
  have m: "(0xff :: 32 word) = mask 8" by (simp add: mask_eq_exp_minus_1)
  have a: "(ucast b :: 32 word) AND 0xff = ucast b" for b :: "8 word"
    unfolding m by (rule bit_word_eqI) (auto simp: bit_simps dest: bit_imp_le_length)
  have d1: "(ucast b1 :: 32 word) AND push_bit 8 (ucast b2) = 0"
    by (rule bit_word_eqI) (auto simp: bit_simps dest: bit_imp_le_length)
  have d2: "((ucast b1 :: 32 word) OR push_bit 8 (ucast b2)) AND push_bit 16 (ucast b3 AND 1) = 0"
    by (rule bit_word_eqI) (auto simp: bit_simps dest: bit_imp_le_length)
  have "page_no_of b1 b2 b3 = (ucast b1 OR push_bit 8 (ucast b2)) OR push_bit 16 (ucast b3 AND 1)"
    by (simp only: page_no_of_def a or.assoc)
  also have "\<dots> = (ucast b1 OR push_bit 8 (ucast b2)) + push_bit 16 (ucast b3 AND 1)"
    by (rule disjunctive_add_eq_or [OF d2, symmetric])
  also have "ucast b1 OR push_bit 8 (ucast b2) = (ucast b1 :: 32 word) + push_bit 8 (ucast b2)"
    by (rule disjunctive_add_eq_or [OF d1, symmetric])
  finally show ?thesis .
qed

lemma unat_page_no_of:
  "unat (page_no_of b1 b2 b3) = unat b1 + 256 * unat b2 + 65536 * (unat b3 mod 2)"
proof -
  have m1: "(1 :: 32 word) = mask 1" by (simp add: mask_eq_exp_minus_1)
  have lt8: "unat b < 256" for b :: "8 word"
  proof -
    have "unat b < 2 ^ LENGTH(8)" by (rule unsigned_less)
    then show ?thesis by simp
  qed
  note lt = lt8 [of b1] lt8 [of b2] lt8 [of b3]
  have u1: "unat (ucast b :: 32 word) = unat b" for b :: "8 word"
    using lt8 [of b] by (simp add: unsigned_ucast_eq take_bit_nat_eq_self)
  have u2: "unat (push_bit 8 (ucast b2 :: 32 word)) = 256 * unat b2"
  proof -
    have "unat (push_bit 8 (ucast b2 :: 32 word)) =
        take_bit LENGTH(32) (push_bit 8 (unat (ucast b2 :: 32 word)))"
      by (rule unsigned_push_bit_eq)
    also have "\<dots> = take_bit 32 (256 * unat b2)"
      by (simp add: u1 push_bit_eq_mult mult.commute)
    also have "\<dots> = 256 * unat b2"
      using lt(2) by (simp add: take_bit_nat_eq_self)
    finally show ?thesis .
  qed
  have "unat ((ucast b3 :: 32 word) AND 1) = unat b3 mod 2"
    unfolding m1 take_bit_eq_mask [symmetric]
    by (simp add: unsigned_take_bit_eq u1 take_bit_eq_mod unat_mod)
  then have u3: "unat (push_bit 16 ((ucast b3 :: 32 word) AND 1)) = 65536 * (unat b3 mod 2)"
  proof -
    assume b: "unat ((ucast b3 :: 32 word) AND 1) = unat b3 mod 2"
    have "unat (push_bit 16 ((ucast b3 :: 32 word) AND 1)) =
        take_bit LENGTH(32) (push_bit 16 (unat ((ucast b3 :: 32 word) AND 1)))"
      by (rule unsigned_push_bit_eq)
    also have "\<dots> = take_bit 32 (65536 * (unat b3 mod 2))"
      by (simp add: b push_bit_eq_mult mult.commute)
    also have "\<dots> = 65536 * (unat b3 mod 2)"
      by (simp add: take_bit_nat_eq_self)
    finally show ?thesis .
  qed
  define A :: "32 word" where "A = ucast b1"
  define B :: "32 word" where "B = push_bit 8 (ucast b2)"
  define C :: "32 word" where "C = push_bit 16 (ucast b3 AND 1)"
  have uA: "unat A = unat b1" by (simp only: A_def u1)
  have uB: "unat B = 256 * unat b2" by (simp only: B_def u2)
  have uC: "unat C = 65536 * (unat b3 mod 2)" by (simp only: C_def u3)
  have "unat A + unat B < 2 ^ LENGTH(32)" using lt by (simp add: uA uB)
  then have s1: "unat (A + B) = unat A + unat B" by (rule unat_add_lem [THEN iffD1])
  have "unat (A + B) + unat C < 2 ^ LENGTH(32)" using lt by (simp add: s1 uA uB uC)
  then have s2: "unat (A + B + C) = unat (A + B) + unat C" by (rule unat_add_lem [THEN iffD1])
  have "page_no_of b1 b2 b3 = A + B + C" by (simp only: page_no_of_sum A_def B_def C_def)
  then show ?thesis by (simp only: s2 s1 uA uB uC)
qed

lemma page_no_of_examples:
  "page_no_of 0x34 0x12 0x00 = 0x1234" "page_no_of 0x34 0x12 0x01 = 0x11234"
  by (simp_all add: page_no_of_def)

section \<open>Lemmas on one pass of the command loop\<close>

lemma main_set_page_no_unfold:
  "main_set_page_no s =
     (case (serial_in (hw s) (serial_cnt (hw s)), serial_in (hw s) (Suc (serial_cnt (hw s))),
            serial_in (hw s) (Suc (Suc (serial_cnt (hw s))))) of
        (Some b1, Some b2, Some b3) \<Rightarrow>
          obind (exchange \<lparr>cmd = CMD_SET_PAGE_NO, arg = page_no_of b1 b2 b3\<rparr>
                   (s\<lparr>hw := (hw s)\<lparr>serial_cnt := serial_cnt (hw s) + 3\<rparr>\<rparr>))
            (\<lambda>(res, s). Returns (main_set_page_result res s))
      | _ \<Rightarrow> Returns (s\<lparr>hw := printf ''Timed out reading page number\<newline>'' []
                             ((hw s)\<lparr>serial_cnt := serial_cnt (hw s) + 3\<rparr>)\<rparr>))"
  by (simp add: main_set_page_no_def getchar_timeout_us_def Let_def numeral_3_eq_3
      split: option.splits)

lemma main_set_page_no_timeout:
  assumes "serial_in (hw s) (serial_cnt (hw s)) = None \<or>
           serial_in (hw s) (Suc (serial_cnt (hw s))) = None \<or>
           serial_in (hw s) (Suc (Suc (serial_cnt (hw s)))) = None"
  shows "main_set_page_no s =
     Returns (s\<lparr>hw := printf ''Timed out reading page number\<newline>'' []
                         ((hw s)\<lparr>serial_cnt := serial_cnt (hw s) + 3\<rparr>)\<rparr>)"
  using assms by (auto simp: main_set_page_no_unfold split: option.splits)

lemma main_set_page_no_ok:
  assumes "sys_ok s"
    "serial_in (hw s) (serial_cnt (hw s)) = Some b1"
    "serial_in (hw s) (Suc (serial_cnt (hw s))) = Some b2"
    "serial_in (hw s) (Suc (Suc (serial_cnt (hw s)))) = Some b3"
  shows "\<exists>s'. main_set_page_no s = Returns s' \<and> carried s' s \<and>
     page_num s' = page_no_of b1 b2 b3 \<and>
     cmd_arg1 s' = \<lparr>cmd = CMD_SET_PAGE_NO, arg = page_no_of b1 b2 b3\<rparr> \<and>
     curr_page s' = curr_page s \<and> serial_cnt (hw s') = serial_cnt (hw s) + 3 \<and>
     out (hw s') = out (hw s)"
proof -
  let ?w = "(hw s)\<lparr>serial_cnt := serial_cnt (hw s) + 3\<rparr>"
  let ?s3 = "s\<lparr>hw := ?w\<rparr>"
  let ?c = "\<lparr>cmd = CMD_SET_PAGE_NO, arg = page_no_of b1 b2 b3\<rparr>"
  have i3: "same_inputs ?w (hw s)" by simp
  have ok3: "sys_ok ?s3" using assms(1) sys_ok_hw [OF i3] by simp
  from exchange_ok [OF ok3, of ?c]
  obtain s2 where x: "exchange ?c ?s3 = Returns (result s2, s2)"
    and ok: "sys_ok s2" and fr: "pins_glob s2 = pins_glob s" "flash_info_glob s2 = flash_info_glob s"
      "curr_page s2 = curr_page s" "same_outside (hw s2) ?w" "page_num s2 = page_no_of b1 b2 b3"
      "sz (result s2) = 1" "cmd_arg1 s2 = ?c"
    by auto
  have "main_set_page_no s = Returns s2"
    using assms(2-4) x fr(6) by (simp add: main_set_page_no_unfold main_set_page_result_def)
  moreover have "carried s2 s"
    using ok fr same_inputs_trans [OF same_outside_inputs [OF fr(4)] i3] by (simp add: carried_def)
  ultimately show ?thesis using fr by (simp add: same_outside_def)
qed

lemma main_switch_set:
  "uint c - 0x30 = 3 \<Longrightarrow> main_switch c s = main_set_page_no s"
  by (simp add: main_switch_def)

lemma main_switch_local:
  assumes "uint c - 0x30 \<notin> {0, 1, 2, 3}"
  shows "main_switch c s =
     Returns (s\<lparr>hw :=
       (if uint c - 0x30 = 4 then
          printf ''Drive strength is %u\<newline>'' [PDrive (drive (hw s) 1)] (hw s)
        else if uint c - 0x30 = 5 then
          printf ''%d,%d,%lld\<newline>''
            [PInt (uint (page_size_bytes (flash_info_glob s))),
             PInt (uint (oob_size_bytes (flash_info_glob s))),
             PInt (uint (flash_size_bytes (flash_info_glob s)))] (hw s)
        else printf ''%s'' [PStr HELP_STR] (hw s))\<rparr>)"
  using assms by (simp add: main_switch_def gpio_get_drive_strength_def)

lemma digit_offset:
  fixes c :: "8 word"
  assumes "0x30 \<le> c" "c \<le> 0x39"
  shows "0 \<le> uint c - 0x30" "uint c - 0x30 \<le> 9"
  using assms by (simp_all add: word_le_def)

lemma lit_simps [simp]:
  "sys_ok (lit s) = sys_ok s"
  "page_num (lit s) = page_num s"
  "curr_page (lit s) = curr_page s"
  "pins_glob (lit s) = pins_glob s"
  "flash_info_glob (lit s) = flash_info_glob s"
  "cmd_queue (lit s) = cmd_queue s"
  "results_queue (lit s) = results_queue s"
  "shared_buffer (lit s) = shared_buffer s"
  "result (lit s) = result s"
  "cmd_arg1 (lit s) = cmd_arg1 s"
  "serial_cnt (hw (lit s)) = Suc (serial_cnt (hw s))"
  "serial_in (hw (lit s)) = serial_in (hw s)"
  "out (hw (lit s)) = out (hw s)"
  "drive (hw (lit s)) = drive (hw s)"
  "same_inputs (hw (lit s)) (hw s)"
  by (simp_all add: lit_def sys_ok_def responsive_def emit_def polled_def same_inputs_def)

lemma carried_lit: "carried s' (lit s) \<Longrightarrow> carried s' s"
  by (auto simp: carried_def intro: same_inputs_trans [OF _ lit_simps(15)])

lemma main_loop_iter_digit:
  assumes "serial_in (hw s) (serial_cnt (hw s)) = Some c" "0x30 \<le> c" "c \<le> 0x39"
  shows "main_loop_iter s = main_switch c (lit s)"
  using assms by (simp add: main_loop_iter_unfold lit_def)

lemma main_loop_iter_idle:
  assumes "case serial_in (hw s) (serial_cnt (hw s)) of None \<Rightarrow> True
           | Some c \<Rightarrow> \<not> (0x30 \<le> c \<and> c \<le> 0x39)"
  shows "main_loop_iter s = Returns (s\<lparr>hw := polled (hw s)\<rparr>)"
  using assms by (auto simp: main_loop_iter_unfold split: option.splits)

lemma main_loop_iter_read_page:
  assumes "sys_ok s" "serial_in (hw s) (serial_cnt (hw s)) = Some 0x31"
  shows "\<exists>s'. main_loop_iter s = Returns s' \<and> carried s' s \<and> page_num s' = page_num s + 1 \<and>
     curr_page s' = curr_page s + 1 \<and> serial_cnt (hw s') = Suc (serial_cnt (hw s))"
proof -
  have "main_loop_iter s = main_switch 0x31 (lit s)"
    by (rule main_loop_iter_digit [OF assms(2)]) simp_all
  moreover from main_switch_read_page [of "lit s" "0x31"] assms(1)
  obtain s' where "main_switch 0x31 (lit s) = Returns s'" "carried s' (lit s)"
    "page_num s' = page_num s + 1" "curr_page s' = curr_page s + 1"
    "serial_cnt (hw s') = Suc (serial_cnt (hw s))"
    by auto
  ultimately show ?thesis using carried_lit by auto
qed

lemma main_loop_iter_reset:
  assumes "sys_ok s" "serial_in (hw s) (serial_cnt (hw s)) = Some 0x32"
  shows "\<exists>s'. main_loop_iter s = Returns s' \<and> carried s' s \<and> page_num s' = 0 \<and>
     curr_page s' = curr_page s \<and> serial_cnt (hw s') = Suc (serial_cnt (hw s)) \<and>
     out (hw s') = out (hw s)"
proof -
  have "main_loop_iter s = main_switch 0x32 (lit s)"
    by (rule main_loop_iter_digit [OF assms(2)]) simp_all
  moreover from main_switch_reset [of "lit s" "0x32"] assms(1)
  obtain s' where "main_switch 0x32 (lit s) = Returns s'" "carried s' (lit s)"
    "page_num s' = 0" "curr_page s' = curr_page s"
    "serial_cnt (hw s') = Suc (serial_cnt (hw s))" "out (hw s') = out (hw s)"
    by auto
  ultimately show ?thesis using carried_lit by auto
qed

lemma main_loop_iter_read_id:
  assumes "sys_ok s" "serial_in (hw s) (serial_cnt (hw s)) = Some 0x30"
  shows "\<exists>s'. main_loop_iter s = Returns s' \<and> carried s' s \<and> page_num s' = page_num s \<and>
     curr_page s' = curr_page s \<and> serial_cnt (hw s') = Suc (serial_cnt (hw s))"
proof -
  have "main_loop_iter s = main_switch 0x30 (lit s)"
    by (rule main_loop_iter_digit [OF assms(2)]) simp_all
  moreover from main_switch_read_id [of "lit s" "0x30"] assms(1)
  obtain s' where "main_switch 0x30 (lit s) = Returns s'" "carried s' (lit s)"
    "page_num s' = page_num s" "curr_page s' = curr_page s"
    "serial_cnt (hw s') = Suc (serial_cnt (hw s))"
    by auto
  ultimately show ?thesis using carried_lit by auto
qed

lemma main_loop_iter_set_page:
  assumes "sys_ok s" "serial_in (hw s) (serial_cnt (hw s)) = Some 0x33"
    "serial_in (hw s) (serial_cnt (hw s) + 1) = Some b1"
    "serial_in (hw s) (serial_cnt (hw s) + 2) = Some b2"
    "serial_in (hw s) (serial_cnt (hw s) + 3) = Some b3"
  shows "\<exists>s'. main_loop_iter s = Returns s' \<and> carried s' s \<and>
     page_num s' = page_no_of b1 b2 b3 \<and>
     cmd_arg1 s' = \<lparr>cmd = CMD_SET_PAGE_NO, arg = page_no_of b1 b2 b3\<rparr> \<and>
     curr_page s' = curr_page s \<and> serial_cnt (hw s') = serial_cnt (hw s) + 4 \<and>
     out (hw s') = out (hw s)"
proof -
  have "main_loop_iter s = main_switch 0x33 (lit s)"
    by (rule main_loop_iter_digit [OF assms(2)]) simp_all
  then have m: "main_loop_iter s = main_set_page_no (lit s)"
    by (simp add: main_switch_set)
  have "\<exists>s'. main_set_page_no (lit s) = Returns s' \<and> carried s' (lit s) \<and>
     page_num s' = page_no_of b1 b2 b3 \<and>
     cmd_arg1 s' = \<lparr>cmd = CMD_SET_PAGE_NO, arg = page_no_of b1 b2 b3\<rparr> \<and>
     curr_page s' = curr_page (lit s) \<and> serial_cnt (hw s') = serial_cnt (hw (lit s)) + 3 \<and>
     out (hw s') = out (hw (lit s))"
    by (rule main_set_page_no_ok) (use assms in \<open>simp_all add: numeral_3_eq_3\<close>)
  with m carried_lit show ?thesis by auto
qed

lemma main_loop_iter_set_page_timeout:
  assumes "serial_in (hw s) (serial_cnt (hw s)) = Some 0x33"
    "serial_in (hw s) (serial_cnt (hw s) + 1) = None \<or>
     serial_in (hw s) (serial_cnt (hw s) + 2) = None \<or>
     serial_in (hw s) (serial_cnt (hw s) + 3) = None"
  shows "main_loop_iter s =
     Returns (s\<lparr>hw := printf ''Timed out reading page number\<newline>'' []
        ((emit (GpioPut LED_PIN True) (polled (hw s)))\<lparr>serial_cnt := serial_cnt (hw s) + 4\<rparr>)\<rparr>)"
proof -
  have "main_loop_iter s = main_switch 0x33 (lit s)"
    by (rule main_loop_iter_digit [OF assms(1)]) simp_all
  then have m: "main_loop_iter s = main_set_page_no (lit s)"
    by (simp add: main_switch_set)
  have "main_set_page_no (lit s) =
     Returns ((lit s)\<lparr>hw := printf ''Timed out reading page number\<newline>'' []
                         ((hw (lit s))\<lparr>serial_cnt := serial_cnt (hw (lit s)) + 3\<rparr>)\<rparr>)"
    by (rule main_set_page_no_timeout) (use assms(2) in \<open>simp add: numeral_3_eq_3\<close>)
  with m show ?thesis by (simp add: lit_def add.commute)
qed

section \<open>Lemmas on start-up\<close>

lemma fold_gpio_init:
  "fold (\<lambda>i. gpio_init (f i)) xs w = w\<lparr>trace := trace w @ map (\<lambda>i. GpioInit (f i)) xs\<rparr>"
  by (induction xs arbitrary: w) (simp_all add: gpio_init_def emit_def)

lemma fold_gpio_set_drive_strength:
  "fold (\<lambda>i. gpio_set_drive_strength (f i) st) xs w =
     w\<lparr>trace := trace w @ map (\<lambda>i. GpioSetDriveStrength (f i) st) xs,
       drive := fold (\<lambda>p d. d(p := st)) (map f xs) (drive w)\<rparr>"
  by (induction xs arbitrary: w) (simp_all add: gpio_set_drive_strength_def emit_def)

lemma set_drive_strengths_trace:
  "set_drive_strengths pins st w =
     w\<lparr>trace := trace w @ map (\<lambda>i. GpioSetDriveStrength (io_start pins + int i) st) [0..<8] @
        [GpioSetDriveStrength (ale pins) st, GpioSetDriveStrength (cle pins) st,
         GpioSetDriveStrength (ce pins) st, GpioSetDriveStrength (re pins) st,
         GpioSetDriveStrength (we pins) st, GpioSetDriveStrength (wp pins) st],
       drive := init_drive pins st (drive w)\<rparr>"
  by (simp add: set_drive_strengths_def fold_gpio_set_drive_strength gpio_set_drive_strength_def
      emit_def init_drive_def Let_def)

lemma init_gpios_trace:
  "init_gpios pins st w =
     w\<lparr>trace := trace w @ init_events pins st, drive := init_drive pins st (drive w)\<rparr>"
  by (simp add: init_gpios_def fold_gpio_init set_drive_strengths_trace init_events_def
      gpio_init_def gpio_set_pulls_def gpio_set_dir_def gpio_set_dir_out_masked_def gpio_put_def
      emit_def Let_def)

lemma main_boot_ready:
  assumes "ready_after w d"
  shows "main_boot w =
     (if \<not> check_supported_io_width (id_data_of_bytes (sampled w 5)) then
        Returns (Halted (printf ''Unsupported I/O width!\<newline>'' [] (booted_world w d)))
      else if \<not> fst (get_flash_info (id_data_of_bytes (sampled w 5))
                       \<lparr>page_size_bytes = 0, oob_size_bytes = 0, flash_size_bytes = 0\<rparr>) then
        Returns (Halted (printf ''Unrecognized NAND flash ID bytes!\<newline>'' [] (booted_world w d)))
      else
        Returns (Running
          \<lparr>cmd_queue = [], results_queue = [], pins_glob = set_gpios pins_zero,
           shared_buffer = replicate 16384 0,
           flash_info_glob = snd (get_flash_info (id_data_of_bytes (sampled w 5))
                       \<lparr>page_size_bytes = 0, oob_size_bytes = 0, flash_size_bytes = 0\<rparr>),
           hw = (booted_world w d)\<lparr>trace := trace (booted_world w d) @
                  [SleepMs 500, MulticoreLaunchCore1, StdioInitAll]\<rparr>,
           cmd_arg1 = \<lparr>cmd = CMD_READ_ID, arg = 5\<rparr>,
           result = \<lparr>sz = 0, alloc = 0\<rparr>, page_num = 0, curr_page = 0\<rparr>))"
proof -
  let ?P = "set_gpios pins_zero"
  let ?w0 = "w\<lparr>drive := init_drive ?P GPIO_DRIVE_STRENGTH_2MA (drive w)\<rparr>"
  let ?w1 = "reset_nand ?P (init_gpios ?P GPIO_DRIVE_STRENGTH_2MA w)"
  have w1: "?w1 = ?w0\<lparr>trace := trace ?w0 @ init_events ?P GPIO_DRIVE_STRENGTH_2MA @
                cmd_events ?P 0xFF @ [GpioPut (ce ?P) True, SleepUs 600]\<rparr>"
    by (simp add: reset_nand_trace init_gpios_trace)
  have r: "ready_after ?w1 d" using assms unfolding w1 by (simp add: ready_after_def)
  have l: "5 \<le> length (replicate 5 (0 :: 8 word))" by simp
  have id: "read_id ?P ?w1 (replicate 5 0) = Returns (booted_world w d, sampled w 5)"
    unfolding read_id_ready [OF r l]
    by (simp add: w1 booted_world_def boot_events_def id_events_def after_read_def
        read_events_def sampled_def)
  show ?thesis
    by (simp add: main_boot_def Let_def id sleep_ms_def emit_def split: prod.splits)
qed

lemma main_boot_never: "never_ready w \<Longrightarrow> main_boot w = Hangs"
proof -
  assume n: "never_ready w"
  let ?P = "set_gpios pins_zero"
  have "never_ready (reset_nand ?P (init_gpios ?P GPIO_DRIVE_STRENGTH_2MA w))"
    using n by (simp add: reset_nand_trace init_gpios_trace never_ready_def)
  then show ?thesis
    by (simp add: main_boot_def Let_def read_id_never)
qed

lemma main_boot_sys_ok:
  assumes "responsive w" "main_boot w = Returns (Running s)"
  shows "sys_ok s \<and> page_num s = 0 \<and> curr_page s = 0"
proof -
  from ready_or_never [of w] show ?thesis
  proof
    assume "never_ready w"
    from main_boot_never [OF this] assms(2) show ?thesis by simp
  next
    assume "\<exists>d. ready_after w d"
    then obtain d where "ready_after w d" ..
    from main_boot_ready [OF this] assms show ?thesis
      by (auto simp: sys_ok_def responsive_def booted_world_def get_flash_info_cases
          split: if_splits)
  qed
qed

section \<open>Lemmas on sequences of commands\<close>

lemma responsive_test_world: "responsive (test_world d xs)"
  unfolding responsive_def
proof
  fix k
  have "k \<le> k * Suc d + d" by simp
  moreover have "(k * Suc d + d) mod Suc d = d mod Suc d" by (rule mod_mult_self3)
  then have "(k * Suc d + d) mod Suc d = d" by (simp del: mult_Suc_right)
  ultimately show "\<exists>i\<ge>k. gpio_in (test_world d xs) i"
    unfolding test_world_def by (intro exI [of _ "k * Suc d + d"]) simp
qed

lemma sys_ok_test_sys: "responsive w \<Longrightarrow> sys_ok (test_sys w)"
  by (simp add: sys_ok_def test_sys_def)

lemma exchanges_read_page:
  assumes "sys_ok s" "cmd c = CMD_READ_PAGE"
  shows "\<exists>s'. exchanges (replicate N c) s = Returns s' \<and> sys_ok s' \<and>
     page_num s' = page_num s + of_nat N"
  using assms(1)
proof (induction N arbitrary: s)
  case 0
  then show ?case by simp
next
  case (Suc N)
  from exchange_ok [OF Suc.prems, of c] assms(2)
  obtain s1 where x: "exchange c s = Returns (result s1, s1)" and ok: "sys_ok s1"
    and p: "page_num s1 = page_num s + 1"
    by auto
  from Suc.IH [OF ok] obtain s' where
    "exchanges (replicate N c) s1 = Returns s'" "sys_ok s'" "page_num s' = page_num s1 + of_nat N"
    by blast
  with x p show ?case by simp
qed

lemma sint_small: "N < 2 ^ 31 \<Longrightarrow> sint (of_nat N :: 32 word) = int N"
proof -
  assume "N < 2 ^ 31"
  then have "int N < 2 ^ 31" by (metis of_nat_less_iff of_nat_numeral of_nat_power)
  then show ?thesis
    by (simp add: signed_of_nat signed_take_bit_int_eq_self)
qed


lemma exchange_Returns_page_num:
  assumes "exchange c s = Returns (r, s')" "cmd_queue s = []"
  shows "page_num s' =
       (case cmd c of CMD_READ_PAGE \<Rightarrow> page_num s + 1 | CMD_RESET_PAGE_NO \<Rightarrow> 0
        | CMD_SET_PAGE_NO \<Rightarrow> arg c | _ \<Rightarrow> page_num s)"
proof -
  from assms obtain s1 where
    i: "core1_main_iter (s\<lparr>cmd_queue := [c]\<rparr>) = Returns s1" and
    e: "\<exists>q'. s' = s1\<lparr>results_queue := q'\<rparr>"
    by (auto simp: exchange_def obind_Returns_iff queue_add_blocking_empty split: prod.splits)
  from core1_main_iter_Returns [OF i] obtain s2 where
    x: "core1_execute c (s\<lparr>cmd_queue := [], cmd_arg1 := c\<rparr>) = Returns s2" and
    s1: "\<exists>q''. s1 = s2\<lparr>results_queue := q''\<rparr>"
    by auto
  from core1_execute_frame [OF x] e s1 show ?thesis by (auto cong: cmd_enum_t.case_cong)
qed

section \<open>Lemmas on the whole system\<close>

lemma carried_hw:
  assumes "sys_ok s" "same_inputs w (hw s)"
  shows "carried (s\<lparr>hw := w\<rparr>) s"
  using assms sys_ok_hw [OF assms(2)] by (simp add: carried_def)

lemma uint_digit:
  fixes ch :: "8 word"
  shows "uint ch - 0x30 = 0 \<longleftrightarrow> ch = 0x30" "uint ch - 0x30 = 1 \<longleftrightarrow> ch = 0x31"
    "uint ch - 0x30 = 2 \<longleftrightarrow> ch = 0x32" "uint ch - 0x30 = 3 \<longleftrightarrow> ch = 0x33"
  by (auto simp: word_uint_eq_iff)

lemma main_switch_local_frame:
  assumes "uint c - 0x30 \<notin> {0, 1, 2, 3}"
  shows "\<exists>w'. main_switch c s = Returns (s\<lparr>hw := w'\<rparr>) \<and> same_inputs w' (hw s) \<and>
     serial_cnt w' = serial_cnt (hw s)"
proof -
  let ?w = "if uint c - 0x30 = 4 then
          printf ''Drive strength is %u\<newline>'' [PDrive (drive (hw s) 1)] (hw s)
        else if uint c - 0x30 = 5 then
          printf ''%d,%d,%lld\<newline>''
            [PInt (uint (page_size_bytes (flash_info_glob s))),
             PInt (uint (oob_size_bytes (flash_info_glob s))),
             PInt (uint (flash_size_bytes (flash_info_glob s)))] (hw s)
        else printf ''%s'' [PStr HELP_STR] (hw s)"
  have "main_switch c s = Returns (s\<lparr>hw := ?w\<rparr>)" by (rule main_switch_local [OF assms])
  moreover have "same_inputs ?w (hw s)" by simp
  moreover have "serial_cnt ?w = serial_cnt (hw s)" by simp
  ultimately show ?thesis by blast
qed

lemma main_loop_iter_counters:
  assumes "sys_ok s"
  shows "\<exists>s'. main_loop_iter s = Returns s' \<and> carried s' s \<and>
     page_num s' =
       (case serial_in (hw s) (serial_cnt (hw s)) of
          None \<Rightarrow> page_num s
        | Some ch \<Rightarrow>
            if ch = 0x31 then page_num s + 1
            else if ch = 0x32 then 0
            else if ch = 0x33 then
              (case (serial_in (hw s) (serial_cnt (hw s) + 1),
                     serial_in (hw s) (serial_cnt (hw s) + 2),
                     serial_in (hw s) (serial_cnt (hw s) + 3)) of
                 (Some b1, Some b2, Some b3) \<Rightarrow> page_no_of b1 b2 b3
               | _ \<Rightarrow> page_num s)
            else page_num s) \<and>
     curr_page s' =
       (case serial_in (hw s) (serial_cnt (hw s)) of
          None \<Rightarrow> curr_page s
        | Some ch \<Rightarrow> if ch = 0x31 then curr_page s + 1 else curr_page s)"
proof (cases "serial_in (hw s) (serial_cnt (hw s))")
  case None
  then have "main_loop_iter s = Returns (s\<lparr>hw := polled (hw s)\<rparr>)"
    by (intro main_loop_iter_idle) simp
  moreover have "carried (s\<lparr>hw := polled (hw s)\<rparr>) s"
    by (rule carried_hw [OF assms]) simp
  ultimately show ?thesis using None by simp
next
  case (Some ch)
  show ?thesis
  proof (cases "0x30 \<le> ch \<and> ch \<le> 0x39")
    case False
    then have "main_loop_iter s = Returns (s\<lparr>hw := polled (hw s)\<rparr>)"
      using Some by (intro main_loop_iter_idle) simp
    moreover have "carried (s\<lparr>hw := polled (hw s)\<rparr>) s"
      by (rule carried_hw [OF assms]) simp
    moreover from False have "ch \<noteq> 0x31" "ch \<noteq> 0x32" "ch \<noteq> 0x33" by auto
    ultimately show ?thesis using Some by simp
  next
    case True
    then have sw: "main_loop_iter s = main_switch ch (lit s)"
      using Some by (intro main_loop_iter_digit) simp_all
    consider "ch = 0x30" | "ch = 0x31" | "ch = 0x32" | "ch = 0x33"
      | "uint ch - 0x30 \<notin> {0, 1, 2, 3}"
      using uint_digit [of ch] by auto
    then show ?thesis
    proof cases
      case 1
      with main_loop_iter_read_id [OF assms] Some show ?thesis by auto
    next
      case 2
      with main_loop_iter_read_page [OF assms] Some show ?thesis by auto
    next
      case 3
      with main_loop_iter_reset [OF assms] Some show ?thesis by auto
    next
      case 4
      show ?thesis
      proof (cases "\<exists>b1 b2 b3. serial_in (hw s) (serial_cnt (hw s) + 1) = Some b1 \<and>
          serial_in (hw s) (serial_cnt (hw s) + 2) = Some b2 \<and>
          serial_in (hw s) (serial_cnt (hw s) + 3) = Some b3")
        case True
        then obtain b1 b2 b3 where b:
          "serial_in (hw s) (serial_cnt (hw s) + 1) = Some b1"
          "serial_in (hw s) (serial_cnt (hw s) + 2) = Some b2"
          "serial_in (hw s) (serial_cnt (hw s) + 3) = Some b3" by blast
        from Some 4 have i: "serial_in (hw s) (serial_cnt (hw s)) = Some 0x33" by simp
        from main_loop_iter_set_page [OF assms i b] Some 4 b show ?thesis by auto
      next
        case False
        then have n: "serial_in (hw s) (serial_cnt (hw s) + 1) = None \<or>
          serial_in (hw s) (serial_cnt (hw s) + 2) = None \<or>
          serial_in (hw s) (serial_cnt (hw s) + 3) = None" by auto
        from Some 4 have i: "serial_in (hw s) (serial_cnt (hw s)) = Some 0x33" by simp
        let ?w = "printf ''Timed out reading page number\<newline>'' []
          ((emit (GpioPut LED_PIN True) (polled (hw s)))\<lparr>serial_cnt := serial_cnt (hw s) + 4\<rparr>)"
        have i1: "same_inputs ((emit (GpioPut LED_PIN True) (polled (hw s)))
                     \<lparr>serial_cnt := serial_cnt (hw s) + 4\<rparr>) (hw s)"
          by (simp add: same_inputs_def emit_def polled_def)
        have "same_inputs ?w (hw s)"
          by (rule same_inputs_trans [OF same_inputs_simps(3) i1])
        then have "carried (s\<lparr>hw := ?w\<rparr>) s" by (rule carried_hw [OF assms])
        with main_loop_iter_set_page_timeout [OF i n] Some 4 n show ?thesis
          by (auto split: option.splits)
      qed
    next
      case 5
      from 5 have ne: "ch \<noteq> 0x31" "ch \<noteq> 0x32" "ch \<noteq> 0x33" using uint_digit [of ch] by auto
      from main_switch_local_frame [OF 5, of "lit s"] obtain w' where
        m: "main_switch ch (lit s) = Returns ((lit s)\<lparr>hw := w'\<rparr>)" and
        i: "same_inputs w' (hw (lit s))" by blast
      from i have "same_inputs w' (hw s)" by (rule same_inputs_trans) simp
      then have "carried (s\<lparr>hw := w'\<rparr>) s" by (rule carried_hw [OF assms])
      moreover from m sw have "main_loop_iter s = Returns (s\<lparr>hw := w'\<rparr>)"
        by (simp add: lit_def)
      ultimately show ?thesis using Some ne by simp
    qed
  qed
qed

lemma high_digit:
  fixes c :: "8 word"
  assumes "0x36 \<le> c" "c \<le> 0x39"
  shows "0x30 \<le> c" "uint c - 0x30 \<notin> {0, 1, 2, 3}" "uint c - 0x30 \<noteq> 4" "uint c - 0x30 \<noteq> 5"
  using assms by (auto simp: word_le_def)

lemma test_sys_fields [simp]:
  "page_num (test_sys w) = 0" "curr_page (test_sys w) = 0" "hw (test_sys w) = w"
  "cmd_queue (test_sys w) = []" "results_queue (test_sys w) = []"
  "result (test_sys w) = \<lparr>sz = 0, alloc = 0\<rparr>"
  by (simp_all add: test_sys_def)

lemma test_world_serial [simp]:
  "serial_in (test_world d xs) k = (if k < length xs then xs ! k else None)"
  "serial_cnt (test_world d xs) = 0"
  by (simp_all add: test_world_def)

lemma never_ready_stuck_world: "never_ready stuck_world"
  by (simp add: never_ready_def stuck_world_def)

lemma core1_main_iter_never:
  assumes "never_ready (hw s)" "cmd_queue s = c # q" "cmd c = CMD_READ_ID \<or> cmd c = CMD_READ_PAGE"
  shows "core1_main_iter s = Hangs"
  using assms
  by (auto simp: core1_main_iter_def queue_remove_blocking_def core1_execute_def Let_def
      read_page_never read_id_never)

lemma core1_main_iter_step:
  assumes "cmd_queue s = c # q" "length (results_queue s) < queue_capacity"
    "core1_execute c (s\<lparr>cmd_queue := q, cmd_arg1 := c\<rparr>) = Returns s2"
  shows "core1_main_iter s = Returns (s2\<lparr>results_queue := results_queue s @ [result s2]\<rparr>)"
proof -
  from core1_execute_frame [OF assms(3)] have "results_queue s2 = results_queue s" by simp
  with assms show ?thesis
    by (simp add: core1_main_iter_def queue_remove_blocking_def queue_add_blocking_def)
qed

lemma sampled_test_world: "sampled (test_world d xs) 5 = [0x98, 0xDC, 0x90, 0x26, 0x76]"
  by (simp add: sampled_def test_world_def upt_rec)

lemma ready_after_test_world: "ready_after (test_world d xs) d"
  by (simp add: ready_after_def test_world_def)

lemma main_boot_test_world:
  "main_boot (test_world d xs) = Returns (Running (test_sys (launched (test_world d xs) d)))"
  by (simp add: main_boot_ready [OF ready_after_test_world] sampled_test_world id_data_of_bytes_def
      check_supported_io_width_def get_flash_info_cases test_sys_def launched_def)

lemma launched_fields [simp]:
  "serial_in (launched w d) = serial_in w" "serial_cnt (launched w d) = serial_cnt w"
  "gpio_in (launched w d) = gpio_in w" "out (launched w d) = out w"
  by (simp_all add: launched_def booted_world_def)

lemma responsive_launched: "responsive w \<Longrightarrow> responsive (launched w d)"
  by (simp add: responsive_def)

lemma io_width_bit: "check_supported_io_width idb \<longleftrightarrow> \<not> bit (pgsz_bksz_iow idb) 6"
proof -
  have e: "(0x40 :: 8 word) = 2 ^ 6" by simp
  have "drop_bit 6 (pgsz_bksz_iow idb AND 0x40) = (of_bool (bit (pgsz_bksz_iow idb) 6) :: 8 word)"
    unfolding e by (rule bit_word_eqI) (auto simp: bit_simps)
  then show ?thesis
    by (cases "bit (pgsz_bksz_iow idb) 6") (simp_all add: check_supported_io_width_def)
qed

lemma fold_id_events:
  assumes "l_we l" "l_re l"
  shows "fold (bus_step (set_gpios pins_zero))
      (cmd_events (set_gpios pins_zero) 0xFF @
       [GpioPut (ce (set_gpios pins_zero)) True, SleepUs 600] @ id_events (set_gpios pins_zero) @
       rest)
      (l, cs) =
     fold (bus_step (set_gpios pins_zero)) rest
       (l\<lparr>l_cle := False, l_ale := False, l_ce := False, l_re := True, l_we := True,
           l_io := drive_io 0xFF 0x00 (l_io l)\<rparr>,
        cs @ [Command 0xFF, Standby, Delay 600, Command 0x90, Address 0x00])"
proof -
  have eq: "l\<lparr>l_ce := False, l_re := True, l_cle := False, l_io := drive_io 255 0 (l_io l),
             l_we := True, l_ale := False\<rparr> =
      l\<lparr>l_cle := False, l_ale := False, l_ce := False, l_re := True, l_we := True,
           l_io := drive_io 0xFF 0x00 (l_io l)\<rparr>"
    by simp
  show ?thesis
    using assms
    by (simp add: id_events_def cmd_events_def addr1_events_def pins_vals io_byte io_again
        byte_round eq)
qed

lemma nand_sees_read_id:
  assumes "l_we l" "l_re l"
  shows "nand_sees (set_gpios pins_zero) l
     (cmd_events (set_gpios pins_zero) 0xFF @
      [GpioPut (ce (set_gpios pins_zero)) True, SleepUs 600] @ id_events (set_gpios pins_zero) @
      read_setup_events (set_gpios pins_zero) @
      poll_events (ry (set_gpios pins_zero)) 40 d @ [BusyWaitCycles 10] @
      read_events (set_gpios pins_zero) 2 w n) =
     [Command 0xFF, Standby, Delay 600, Command 0x90, Address 0x00] @ replicate n DataOut"
  unfolding nand_sees_def fold_id_events [OF assms]
  by (simp add: read_setup_events_def pins_vals fold_poll_events fold_read_events)

lemma no_launch_in_boot:
  "MulticoreLaunchCore1 \<notin> set (boot_events pins @ read_setup_events pins @
      poll_events (ry pins) 40 d @ [BusyWaitCycles 10] @ read_events pins 2 w n)"
  by (auto simp: boot_events_def init_events_def cmd_events_def id_events_def addr1_events_def
      read_setup_events_def poll_events_def read_events_def)

lemma sampled_wide_world: "sampled wide_world 5 = [0x98, 0xDC, 0x90, 0x66, 0x76]"
  by (simp add: sampled_def wide_world_def test_world_def upt_rec)

lemma sampled_foreign_world: "sampled foreign_world 5 = [0x2C, 0xDC, 0x90, 0x26, 0x76]"
  by (simp add: sampled_def foreign_world_def test_world_def upt_rec)

lemma ready_after_other_worlds: "ready_after wide_world 0" "ready_after foreign_world 0"
  by (simp_all add: ready_after_def wide_world_def foreign_world_def test_world_def)

section \<open>Lemmas on the printed explanation and on the running system\<close>








lemma main_boot_started:
  assumes "main_boot w = Returns (Running s)"
  shows "started s \<and> sz (result s) = 0"
proof -
  from ready_or_never [of w] show ?thesis
  proof
    assume "never_ready w"
    from main_boot_never [OF this] assms show ?thesis by simp
  next
    assume "\<exists>d. ready_after w d"
    then obtain d where "ready_after w d" ..
    from main_boot_ready [OF this] assms show ?thesis
      by (auto simp: started_def get_flash_info_cases split: if_splits)
  qed
qed

lemma started_hw [simp]:
  "started (s\<lparr>hw := w\<rparr>) = started s" "started (s\<lparr>cmd_queue := q\<rparr>) = started s"
  "started (s\<lparr>cmd_arg1 := c\<rparr>) = started s" "started (s\<lparr>curr_page := n\<rparr>) = started s"
  by (simp_all add: started_def)

lemma exchange_Returns_started:
  assumes "exchange c s = Returns (r, s')" "started s"
  shows "started s'"
proof -
  from assms(1) obtain q s1 q' where
    i: "core1_main_iter (s\<lparr>cmd_queue := q\<rparr>) = Returns s1" and
    r: "queue_remove_blocking (results_queue s1) = Returns (r, q')" and
    e: "s' = s1\<lparr>results_queue := q'\<rparr>"
    by (auto simp: exchange_def obind_Returns_iff split: prod.splits)
  from core1_main_iter_Returns [OF i] obtain c' q'' s2 where
    x: "core1_execute c' (s\<lparr>cmd_queue := q'', cmd_arg1 := c'\<rparr>) = Returns s2" and
    s1: "s1 = s2\<lparr>results_queue := results_queue s @ [result s2]\<rparr>"
    by auto
  from r s1 assms(2) have "q' = []"
    by (simp add: queue_remove_blocking_Returns started_def)
  with core1_execute_frame [OF x] e s1 assms(2) show ?thesis
    by (auto simp: started_def split: cmd_enum_t.splits)
qed

lemma main_read_id_result_started:
  "main_read_id_result res s = Returns s' \<Longrightarrow> started s' = started s"
  by (auto simp: main_read_id_result_def obind_Returns_iff Let_def split: if_splits)

lemma main_read_page_result_started:
  "main_read_page_result res s = Returns s' \<Longrightarrow> started s' = started s"
  by (auto simp: main_read_page_result_def obind_Returns_iff split: if_splits)

lemma main_switch_started:
  assumes "main_switch c s = Returns s'" "started s"
  shows "started s'"
proof -
  consider "uint c - 0x30 = 0" | "uint c - 0x30 = 1" | "uint c - 0x30 = 2" | "uint c - 0x30 = 3"
    | "uint c - 0x30 \<notin> {0, 1, 2, 3}" by auto
  then show ?thesis
  proof cases
    case 1
    with assms(1) obtain r s1 where "exchange \<lparr>cmd = CMD_READ_ID, arg = 0\<rparr> s = Returns (r, s1)"
      "main_read_id_result r s1 = Returns s'"
      by (auto simp: main_switch_def obind_Returns_iff)
    with exchange_Returns_started [OF _ assms(2)] main_read_id_result_started show ?thesis by blast
  next
    case 2
    with assms(1) obtain r s1 where "exchange \<lparr>cmd = CMD_READ_PAGE, arg = 0\<rparr> s = Returns (r, s1)"
      "main_read_page_result r s1 = Returns s'"
      by (auto simp: main_switch_def obind_Returns_iff)
    with exchange_Returns_started [OF _ assms(2)] main_read_page_result_started show ?thesis by blast
  next
    case 3
    with assms(1) obtain r s1 where "exchange \<lparr>cmd = CMD_RESET_PAGE_NO, arg = 0\<rparr> s = Returns (r, s1)"
      "s' = main_reset_page_result r s1"
      by (auto simp: main_switch_def obind_Returns_iff)
    with exchange_Returns_started [OF _ assms(2)] show ?thesis
      by (auto simp: main_reset_page_result_def)
  next
    case 4
    with assms(1) have m: "main_set_page_no s = Returns s'" by (simp add: main_switch_set)
    show ?thesis
    proof (cases "\<exists>b1 b2 b3. serial_in (hw s) (serial_cnt (hw s)) = Some b1 \<and>
        serial_in (hw s) (Suc (serial_cnt (hw s))) = Some b2 \<and>
        serial_in (hw s) (Suc (Suc (serial_cnt (hw s)))) = Some b3")
      case True
      then obtain b1 b2 b3 where b: "serial_in (hw s) (serial_cnt (hw s)) = Some b1"
        "serial_in (hw s) (Suc (serial_cnt (hw s))) = Some b2"
        "serial_in (hw s) (Suc (Suc (serial_cnt (hw s)))) = Some b3" by blast
      with m obtain r s1 where
        x: "exchange \<lparr>cmd = CMD_SET_PAGE_NO, arg = page_no_of b1 b2 b3\<rparr>
              (s\<lparr>hw := (hw s)\<lparr>serial_cnt := serial_cnt (hw s) + 3\<rparr>\<rparr>) = Returns (r, s1)" and
        s': "s' = main_set_page_result r s1"
        by (auto simp: main_set_page_no_unfold obind_Returns_iff)
      from exchange_Returns_started [OF x] assms(2) s' show ?thesis
        by (auto simp: main_set_page_result_def)
    next
      case False
      then have "serial_in (hw s) (serial_cnt (hw s)) = None \<or>
           serial_in (hw s) (Suc (serial_cnt (hw s))) = None \<or>
           serial_in (hw s) (Suc (Suc (serial_cnt (hw s)))) = None" by auto
      from main_set_page_no_timeout [OF this] m assms(2) show ?thesis by auto
    qed
  next
    case 5
    from main_switch_local_frame [OF 5, of s] assms show ?thesis by auto
  qed
qed

lemma main_loop_iter_started:
  assumes "main_loop_iter s = Returns s'" "started s"
  shows "started s'"
proof (cases "serial_in (hw s) (serial_cnt (hw s))")
  case None
  with assms show ?thesis by (auto simp: main_loop_iter_unfold)
next
  case (Some c)
  show ?thesis
  proof (cases "0x30 \<le> c \<and> c \<le> 0x39")
    case True
    with Some assms(1) have "main_switch c (s\<lparr>hw := emit (GpioPut LED_PIN True) (polled (hw s))\<rparr>) = Returns s'"
      by (simp add: main_loop_iter_unfold)
    from main_switch_started [OF this] assms(2) show ?thesis by simp
  next
    case False
    with Some assms show ?thesis by (auto simp: main_loop_iter_unfold)
  qed
qed

lemma core1_execute_eventually:
  assumes "started s" "\<not> never_ready (hw s)"
  shows "\<exists>s'. core1_execute c s = Returns s'"
proof -
  from ready_or_never [of "hw s"] assms(2) obtain d where d: "ready_after (hw s) d" by blast
  show ?thesis
  proof (cases "cmd c")
    case CMD_READ_ID
    from assms(1) have "5 \<le> length (shared_buffer s)" by (simp add: started_def)
    from core1_execute_read_id [OF CMD_READ_ID d this] show ?thesis by blast
  next
    case CMD_READ_PAGE
    let ?n = "uint (page_size_bytes (flash_info_glob s)) + uint (oob_size_bytes (flash_info_glob s))"
    have "0 \<le> ?n" by simp
    moreover from assms(1) have "?n \<le> 16384" by (auto simp: started_def)
    ultimately show ?thesis using core1_execute_read_page [OF CMD_READ_PAGE d _ _ refl] by blast
  qed (simp_all add: core1_execute_def)
qed


section \<open>The claims\<close>

text \<open>
  C1. \<^verbatim>\<open>get_flash_info\<close> is a function of the identification bytes alone. For maker
  code 0x98 it returns page 2048 and spare 128 when the two low bits of the fourth byte
  decode (as \<open>2 ^ field\<close> KB) to 2 KB, and page 4096 and spare 256 when they decode to 4 KB,
  with the total size \<open>64 * 2048 * (page + spare)\<close>, which does not wrap. For any other maker
  or field it returns false and leaves the record it was given untouched.
\<close>

theorem get_flash_info_geometry:
  "(maker idb = 0x98 \<and> (2::nat) ^ unat (pgsz_bksz_iow idb AND 0x03) = 2 \<longrightarrow>
      get_flash_info idb fi =
        (True, \<lparr>page_size_bytes = 2048, oob_size_bytes = 128,
                flash_size_bytes = 64 * 2048 * (2048 + 128)\<rparr>)) \<and>
   (maker idb = 0x98 \<and> (2::nat) ^ unat (pgsz_bksz_iow idb AND 0x03) = 4 \<longrightarrow>
      get_flash_info idb fi =
        (True, \<lparr>page_size_bytes = 4096, oob_size_bytes = 256,
                flash_size_bytes = 64 * 2048 * (4096 + 256)\<rparr>)) \<and>
   (maker idb \<noteq> 0x98 \<or>
    ((2::nat) ^ unat (pgsz_bksz_iow idb AND 0x03) \<noteq> 2 \<and>
     (2::nat) ^ unat (pgsz_bksz_iow idb AND 0x03) \<noteq> 4) \<longrightarrow>
      get_flash_info idb fi = (False, fi)) \<and>
   (fst (get_flash_info idb fi) \<longrightarrow>
      uint (flash_size_bytes (snd (get_flash_info idb fi))) =
        64 * 2048 * (uint (page_size_bytes (snd (get_flash_info idb fi))) +
                     uint (oob_size_bytes (snd (get_flash_info idb fi)))))"
  using and3_cases [of "pgsz_bksz_iow idb"]
  by (auto simp: get_flash_info_cases)

theorem get_flash_info_geometry_witness:
  "get_flash_info
     \<lparr>maker = 0x98, device = 0xDC, chip_n_type = 0x90, pgsz_bksz_iow = 0x26, districts = 0x76\<rparr>
     \<lparr>page_size_bytes = 0, oob_size_bytes = 0, flash_size_bytes = 0\<rparr> =
     (True, \<lparr>page_size_bytes = 4096, oob_size_bytes = 256, flash_size_bytes = 570425344\<rparr>) \<and>
   get_flash_info
     \<lparr>maker = 0x98, device = 0xDC, chip_n_type = 0x90, pgsz_bksz_iow = 0x25, districts = 0x76\<rparr>
     \<lparr>page_size_bytes = 0, oob_size_bytes = 0, flash_size_bytes = 0\<rparr> =
     (True, \<lparr>page_size_bytes = 2048, oob_size_bytes = 128, flash_size_bytes = 285212672\<rparr>) \<and>
   get_flash_info
     \<lparr>maker = 0x2C, device = 0xDC, chip_n_type = 0x90, pgsz_bksz_iow = 0x26, districts = 0x76\<rparr>
     \<lparr>page_size_bytes = 7, oob_size_bytes = 8, flash_size_bytes = 9\<rparr> =
     (False, \<lparr>page_size_bytes = 7, oob_size_bytes = 8, flash_size_bytes = 9\<rparr>) \<and>
   get_flash_info
     \<lparr>maker = 0x98, device = 0xDC, chip_n_type = 0x90, pgsz_bksz_iow = 0x27, districts = 0x76\<rparr>
     \<lparr>page_size_bytes = 7, oob_size_bytes = 8, flash_size_bytes = 9\<rparr> =
     (False, \<lparr>page_size_bytes = 7, oob_size_bytes = 8, flash_size_bytes = 9\<rparr>)"
  using
    get_flash_info_geometry [of
      "\<lparr>maker = 0x98, device = 0xDC, chip_n_type = 0x90, pgsz_bksz_iow = 0x26, districts = 0x76\<rparr>"
      "\<lparr>page_size_bytes = 0, oob_size_bytes = 0, flash_size_bytes = 0\<rparr>"]
    get_flash_info_geometry [of
      "\<lparr>maker = 0x98, device = 0xDC, chip_n_type = 0x90, pgsz_bksz_iow = 0x25, districts = 0x76\<rparr>"
      "\<lparr>page_size_bytes = 0, oob_size_bytes = 0, flash_size_bytes = 0\<rparr>"]
    get_flash_info_geometry [of
      "\<lparr>maker = 0x2C, device = 0xDC, chip_n_type = 0x90, pgsz_bksz_iow = 0x26, districts = 0x76\<rparr>"
      "\<lparr>page_size_bytes = 7, oob_size_bytes = 8, flash_size_bytes = 9\<rparr>"]
    get_flash_info_geometry [of
      "\<lparr>maker = 0x98, device = 0xDC, chip_n_type = 0x90, pgsz_bksz_iow = 0x27, districts = 0x76\<rparr>"
      "\<lparr>page_size_bytes = 7, oob_size_bytes = 8, flash_size_bytes = 9\<rparr>"]
  by simp

text \<open>
  C7. \<^verbatim>\<open>read_bytes\<close> polls the ready/busy line without any bound: when the line is
  first high at the \<open>d\<close>-th sample it polls \<open>d + 1\<close> times, for every \<open>d\<close>, and then
  returns with exactly \<open>n\<close> sampled bytes stored at the front of the destination. It returns
  only if the line reads high at some time; when the line never does, it never returns, and
  a pass of the worker loop that has taken a \<^verbatim>\<open>CMD_READ_ID\<close> or a \<^verbatim>\<open>CMD_READ_PAGE\<close> from
  the queue never ends.
\<close>

theorem read_bytes_hangs_or_returns:
  "(never_ready w \<longrightarrow> read_bytes pins w dst n = Hangs) \<and>
   (read_bytes pins w dst n \<noteq> Hangs \<longrightarrow> (\<exists>i\<ge>gpio_cnt w. gpio_in w i)) \<and>
   (ready_after w d \<and> n \<le> length dst \<longrightarrow>
      (\<exists>w'. read_bytes pins w dst n = Returns (w', sampled w n @ drop n dst) \<and>
            gpio_cnt w' = gpio_cnt w + d + 1 \<and> all_cnt w' = all_cnt w + n \<and>
            length (sampled w n) = n)) \<and>
   (never_ready (hw s) \<and> cmd_queue s = c # q \<and> (cmd c = CMD_READ_ID \<or> cmd c = CMD_READ_PAGE) \<longrightarrow>
      core1_main_iter s = Hangs)"
proof (intro conjI impI)
  assume "never_ready (hw s) \<and> cmd_queue s = c # q \<and> (cmd c = CMD_READ_ID \<or> cmd c = CMD_READ_PAGE)"
  then have "never_ready (hw s)" "cmd_queue s = c # q"
    "cmd c = CMD_READ_ID \<or> cmd c = CMD_READ_PAGE" by simp_all
  then show "core1_main_iter s = Hangs" by (rule core1_main_iter_never)
next
  assume "never_ready w"
  then show "read_bytes pins w dst n = Hangs" by (rule read_bytes_never)
next
  assume "read_bytes pins w dst n \<noteq> Hangs"
  then have "\<not> never_ready w" using read_bytes_never by blast
  then show "\<exists>i\<ge>gpio_cnt w. gpio_in w i" by (simp add: never_ready_def)
next
  assume "ready_after w d \<and> n \<le> length dst"
  then have "ready_after w d" and "n \<le> length dst" by simp_all
  from read_bytes_ready [OF this, of pins]
  show "\<exists>w'. read_bytes pins w dst n = Returns (w', sampled w n @ drop n dst) \<and>
            gpio_cnt w' = gpio_cnt w + d + 1 \<and> all_cnt w' = all_cnt w + n \<and>
            length (sampled w n) = n"
    by (simp add: length_sampled)
qed

theorem read_bytes_hangs_or_returns_witness:
  "never_ready stuck_world \<and>
   read_bytes (set_gpios pins_zero) stuck_world [7, 7, 7] 2 = Hangs \<and>
   ready_after (test_world 3 []) 3 \<and> (2::nat) \<le> length [7, 7, 7 :: 8 word] \<and>
   (\<exists>w'. read_bytes (set_gpios pins_zero) (test_world 3 []) [7, 7, 7] 2 = Returns (w', [0x98, 0xDC, 7]) \<and>
      gpio_cnt w' = 4 \<and> all_cnt w' = 2) \<and>
   core1_main_iter ((test_sys stuck_world)\<lparr>cmd_queue := [\<lparr>cmd = CMD_READ_ID, arg = 0\<rparr>]\<rparr>) = Hangs"
proof -
  let ?s = "(test_sys stuck_world)\<lparr>cmd_queue := [\<lparr>cmd = CMD_READ_ID, arg = 0\<rparr>]\<rparr>"
  have e: "never_ready (hw ?s)"
    by (simp add: never_ready_def stuck_world_def test_sys_def)
  have f: "core1_main_iter ?s = Hangs"
    using e read_bytes_hangs_or_returns [of stuck_world "set_gpios pins_zero" "[7, 7, 7]" 2 0
        ?s "\<lparr>cmd = CMD_READ_ID, arg = 0\<rparr>" "[]",
        THEN conjunct2, THEN conjunct2, THEN conjunct2]
    by simp
  have a: "never_ready stuck_world"
    by (simp add: never_ready_def stuck_world_def)
  have b: "ready_after (test_world 3 []) 3"
    by (simp add: ready_after_def test_world_def)
  have c: "sampled (test_world 3 []) 2 = [0x98, 0xDC]"
    by (simp add: sampled_def test_world_def upt_rec)
  have d: "gpio_cnt (test_world 3 []) = 0" "all_cnt (test_world 3 []) = 0"
    by (simp_all add: test_world_def)
  have g: "read_bytes (set_gpios pins_zero) stuck_world [7, 7, 7] 2 = Hangs"
    using a read_bytes_hangs_or_returns [of stuck_world "set_gpios pins_zero" "[7, 7, 7]" 2 0,
        THEN conjunct1]
    by simp
  have h: "\<exists>w'. read_bytes (set_gpios pins_zero) (test_world 3 []) [7, 7, 7] 2 =
      Returns (w', [0x98, 0xDC, 7]) \<and> gpio_cnt w' = 4 \<and> all_cnt w' = 2"
    using b read_bytes_hangs_or_returns [of "test_world 3 []" "set_gpios pins_zero" "[7, 7, 7]" 2 3,
        THEN conjunct2, THEN conjunct2, THEN conjunct1]
    by (auto simp: c d)
  from a b f g h show ?thesis by simp
qed

text \<open>
  C2. For every page number \<^verbatim>\<open>read_page\<close> emits, in this order, the events of a reset
  (command 0xFF, chip-enable raised, a sleep of 600 us), of command 0x00, of the five
  address bytes column-low 0, column-high 0, row-low, row-mid and row-high (bit 16 alone),
  of command 0x30 and of a sleep of 1 us, and then calls \<^verbatim>\<open>read_bytes\<close> for
  \<open>page_size\<close> bytes into the buffer. When the ready/busy line is first high at the \<open>d\<close>-th
  sample and the buffer is large enough, the call returns with the sampled bytes at the
  front of the buffer. On the pins of \<^verbatim>\<open>set_gpios\<close> the chip latches exactly these
  commands and address bytes and puts out \<open>page_size\<close> bytes, and the three row bytes are
  the page number modulo \<open>2^17\<close>. For any column \<^verbatim>\<open>write_addr_5\<close> sends its low byte and
  then five bits of its high byte before the three row bytes.
\<close>

theorem read_page_bus_sequence:
  "read_page pins w pn page_buff page_size =
     read_bytes pins (w\<lparr>trace := trace w @ page_events pins pn\<rparr>) page_buff page_size \<and>
   (ready_after w d \<and> page_size \<le> length page_buff \<longrightarrow>
      read_page pins w pn page_buff page_size =
        Returns (w\<lparr>trace := trace w @ page_events pins pn @ read_setup_events pins @
                          poll_events (ry pins) 40 d @ [BusyWaitCycles 10] @
                          read_events pins 2 w page_size,
                   gpio_cnt := gpio_cnt w + d + 1, all_cnt := all_cnt w + page_size\<rparr>,
                 sampled w page_size @ drop page_size page_buff)) \<and>
   (l_we l \<and> l_re l \<longrightarrow>
      nand_sees (set_gpios pins_zero) l
        (page_events (set_gpios pins_zero) pn @ read_setup_events (set_gpios pins_zero) @
         poll_events (ry (set_gpios pins_zero)) 40 d @ [BusyWaitCycles 10] @
         read_events (set_gpios pins_zero) 2 w page_size) =
        [Command 0xFF, Standby, Delay 600, Command 0x00, Address 0, Address 0,
         Address (ucast (pn AND 0xFF)), Address (ucast (drop_bit 8 pn AND 0xFF)),
         Address (ucast (drop_bit 16 pn AND 0x01)), Command 0x30, Delay 1] @
        replicate page_size DataOut) \<and>
   unat (ucast (pn AND 0xFF) :: 8 word) + 2 ^ 8 * unat (ucast (drop_bit 8 pn AND 0xFF) :: 8 word) +
     2 ^ 16 * unat (ucast (drop_bit 16 pn AND 0x01) :: 8 word) = unat pn mod 2 ^ 17 \<and>
   write_addr_5 pins pn col w =
     w\<lparr>trace := trace w @ addr5_events pins
        [ucast (col AND 0xFF), ucast (drop_bit 8 col AND 0x1F),
         ucast (pn AND 0xFF), ucast (drop_bit 8 pn AND 0xFF), ucast (drop_bit 16 pn AND 0x01)]\<rparr>"
proof (intro conjI impI)
  show "write_addr_5 pins pn col w =
     w\<lparr>trace := trace w @ addr5_events pins
        [ucast (col AND 0xFF), ucast (drop_bit 8 col AND 0x1F),
         ucast (pn AND 0xFF), ucast (drop_bit 8 pn AND 0xFF), ucast (drop_bit 16 pn AND 0x01)]\<rparr>"
    by (rule write_addr_5_trace)
next
  show "read_page pins w pn page_buff page_size =
     read_bytes pins (w\<lparr>trace := trace w @ page_events pins pn\<rparr>) page_buff page_size"
    by (rule read_page_trace)
next
  assume "ready_after w d \<and> page_size \<le> length page_buff"
  then have r: "ready_after (w\<lparr>trace := trace w @ page_events pins pn\<rparr>) d"
    and n: "page_size \<le> length page_buff"
    by (simp_all add: ready_after_def)
  show "read_page pins w pn page_buff page_size =
        Returns (w\<lparr>trace := trace w @ page_events pins pn @ read_setup_events pins @
                          poll_events (ry pins) 40 d @ [BusyWaitCycles 10] @
                          read_events pins 2 w page_size,
                   gpio_cnt := gpio_cnt w + d + 1, all_cnt := all_cnt w + page_size\<rparr>,
                 sampled w page_size @ drop page_size page_buff)"
    by (simp add: read_page_trace read_bytes_ready [OF r n] read_events_def sampled_def)
next
  assume "l_we l \<and> l_re l"
  then have "l_we l" and "l_re l" by simp_all
  then show "nand_sees (set_gpios pins_zero) l
        (page_events (set_gpios pins_zero) pn @ read_setup_events (set_gpios pins_zero) @
         poll_events (ry (set_gpios pins_zero)) 40 d @ [BusyWaitCycles 10] @
         read_events (set_gpios pins_zero) 2 w page_size) =
        [Command 0xFF, Standby, Delay 600, Command 0x00, Address 0, Address 0,
         Address (ucast (pn AND 0xFF)), Address (ucast (drop_bit 8 pn AND 0xFF)),
         Address (ucast (drop_bit 16 pn AND 0x01)), Command 0x30, Delay 1] @
        replicate page_size DataOut"
    by (rule nand_sees_read_page)
next
  show "unat (ucast (pn AND 0xFF) :: 8 word) + 2 ^ 8 * unat (ucast (drop_bit 8 pn AND 0xFF) :: 8 word) +
     2 ^ 16 * unat (ucast (drop_bit 16 pn AND 0x01) :: 8 word) = unat pn mod 2 ^ 17"
    by (rule row_address)
qed

theorem read_page_bus_sequence_witness:
  "ready_after (test_world 2 []) 2 \<and> (2::nat) \<le> length [7, 7, 7 :: 8 word] \<and>
   l_we idle_lines \<and> l_re idle_lines \<and>
   (\<exists>w'. read_page (set_gpios pins_zero) (test_world 2 []) 0x31234 [7, 7, 7] 2 =
           Returns (w', [0x98, 0xDC, 7])) \<and>
   nand_sees (set_gpios pins_zero) idle_lines
     (page_events (set_gpios pins_zero) 0x31234 @ read_setup_events (set_gpios pins_zero) @
      poll_events (ry (set_gpios pins_zero)) 40 2 @ [BusyWaitCycles 10] @
      read_events (set_gpios pins_zero) 2 (test_world 2 []) 2) =
     [Command 0xFF, Standby, Delay 600, Command 0x00, Address 0, Address 0,
      Address 0x34, Address 0x12, Address 0x01, Command 0x30, Delay 1, DataOut, DataOut]"
proof -
  note t = read_page_bus_sequence
    [of "set_gpios pins_zero" "test_world 2 []" "0x31234" "[7, 7, 7]" 2 2 idle_lines]
  have b: "ready_after (test_world 2 []) 2"
    by (simp add: ready_after_def test_world_def)
  have c: "sampled (test_world 2 []) 2 = [0x98, 0xDC]"
    by (simp add: sampled_def test_world_def upt_rec)
  have e: "l_we idle_lines" "l_re idle_lines"
    by (simp_all add: idle_lines_def)
  have f: "replicate 2 DataOut = [DataOut, DataOut]"
    by (simp add: numeral_2_eq_2)
  from t [THEN conjunct2, THEN conjunct1] b
  have "\<exists>w'. read_page (set_gpios pins_zero) (test_world 2 []) 0x31234 [7, 7, 7] 2 =
           Returns (w', [0x98, 0xDC, 7])"
    by (simp add: c)
  moreover from t [THEN conjunct2, THEN conjunct2, THEN conjunct1] e
  have "nand_sees (set_gpios pins_zero) idle_lines
     (page_events (set_gpios pins_zero) 0x31234 @ read_setup_events (set_gpios pins_zero) @
      poll_events (ry (set_gpios pins_zero)) 40 2 @ [BusyWaitCycles 10] @
      read_events (set_gpios pins_zero) 2 (test_world 2 []) 2) =
     [Command 0xFF, Standby, Delay 600, Command 0x00, Address 0, Address 0,
      Address 0x34, Address 0x12, Address 0x01, Command 0x30, Delay 1, DataOut, DataOut]"
    by (simp add: f)
  ultimately show ?thesis
    using b e by simp
qed

text \<open>
  C3. Started at 0, the page counter of the worker equals \<open>N\<close> (as the 32-bit value it
  is, and as a C \<^verbatim>\<open>int\<close> for \<open>N\<close> below \<open>2^31\<close>) after \<open>N\<close> consecutive
  \<^verbatim>\<open>CMD_READ_PAGE\<close> commands; it equals \<open>k\<close> after \<^verbatim>\<open>CMD_SET_PAGE_NO\<close> with argument \<open>k\<close>
  and 0 after \<^verbatim>\<open>CMD_RESET_PAGE_NO\<close>. No other command changes it, and over one pass of the
  loop of \<^verbatim>\<open>main\<close> it changes only as the command sent to the worker says: the control
  core never writes it. The state \<open>sys_ok\<close> asked for is the one \<^verbatim>\<open>main\<close> enters its loop
  in, with the counter at 0, and every pass of the loop keeps it.
\<close>

theorem page_counter_dispatches:
  "(sys_ok s \<and> page_num s = 0 \<longrightarrow>
      (\<exists>s'. exchanges (replicate N \<lparr>cmd = CMD_READ_PAGE, arg = a\<rparr>) s = Returns s' \<and>
            page_num s' = of_nat N \<and> (N < 2 ^ 31 \<longrightarrow> sint (page_num s') = int N))) \<and>
   (sys_ok s \<longrightarrow>
      (\<exists>s'. exchange \<lparr>cmd = CMD_SET_PAGE_NO, arg = k\<rparr> s = Returns (result s', s') \<and>
            page_num s' = k)) \<and>
   (sys_ok s \<longrightarrow>
      (\<exists>s'. exchange \<lparr>cmd = CMD_RESET_PAGE_NO, arg = a\<rparr> s = Returns (result s', s') \<and>
            page_num s' = 0)) \<and>
   (exchange c s = Returns (r, s') \<and> cmd_queue s = [] \<and>
    cmd c \<noteq> CMD_READ_PAGE \<and> cmd c \<noteq> CMD_RESET_PAGE_NO \<and> cmd c \<noteq> CMD_SET_PAGE_NO \<longrightarrow>
      page_num s' = page_num s) \<and>
   (sys_ok s \<longrightarrow>
      (\<exists>s'. main_loop_iter s = Returns s' \<and> sys_ok s' \<and>
         page_num s' =
           (case serial_in (hw s) (serial_cnt (hw s)) of
              None \<Rightarrow> page_num s
            | Some ch \<Rightarrow>
                if ch = 0x31 then page_num s + 1
                else if ch = 0x32 then 0
                else if ch = 0x33 then
                  (case (serial_in (hw s) (serial_cnt (hw s) + 1),
                         serial_in (hw s) (serial_cnt (hw s) + 2),
                         serial_in (hw s) (serial_cnt (hw s) + 3)) of
                     (Some b1, Some b2, Some b3) \<Rightarrow> page_no_of b1 b2 b3
                   | _ \<Rightarrow> page_num s)
                else page_num s))) \<and>
   (responsive w \<and> main_boot w = Returns (Running s0) \<longrightarrow> sys_ok s0 \<and> page_num s0 = 0)"
proof (intro conjI impI)
  assume b: "responsive w \<and> main_boot w = Returns (Running s0)"
  then have "responsive w" "main_boot w = Returns (Running s0)" by simp_all
  from main_boot_sys_ok [OF this] show "sys_ok s0" and "page_num s0 = 0" by simp_all
next
  assume a: "sys_ok s \<and> page_num s = 0"
  then have "sys_ok s" ..
  from exchanges_read_page [OF this, of "\<lparr>cmd = CMD_READ_PAGE, arg = a\<rparr>" N] a
  obtain s' where "exchanges (replicate N \<lparr>cmd = CMD_READ_PAGE, arg = a\<rparr>) s = Returns s'"
    "page_num s' = of_nat N" by auto
  then show "\<exists>s'. exchanges (replicate N \<lparr>cmd = CMD_READ_PAGE, arg = a\<rparr>) s = Returns s' \<and>
            page_num s' = of_nat N \<and> (N < 2 ^ 31 \<longrightarrow> sint (page_num s') = int N)"
    by (auto simp: sint_small)
next
  assume "sys_ok s"
  from exchange_ok [OF this, of "\<lparr>cmd = CMD_SET_PAGE_NO, arg = k\<rparr>"]
  show "\<exists>s'. exchange \<lparr>cmd = CMD_SET_PAGE_NO, arg = k\<rparr> s = Returns (result s', s') \<and>
            page_num s' = k" by auto
next
  assume "sys_ok s"
  from exchange_ok [OF this, of "\<lparr>cmd = CMD_RESET_PAGE_NO, arg = a\<rparr>"]
  show "\<exists>s'. exchange \<lparr>cmd = CMD_RESET_PAGE_NO, arg = a\<rparr> s = Returns (result s', s') \<and>
            page_num s' = 0" by auto
next
  assume a: "exchange c s = Returns (r, s') \<and> cmd_queue s = [] \<and>
    cmd c \<noteq> CMD_READ_PAGE \<and> cmd c \<noteq> CMD_RESET_PAGE_NO \<and> cmd c \<noteq> CMD_SET_PAGE_NO"
  then have "exchange c s = Returns (r, s')" "cmd_queue s = []" by simp_all
  from exchange_Returns_page_num [OF this] a show "page_num s' = page_num s"
    by (cases "cmd c") simp_all
next
  assume "sys_ok s"
  from main_loop_iter_counters [OF this]
  show "\<exists>s'. main_loop_iter s = Returns s' \<and> sys_ok s' \<and>
         page_num s' =
           (case serial_in (hw s) (serial_cnt (hw s)) of
              None \<Rightarrow> page_num s
            | Some ch \<Rightarrow>
                if ch = 0x31 then page_num s + 1
                else if ch = 0x32 then 0
                else if ch = 0x33 then
                  (case (serial_in (hw s) (serial_cnt (hw s) + 1),
                         serial_in (hw s) (serial_cnt (hw s) + 2),
                         serial_in (hw s) (serial_cnt (hw s) + 3)) of
                     (Some b1, Some b2, Some b3) \<Rightarrow> page_no_of b1 b2 b3
                   | _ \<Rightarrow> page_num s)
                else page_num s)"
    by (auto simp: carried_def)
qed

theorem page_counter_dispatches_witness:
  "sys_ok (test_sys (test_world 1 [Some 0x34])) \<and> page_num (test_sys (test_world 1 [Some 0x34])) = 0 \<and>
   (\<exists>s'. exchanges (replicate 3 \<lparr>cmd = CMD_READ_PAGE, arg = 0\<rparr>) (test_sys (test_world 1 [Some 0x34])) =
           Returns s' \<and> page_num s' = 3 \<and> sint (page_num s') = 3) \<and>
   (\<exists>s'. exchange \<lparr>cmd = CMD_SET_PAGE_NO, arg = 0x1234\<rparr> (test_sys (test_world 1 [Some 0x34])) =
           Returns (result s', s') \<and> page_num s' = 0x1234) \<and>
   (\<exists>s'. exchange \<lparr>cmd = CMD_RESET_PAGE_NO, arg = 0\<rparr> (test_sys (test_world 1 [Some 0x34])) =
           Returns (result s', s') \<and> page_num s' = 0) \<and>
   exchange \<lparr>cmd = CMD_NONE, arg = 0\<rparr> (test_sys (test_world 1 [Some 0x34])) =
     Returns (\<lparr>sz = 0, alloc = 0\<rparr>,
              (test_sys (test_world 1 [Some 0x34]))\<lparr>cmd_arg1 := \<lparr>cmd = CMD_NONE, arg = 0\<rparr>\<rparr>) \<and>
   page_num ((test_sys (test_world 1 [Some 0x34]))\<lparr>cmd_arg1 := \<lparr>cmd = CMD_NONE, arg = 0\<rparr>\<rparr>) =
     page_num (test_sys (test_world 1 [Some 0x34])) \<and>
   (\<exists>s'. main_loop_iter (test_sys (test_world 1 [Some 0x34])) = Returns s' \<and> sys_ok s' \<and>
         page_num s' = 0) \<and>
   responsive (test_world 1 [Some 0x34]) \<and>
   main_boot (test_world 1 [Some 0x34]) =
     Returns (Running (test_sys (launched (test_world 1 [Some 0x34]) 1))) \<and>
   sys_ok (test_sys (launched (test_world 1 [Some 0x34]) 1)) \<and>
   page_num (test_sys (launched (test_world 1 [Some 0x34]) 1)) = 0"
proof -
  let ?s = "test_sys (test_world 1 [Some 0x34])"
  let ?b = "test_sys (launched (test_world 1 [Some 0x34]) 1)"
  have r: "responsive (test_world 1 [Some 0x34])" by (rule responsive_test_world)
  have m: "main_boot (test_world 1 [Some 0x34]) = Returns (Running ?b)"
    by (rule main_boot_test_world)
  have ok: "sys_ok ?s" by (rule sys_ok_test_sys [OF responsive_test_world])
  have x: "exchange \<lparr>cmd = CMD_NONE, arg = 0\<rparr> ?s =
     Returns (\<lparr>sz = 0, alloc = 0\<rparr>, ?s\<lparr>cmd_arg1 := \<lparr>cmd = CMD_NONE, arg = 0\<rparr>\<rparr>)"
    by (simp add: exchange_idle core1_execute_def)
  note t = page_counter_dispatches [of ?s 3 0 "0x1234" "\<lparr>cmd = CMD_NONE, arg = 0\<rparr>"
      "\<lparr>sz = 0, alloc = 0\<rparr>" "?s\<lparr>cmd_arg1 := \<lparr>cmd = CMD_NONE, arg = 0\<rparr>\<rparr>"
      "test_world 1 [Some 0x34]" ?b]
  from t [THEN conjunct1] ok
  have 1: "\<exists>s'. exchanges (replicate 3 \<lparr>cmd = CMD_READ_PAGE, arg = 0\<rparr>) ?s = Returns s' \<and>
      page_num s' = 3 \<and> sint (page_num s') = 3"
    by simp
  from t [THEN conjunct2, THEN conjunct1] ok
  have 2: "\<exists>s'. exchange \<lparr>cmd = CMD_SET_PAGE_NO, arg = 0x1234\<rparr> ?s = Returns (result s', s') \<and>
      page_num s' = 0x1234"
    by simp
  from t [THEN conjunct2, THEN conjunct2, THEN conjunct1] ok
  have 3: "\<exists>s'. exchange \<lparr>cmd = CMD_RESET_PAGE_NO, arg = 0\<rparr> ?s = Returns (result s', s') \<and>
      page_num s' = 0"
    by simp
  from t [THEN conjunct2, THEN conjunct2, THEN conjunct2, THEN conjunct2, THEN conjunct1] ok
  have 4: "\<exists>s'. main_loop_iter ?s = Returns s' \<and> sys_ok s' \<and> page_num s' = 0"
    by simp
  from t [THEN conjunct2, THEN conjunct2, THEN conjunct2, THEN conjunct2, THEN conjunct2] r m
  have 6: "sys_ok ?b \<and> page_num ?b = 0"
    by simp
  from t [THEN conjunct2, THEN conjunct2, THEN conjunct2, THEN conjunct1] x
  have 5: "page_num (?s\<lparr>cmd_arg1 := \<lparr>cmd = CMD_NONE, arg = 0\<rparr>\<rparr>) = page_num ?s"
    by simp
  from ok 1 2 3 4 5 6 x r m show ?thesis by simp
qed

text \<open>
  C4. For the serial command 3 with the three argument bytes \<open>b0\<close>, \<open>b1\<close>, \<open>b2\<close> read
  without a timeout, the command given to the worker is \<^verbatim>\<open>CMD_SET_PAGE_NO\<close> with the page
  number \<open>(b0 & 0xff) | ((b1 & 0xff) << 8) | ((b2 & 0x1) << 16)\<close>, that is
  \<open>b0 + 256 * b1 + 65536 * (b2 mod 2)\<close>; the bytes 34 12 00 give 0x1234 and 34 12 01 give
  0x11234. When one of the three reads times out, the message is printed and the state of
  the queues and of the worker is left as it was.
\<close>

theorem set_page_counter_argument:
  "(sys_ok s \<and> serial_in (hw s) (serial_cnt (hw s)) = Some 0x33 \<and>
    serial_in (hw s) (serial_cnt (hw s) + 1) = Some b0 \<and>
    serial_in (hw s) (serial_cnt (hw s) + 2) = Some b1 \<and>
    serial_in (hw s) (serial_cnt (hw s) + 3) = Some b2 \<longrightarrow>
      (\<exists>s'. main_loop_iter s = Returns s' \<and>
            cmd_arg1 s' = \<lparr>cmd = CMD_SET_PAGE_NO, arg = page_no_of b0 b1 b2\<rparr> \<and>
            page_num s' = page_no_of b0 b1 b2 \<and> out (hw s') = out (hw s))) \<and>
   page_no_of b0 b1 b2 =
     (ucast b0 AND 0xff) OR push_bit 8 (ucast b1 AND 0xff) OR push_bit 16 (ucast b2 AND 0x1) \<and>
   unat (page_no_of b0 b1 b2) = unat b0 + 256 * unat b1 + 65536 * (unat b2 mod 2) \<and>
   page_no_of 0x34 0x12 0x00 = 0x1234 \<and> page_no_of 0x34 0x12 0x01 = 0x11234 \<and>
   (serial_in (hw s) (serial_cnt (hw s)) = Some 0x33 \<and>
    (serial_in (hw s) (serial_cnt (hw s) + 1) = None \<or>
     serial_in (hw s) (serial_cnt (hw s) + 2) = None \<or>
     serial_in (hw s) (serial_cnt (hw s) + 3) = None) \<longrightarrow>
      main_loop_iter s =
        Returns (s\<lparr>hw := printf ''Timed out reading page number\<newline>'' []
           ((emit (GpioPut LED_PIN True) (polled (hw s)))\<lparr>serial_cnt := serial_cnt (hw s) + 4\<rparr>)\<rparr>))"
proof (intro conjI impI)
  assume a: "sys_ok s \<and> serial_in (hw s) (serial_cnt (hw s)) = Some 0x33 \<and>
    serial_in (hw s) (serial_cnt (hw s) + 1) = Some b0 \<and>
    serial_in (hw s) (serial_cnt (hw s) + 2) = Some b1 \<and>
    serial_in (hw s) (serial_cnt (hw s) + 3) = Some b2"
  then have "\<exists>s'. main_loop_iter s = Returns s' \<and> carried s' s \<and>
     page_num s' = page_no_of b0 b1 b2 \<and>
     cmd_arg1 s' = \<lparr>cmd = CMD_SET_PAGE_NO, arg = page_no_of b0 b1 b2\<rparr> \<and>
     curr_page s' = curr_page s \<and> serial_cnt (hw s') = serial_cnt (hw s) + 4 \<and>
     out (hw s') = out (hw s)"
    by (intro main_loop_iter_set_page) simp_all
  then show "\<exists>s'. main_loop_iter s = Returns s' \<and>
            cmd_arg1 s' = \<lparr>cmd = CMD_SET_PAGE_NO, arg = page_no_of b0 b1 b2\<rparr> \<and>
            page_num s' = page_no_of b0 b1 b2 \<and> out (hw s') = out (hw s)"
    by blast
next
  show "page_no_of b0 b1 b2 =
     (ucast b0 AND 0xff) OR push_bit 8 (ucast b1 AND 0xff) OR push_bit 16 (ucast b2 AND 0x1)"
    by (rule page_no_of_def)
next
  show "unat (page_no_of b0 b1 b2) = unat b0 + 256 * unat b1 + 65536 * (unat b2 mod 2)"
    by (rule unat_page_no_of)
next
  show "page_no_of 0x34 0x12 0x00 = 0x1234" by (rule page_no_of_examples)
next
  show "page_no_of 0x34 0x12 0x01 = 0x11234" by (rule page_no_of_examples)
next
  assume a: "serial_in (hw s) (serial_cnt (hw s)) = Some 0x33 \<and>
    (serial_in (hw s) (serial_cnt (hw s) + 1) = None \<or>
     serial_in (hw s) (serial_cnt (hw s) + 2) = None \<or>
     serial_in (hw s) (serial_cnt (hw s) + 3) = None)"
  then show "main_loop_iter s =
        Returns (s\<lparr>hw := printf ''Timed out reading page number\<newline>'' []
           ((emit (GpioPut LED_PIN True) (polled (hw s)))\<lparr>serial_cnt := serial_cnt (hw s) + 4\<rparr>)\<rparr>)"
    by (intro main_loop_iter_set_page_timeout) simp_all
qed

theorem set_page_counter_argument_witness:
  "sys_ok (test_sys (test_world 0 [Some 0x33, Some 0x34, Some 0x12, Some 0x01])) \<and>
   (\<exists>s'. main_loop_iter (test_sys (test_world 0 [Some 0x33, Some 0x34, Some 0x12, Some 0x01])) =
           Returns s' \<and>
         cmd_arg1 s' = \<lparr>cmd = CMD_SET_PAGE_NO, arg = 0x11234\<rparr> \<and> page_num s' = 0x11234 \<and>
         out (hw s') = []) \<and>
   main_loop_iter (test_sys (test_world 0 [Some 0x33, Some 0x34])) =
     Returns ((test_sys (test_world 0 [Some 0x33, Some 0x34]))
       \<lparr>hw := printf ''Timed out reading page number\<newline>'' []
          ((emit (GpioPut LED_PIN True) (polled (test_world 0 [Some 0x33, Some 0x34])))
             \<lparr>serial_cnt := 4\<rparr>)\<rparr>)"
proof -
  let ?a = "test_sys (test_world 0 [Some 0x33, Some 0x34, Some 0x12, Some 0x01])"
  let ?b = "test_sys (test_world 0 [Some 0x33, Some 0x34])"
  have ok: "sys_ok ?a" by (rule sys_ok_test_sys [OF responsive_test_world])
  have o: "out (test_world 0 [Some 0x33, Some 0x34, Some 0x12, Some 0x01]) = []"
    by (simp add: test_world_def)
  note ta = set_page_counter_argument [of ?a "0x34" "0x12" "0x01"]
  note tb = set_page_counter_argument [of ?b "0x34" "0x12" "0x01"]
  from ta [THEN conjunct1] ok ta [THEN conjunct2, THEN conjunct2, THEN conjunct2, THEN conjunct2, THEN conjunct1]
  have 1: "\<exists>s'. main_loop_iter ?a = Returns s' \<and>
         cmd_arg1 s' = \<lparr>cmd = CMD_SET_PAGE_NO, arg = 0x11234\<rparr> \<and> page_num s' = 0x11234 \<and>
         out (hw s') = []"
    by (simp add: o)
  from tb [THEN conjunct2, THEN conjunct2, THEN conjunct2, THEN conjunct2, THEN conjunct2]
  have 2: "main_loop_iter ?b =
     Returns (?b\<lparr>hw := printf ''Timed out reading page number\<newline>'' []
          ((emit (GpioPut LED_PIN True) (polled (test_world 0 [Some 0x33, Some 0x34])))
             \<lparr>serial_cnt := 4\<rparr>)\<rparr>)"
    by simp
  from ok 1 2 show ?thesis by simp
qed



text \<open>
  C6. At start-up, once the identification bytes have been read: when
  \<^verbatim>\<open>check_supported_io_width\<close> rejects them, which is when bit 6 of the fourth byte is set,
  or when \<^verbatim>\<open>get_flash_info\<close> returns false, \<^verbatim>\<open>main\<close> prints its message and stays in an
  endless loop. Up to there it has initialised the pins, reset the chip and read the
  identification: core 1 has not been launched and the chip has seen no page command. When
  \<^verbatim>\<open>main\<close> does enter its loop, the geometry is one of the two known ones.
\<close>

theorem main_boot_halts_on_unsupported_chip:
  "(ready_after w d \<and> \<not> check_supported_io_width (id_data_of_bytes (sampled w 5)) \<longrightarrow>
      main_boot w =
        Returns (Halted (printf ''Unsupported I/O width!\<newline>'' [] (booted_world w d)))) \<and>
   (ready_after w d \<and> check_supported_io_width (id_data_of_bytes (sampled w 5)) \<and>
    \<not> fst (get_flash_info (id_data_of_bytes (sampled w 5))
             \<lparr>page_size_bytes = 0, oob_size_bytes = 0, flash_size_bytes = 0\<rparr>) \<longrightarrow>
      main_boot w =
        Returns (Halted (printf ''Unrecognized NAND flash ID bytes!\<newline>'' [] (booted_world w d)))) \<and>
   (ready_after w d \<and> check_supported_io_width (id_data_of_bytes (sampled w 5)) \<and>
    fst (get_flash_info (id_data_of_bytes (sampled w 5))
           \<lparr>page_size_bytes = 0, oob_size_bytes = 0, flash_size_bytes = 0\<rparr>) \<longrightarrow>
      (\<exists>s. main_boot w = Returns (Running s) \<and>
           (flash_info_glob s =
              \<lparr>page_size_bytes = 2048, oob_size_bytes = 128, flash_size_bytes = 285212672\<rparr> \<or>
            flash_info_glob s =
              \<lparr>page_size_bytes = 4096, oob_size_bytes = 256, flash_size_bytes = 570425344\<rparr>))) \<and>
   (check_supported_io_width idb \<longleftrightarrow> \<not> bit (pgsz_bksz_iow idb) 6) \<and>
   trace (booted_world w d) =
     trace w @ boot_events (set_gpios pins_zero) @ read_setup_events (set_gpios pins_zero) @
     poll_events (ry (set_gpios pins_zero)) 40 d @ [BusyWaitCycles 10] @
     read_events (set_gpios pins_zero) 2 w 5 \<and>
   MulticoreLaunchCore1 \<notin> set (boot_events (set_gpios pins_zero) @
     read_setup_events (set_gpios pins_zero) @ poll_events (ry (set_gpios pins_zero)) 40 d @
     [BusyWaitCycles 10] @ read_events (set_gpios pins_zero) 2 w 5) \<and>
   nand_sees (set_gpios pins_zero) idle_lines
     (cmd_events (set_gpios pins_zero) 0xFF @
      [GpioPut (ce (set_gpios pins_zero)) True, SleepUs 600] @ id_events (set_gpios pins_zero) @
      read_setup_events (set_gpios pins_zero) @
      poll_events (ry (set_gpios pins_zero)) 40 d @ [BusyWaitCycles 10] @
      read_events (set_gpios pins_zero) 2 w 5) =
     [Command 0xFF, Standby, Delay 600, Command 0x90, Address 0x00] @ replicate 5 DataOut \<and>
   out (booted_world w d) = out w"
proof (intro conjI impI)
  assume a: "ready_after w d \<and> \<not> check_supported_io_width (id_data_of_bytes (sampled w 5))"
  then have "ready_after w d" by simp
  from main_boot_ready [OF this] a
  show "main_boot w =
        Returns (Halted (printf ''Unsupported I/O width!\<newline>'' [] (booted_world w d)))"
    by simp
next
  assume a: "ready_after w d \<and> check_supported_io_width (id_data_of_bytes (sampled w 5)) \<and>
    \<not> fst (get_flash_info (id_data_of_bytes (sampled w 5))
             \<lparr>page_size_bytes = 0, oob_size_bytes = 0, flash_size_bytes = 0\<rparr>)"
  then have "ready_after w d" by simp
  from main_boot_ready [OF this] a
  show "main_boot w =
        Returns (Halted (printf ''Unrecognized NAND flash ID bytes!\<newline>'' [] (booted_world w d)))"
    by simp
next
  assume a: "ready_after w d \<and> check_supported_io_width (id_data_of_bytes (sampled w 5)) \<and>
    fst (get_flash_info (id_data_of_bytes (sampled w 5))
           \<lparr>page_size_bytes = 0, oob_size_bytes = 0, flash_size_bytes = 0\<rparr>)"
  then have g: "snd (get_flash_info (id_data_of_bytes (sampled w 5))
           \<lparr>page_size_bytes = 0, oob_size_bytes = 0, flash_size_bytes = 0\<rparr>) =
      \<lparr>page_size_bytes = 2048, oob_size_bytes = 128, flash_size_bytes = 285212672\<rparr> \<or>
     snd (get_flash_info (id_data_of_bytes (sampled w 5))
           \<lparr>page_size_bytes = 0, oob_size_bytes = 0, flash_size_bytes = 0\<rparr>) =
      \<lparr>page_size_bytes = 4096, oob_size_bytes = 256, flash_size_bytes = 570425344\<rparr>"
    by (auto simp: get_flash_info_cases split: if_splits)
  from a have "ready_after w d" by simp
  from main_boot_ready [OF this] a g
  show "\<exists>s. main_boot w = Returns (Running s) \<and>
           (flash_info_glob s =
              \<lparr>page_size_bytes = 2048, oob_size_bytes = 128, flash_size_bytes = 285212672\<rparr> \<or>
            flash_info_glob s =
              \<lparr>page_size_bytes = 4096, oob_size_bytes = 256, flash_size_bytes = 570425344\<rparr>)"
    by auto
next
  show "check_supported_io_width idb \<longleftrightarrow> \<not> bit (pgsz_bksz_iow idb) 6"
    by (rule io_width_bit)
next
  show "trace (booted_world w d) =
     trace w @ boot_events (set_gpios pins_zero) @ read_setup_events (set_gpios pins_zero) @
     poll_events (ry (set_gpios pins_zero)) 40 d @ [BusyWaitCycles 10] @
     read_events (set_gpios pins_zero) 2 w 5"
    by (simp add: booted_world_def after_read_def read_events_def)
next
  show "MulticoreLaunchCore1 \<notin> set (boot_events (set_gpios pins_zero) @
     read_setup_events (set_gpios pins_zero) @ poll_events (ry (set_gpios pins_zero)) 40 d @
     [BusyWaitCycles 10] @ read_events (set_gpios pins_zero) 2 w 5)"
    by (rule no_launch_in_boot)
next
  show "nand_sees (set_gpios pins_zero) idle_lines
     (cmd_events (set_gpios pins_zero) 0xFF @
      [GpioPut (ce (set_gpios pins_zero)) True, SleepUs 600] @ id_events (set_gpios pins_zero) @
      read_setup_events (set_gpios pins_zero) @
      poll_events (ry (set_gpios pins_zero)) 40 d @ [BusyWaitCycles 10] @
      read_events (set_gpios pins_zero) 2 w 5) =
     [Command 0xFF, Standby, Delay 600, Command 0x90, Address 0x00] @ replicate 5 DataOut"
    by (rule nand_sees_read_id) (simp_all add: idle_lines_def)
next
  show "out (booted_world w d) = out w" by (simp add: booted_world_def)
qed

theorem main_boot_halts_on_unsupported_chip_witness:
  "ready_after wide_world 0 \<and>
   \<not> check_supported_io_width (id_data_of_bytes (sampled wide_world 5)) \<and>
   main_boot wide_world =
     Returns (Halted (printf ''Unsupported I/O width!\<newline>'' [] (booted_world wide_world 0))) \<and>
   ready_after foreign_world 0 \<and>
   check_supported_io_width (id_data_of_bytes (sampled foreign_world 5)) \<and>
   \<not> fst (get_flash_info (id_data_of_bytes (sampled foreign_world 5))
            \<lparr>page_size_bytes = 0, oob_size_bytes = 0, flash_size_bytes = 0\<rparr>) \<and>
   main_boot foreign_world =
     Returns (Halted (printf ''Unrecognized NAND flash ID bytes!\<newline>'' []
                (booted_world foreign_world 0))) \<and>
   ready_after (test_world 0 []) 0 \<and>
   check_supported_io_width (id_data_of_bytes (sampled (test_world 0 []) 5)) \<and>
   fst (get_flash_info (id_data_of_bytes (sampled (test_world 0 []) 5))
          \<lparr>page_size_bytes = 0, oob_size_bytes = 0, flash_size_bytes = 0\<rparr>) \<and>
   (\<exists>s. main_boot (test_world 0 []) = Returns (Running s) \<and>
        flash_info_glob s =
          \<lparr>page_size_bytes = 4096, oob_size_bytes = 256, flash_size_bytes = 570425344\<rparr>)"
proof -
  have w: "\<not> check_supported_io_width (id_data_of_bytes (sampled wide_world 5))"
    by (simp add: sampled_wide_world id_data_of_bytes_def check_supported_io_width_def)
  have f: "check_supported_io_width (id_data_of_bytes (sampled foreign_world 5))"
    "\<not> fst (get_flash_info (id_data_of_bytes (sampled foreign_world 5))
            \<lparr>page_size_bytes = 0, oob_size_bytes = 0, flash_size_bytes = 0\<rparr>)"
    by (simp_all add: sampled_foreign_world id_data_of_bytes_def check_supported_io_width_def
        get_flash_info_cases)
  have t: "check_supported_io_width (id_data_of_bytes (sampled (test_world 0 []) 5))"
    "fst (get_flash_info (id_data_of_bytes (sampled (test_world 0 []) 5))
          \<lparr>page_size_bytes = 0, oob_size_bytes = 0, flash_size_bytes = 0\<rparr>)"
    by (simp_all add: sampled_test_world id_data_of_bytes_def check_supported_io_width_def
        get_flash_info_cases)
  have 1: "main_boot wide_world =
     Returns (Halted (printf ''Unsupported I/O width!\<newline>'' [] (booted_world wide_world 0)))"
    using main_boot_halts_on_unsupported_chip [of wide_world 0, THEN conjunct1]
      ready_after_other_worlds(1) w
    by simp
  have 2: "main_boot foreign_world =
     Returns (Halted (printf ''Unrecognized NAND flash ID bytes!\<newline>'' []
                (booted_world foreign_world 0)))"
    using main_boot_halts_on_unsupported_chip [of foreign_world 0, THEN conjunct2, THEN conjunct1]
      ready_after_other_worlds(2) f
    by simp
  have "\<exists>s. main_boot (test_world 0 []) = Returns (Running s)  \<and>
           (flash_info_glob s =
              \<lparr>page_size_bytes = 2048, oob_size_bytes = 128, flash_size_bytes = 285212672\<rparr> \<or>
            flash_info_glob s =
              \<lparr>page_size_bytes = 4096, oob_size_bytes = 256, flash_size_bytes = 570425344\<rparr>)"
    using main_boot_halts_on_unsupported_chip [of "test_world 0 []" 0,
        THEN conjunct2, THEN conjunct2, THEN conjunct1]
      ready_after_test_world [of 0 "[]"] t
    by simp
  then have 3: "\<exists>s. main_boot (test_world 0 []) = Returns (Running s) \<and>
        flash_info_glob s =
          \<lparr>page_size_bytes = 4096, oob_size_bytes = 256, flash_size_bytes = 570425344\<rparr>"
    by (auto simp: main_boot_test_world test_sys_def)
  from 1 2 3 w f t ready_after_other_worlds ready_after_test_world [of 0 "[]"]
  show ?thesis by simp
qed

text \<open>
  C8, as the spec states it, fails: in a pass of the loop with no input nothing is
  printed, the help text included.
\<close>

theorem no_input_prints_nothing:
  "main_loop_iter (test_sys (test_world 0 [])) =
     Returns ((test_sys (test_world 0 []))\<lparr>hw := polled (test_world 0 [])\<rparr>) \<and>
   out (polled (test_world 0 [])) = []"
  by (simp add: main_loop_iter_idle) (simp add: test_world_def)

text \<open>
  C8, amended. In a pass of the loop whose input byte is one of the digits 6 to 9 the help
  text is printed; in a pass with no input nothing is printed.
\<close>

theorem help_text_cases:
  "(serial_in (hw s) (serial_cnt (hw s)) = Some c \<and> 0x36 \<le> c \<and> c \<le> 0x39 \<longrightarrow>
      main_loop_iter s =
        Returns (s\<lparr>hw := printf ''%s'' [PStr HELP_STR]
                            (emit (GpioPut LED_PIN True) (polled (hw s)))\<rparr>)) \<and>
   (serial_in (hw s) (serial_cnt (hw s)) = None \<longrightarrow>
      main_loop_iter s = Returns (s\<lparr>hw := polled (hw s)\<rparr>) \<and> out (polled (hw s)) = out (hw s))"
proof (intro conjI impI)
  assume a: "serial_in (hw s) (serial_cnt (hw s)) = Some c \<and> 0x36 \<le> c \<and> c \<le> 0x39"
  then have c: "0x36 \<le> c" "c \<le> 0x39" by simp_all
  from a high_digit(1) [OF c] have "main_loop_iter s = main_switch c (lit s)"
    by (intro main_loop_iter_digit) simp_all
  also have "\<dots> = Returns ((lit s)\<lparr>hw := printf ''%s'' [PStr HELP_STR] (hw (lit s))\<rparr>)"
    using high_digit(3,4) [OF c] by (simp add: main_switch_local [OF high_digit(2) [OF c]])
  finally show "main_loop_iter s =
        Returns (s\<lparr>hw := printf ''%s'' [PStr HELP_STR]
                            (emit (GpioPut LED_PIN True) (polled (hw s)))\<rparr>)"
    by (simp add: lit_def)
next
  assume "serial_in (hw s) (serial_cnt (hw s)) = None"
  then show "main_loop_iter s = Returns (s\<lparr>hw := polled (hw s)\<rparr>)"
    by (intro main_loop_iter_idle) simp
next
  show "out (polled (hw s)) = out (hw s)" by simp
qed

theorem help_text_cases_witness:
  "serial_in (hw (test_sys (test_world 0 [Some 0x37]))) (serial_cnt (hw (test_sys (test_world 0 [Some 0x37])))) =
     Some 0x37 \<and> (0x36 :: 8 word) \<le> 0x37 \<and> (0x37 :: 8 word) \<le> 0x39 \<and>
   main_loop_iter (test_sys (test_world 0 [Some 0x37])) =
     Returns ((test_sys (test_world 0 [Some 0x37]))\<lparr>hw := printf ''%s'' [PStr HELP_STR]
        (emit (GpioPut LED_PIN True) (polled (test_world 0 [Some 0x37])))\<rparr>) \<and>
   serial_in (hw (test_sys (test_world 0 []))) (serial_cnt (hw (test_sys (test_world 0 [])))) = None \<and>
   main_loop_iter (test_sys (test_world 0 [])) =
     Returns ((test_sys (test_world 0 []))\<lparr>hw := polled (test_world 0 [])\<rparr>) \<and>
   out (polled (test_world 0 [])) = out (test_world 0 [])"
  using help_text_cases [of "test_sys (test_world 0 [Some 0x37])" "0x37"]
    help_text_cases [of "test_sys (test_world 0 [])" "0x37"]
  by simp

text \<open>
  C9. The counter \<^verbatim>\<open>curr_page\<close> of \<^verbatim>\<open>main\<close> does not follow the page counter of the
  worker: after power-on with the commands 1 and 2 both counters are 1 after the first
  command, and after the second the worker's is 0 while \<^verbatim>\<open>curr_page\<close> is still 1.
\<close>

theorem curr_page_ignores_reset:
  "\<exists>s0 s1 s2. main_boot (test_world 0 [Some 0x31, Some 0x32]) = Returns (Running s0) \<and>
     main_loop_iter s0 = Returns s1 \<and> main_loop_iter s1 = Returns s2 \<and>
     page_num s1 = 1 \<and> curr_page s1 = 1 \<and> page_num s2 = 0 \<and> curr_page s2 = 1"
proof -
  let ?w = "test_world 0 [Some 0x31, Some 0x32]"
  let ?s0 = "test_sys (launched ?w 0)"
  have b: "main_boot ?w = Returns (Running ?s0)" by (rule main_boot_test_world)
  have ok0: "sys_ok ?s0"
    by (rule sys_ok_test_sys [OF responsive_launched [OF responsive_test_world]])
  have i0: "serial_in (hw ?s0) (serial_cnt (hw ?s0)) = Some 0x31" by simp
  from main_loop_iter_read_page [OF ok0 i0] obtain s1 where
    1: "main_loop_iter ?s0 = Returns s1" "carried s1 ?s0" "page_num s1 = 1" "curr_page s1 = 1"
      "serial_cnt (hw s1) = Suc 0"
    by auto
  from 1(2) have ok1: "sys_ok s1" and in1: "serial_in (hw s1) = serial_in ?w"
    by (simp_all add: carried_def same_inputs_def)
  have i1: "serial_in (hw s1) (serial_cnt (hw s1)) = Some 0x32"
    by (simp add: in1 1(5))
  from main_loop_iter_reset [OF ok1 i1] obtain s2 where
    2: "main_loop_iter s1 = Returns s2" "page_num s2 = 0" "curr_page s2 = curr_page s1"
    by auto
  from b 1 2 show ?thesis by auto
qed

text \<open>
  C10, as the spec states it, fails: a \<^verbatim>\<open>CMD_READ_PAGE\<close> taken from the queue while the
  ready/busy line stays low is never answered by a result.
\<close>

theorem read_page_on_stuck_chip_publishes_nothing:
  "core1_main_iter ((test_sys stuck_world)\<lparr>cmd_queue := [\<lparr>cmd = CMD_READ_PAGE, arg = 0\<rparr>]\<rparr>) = Hangs"
  by (simp add: core1_main_iter_def queue_remove_blocking_def core1_execute_def Let_def
      read_page_never [OF never_ready_stuck_world])

text \<open>
  C10, amended. For every command the worker takes from the queue, exactly one result is
  put on the result queue, provided that for \<^verbatim>\<open>CMD_READ_ID\<close> and \<^verbatim>\<open>CMD_READ_PAGE\<close> the
  ready/busy line reads high at some later sample. For a tag the \<^verbatim>\<open>switch\<close> does not
  know the worker changes nothing but its copy of the command, and the result it publishes
  is the one left by the command before, whose size is 0 at the first pass. The condition
  \<open>started\<close> is no restriction on the running system: start-up establishes it, every pass
  of the loop of \<^verbatim>\<open>main\<close> keeps it, and it does not depend on the world or on the command
  queue. Whenever a pass of the worker returns, it has taken one command and added one
  result.
\<close>

theorem worker_publishes_one_result:
  "(main_boot w = Returns (Running s0) \<longrightarrow> started s0 \<and> sz (result s0) = 0) \<and>
   (started s \<and> main_loop_iter s = Returns s1 \<longrightarrow> started s1) \<and>
   started (s\<lparr>hw := w', cmd_queue := q'\<rparr>) = started s \<and>
   (started s \<and> cmd_queue s = c # q \<and>
    (cmd c = CMD_GET_DRIVE_STRENGTH \<or> cmd c = CMD_GET_FLASH_INFO \<or> cmd c = CMD_NONE) \<longrightarrow>
      core1_main_iter s =
        Returns (s\<lparr>cmd_queue := q, cmd_arg1 := c, results_queue := [result s]\<rparr>)) \<and>
   (started s \<and> cmd_queue s = c # q \<and>
    (cmd c = CMD_RESET_PAGE_NO \<or> cmd c = CMD_SET_PAGE_NO) \<longrightarrow>
      (\<exists>s'. core1_main_iter s = Returns s' \<and> cmd_queue s' = q \<and>
            results_queue s' = [result s'] \<and> sz (result s') = 1)) \<and>
   (started s \<and> cmd_queue s = c # q \<and> (cmd c = CMD_READ_ID \<or> cmd c = CMD_READ_PAGE) \<and>
    (\<exists>i\<ge>gpio_cnt (hw s). gpio_in (hw s) i) \<longrightarrow>
      (\<exists>s'. core1_main_iter s = Returns s' \<and> cmd_queue s' = q \<and>
            results_queue s' = [result s'])) \<and>
   (core1_main_iter s = Returns s' \<longrightarrow>
      (\<exists>c q. cmd_queue s = c # q \<and> cmd_queue s' = q \<and>
             results_queue s' = results_queue s @ [result s']))"
proof (intro conjI impI)
  assume "main_boot w = Returns (Running s0)"
  from main_boot_started [OF this] show "started s0" and "sz (result s0) = 0" by simp_all
next
  assume "started s \<and> main_loop_iter s = Returns s1"
  then have "main_loop_iter s = Returns s1" "started s" by simp_all
  then show "started s1" by (rule main_loop_iter_started)
next
  show "started (s\<lparr>hw := w', cmd_queue := q'\<rparr>) = started s" by (simp add: started_def)
next
  assume a: "started s \<and> cmd_queue s = c # q \<and>
    (cmd c = CMD_GET_DRIVE_STRENGTH \<or> cmd c = CMD_GET_FLASH_INFO \<or> cmd c = CMD_NONE)"
  then have r: "results_queue s = []" "length (results_queue s) < queue_capacity"
    by (simp_all add: started_def queue_capacity_def)
  from a have "core1_execute c (s\<lparr>cmd_queue := q, cmd_arg1 := c\<rparr>) =
      Returns (s\<lparr>cmd_queue := q, cmd_arg1 := c\<rparr>)"
    by (auto simp: core1_execute_def)
  from core1_main_iter_step [OF _ r(2) this] a r(1)
  show "core1_main_iter s =
        Returns (s\<lparr>cmd_queue := q, cmd_arg1 := c, results_queue := [result s]\<rparr>)"
    by simp
next
  assume a: "started s \<and> cmd_queue s = c # q \<and>
    (cmd c = CMD_RESET_PAGE_NO \<or> cmd c = CMD_SET_PAGE_NO)"
  then have r: "results_queue s = []" "length (results_queue s) < queue_capacity"
    by (simp_all add: started_def queue_capacity_def)
  from a obtain s2 where e: "core1_execute c (s\<lparr>cmd_queue := q, cmd_arg1 := c\<rparr>) = Returns s2"
    by (auto simp: core1_execute_def)
  from core1_execute_frame [OF e] a have "cmd_queue s2 = q" "sz (result s2) = 1" by auto
  with core1_main_iter_step [OF _ r(2) e] a r(1)
  show "\<exists>s'. core1_main_iter s = Returns s' \<and> cmd_queue s' = q \<and>
            results_queue s' = [result s'] \<and> sz (result s') = 1"
    by simp
next
  assume a: "started s \<and> cmd_queue s = c # q \<and> (cmd c = CMD_READ_ID \<or> cmd c = CMD_READ_PAGE) \<and>
    (\<exists>i\<ge>gpio_cnt (hw s). gpio_in (hw s) i)"
  then have r: "results_queue s = []" "length (results_queue s) < queue_capacity"
    by (simp_all add: started_def queue_capacity_def)
  from a have "started (s\<lparr>cmd_queue := q, cmd_arg1 := c\<rparr>)"
    "\<not> never_ready (hw (s\<lparr>cmd_queue := q, cmd_arg1 := c\<rparr>))"
    by (auto simp: never_ready_def)
  then have "\<exists>s2. core1_execute c (s\<lparr>cmd_queue := q, cmd_arg1 := c\<rparr>) = Returns s2"
    by (rule core1_execute_eventually)
  then obtain s2 where e: "core1_execute c (s\<lparr>cmd_queue := q, cmd_arg1 := c\<rparr>) = Returns s2" ..
  from core1_execute_frame [OF e] have "cmd_queue s2 = q" by simp
  with core1_main_iter_step [OF _ r(2) e] a r(1)
  show "\<exists>s'. core1_main_iter s = Returns s' \<and> cmd_queue s' = q \<and>
            results_queue s' = [result s']"
    by simp
next
  assume "core1_main_iter s = Returns s'"
  from core1_main_iter_Returns [OF this] obtain c q s2 where
    q: "cmd_queue s = c # q" and
    e: "core1_execute c (s\<lparr>cmd_queue := q, cmd_arg1 := c\<rparr>) = Returns s2" and
    s': "s' = s2\<lparr>results_queue := results_queue s @ [result s2]\<rparr>"
    by blast
  from core1_execute_frame [OF e] have "cmd_queue s2 = q" by simp
  with q s' show "\<exists>c q. cmd_queue s = c # q \<and> cmd_queue s' = q \<and>
             results_queue s' = results_queue s @ [result s']"
    by simp
qed

theorem worker_publishes_one_result_witness:
  "main_boot (test_world 0 []) = Returns (Running (test_sys (launched (test_world 0 []) 0))) \<and>
   started (test_sys (launched (test_world 0 []) 0)) \<and>
   sz (result (test_sys (launched (test_world 0 []) 0))) = 0 \<and>
   started (test_sys (test_world 0 [])) \<and>
   main_loop_iter (test_sys (test_world 0 [])) =
     Returns ((test_sys (test_world 0 []))\<lparr>hw := polled (test_world 0 [])\<rparr>) \<and>
   started ((test_sys (test_world 0 []))\<lparr>hw := polled (test_world 0 [])\<rparr>) \<and>
   core1_main_iter ((test_sys (test_world 0 []))\<lparr>cmd_queue := [\<lparr>cmd = CMD_NONE, arg = 0\<rparr>]\<rparr>) =
     Returns ((test_sys (test_world 0 []))\<lparr>cmd_arg1 := \<lparr>cmd = CMD_NONE, arg = 0\<rparr>,
                results_queue := [\<lparr>sz = 0, alloc = 0\<rparr>]\<rparr>) \<and>
   (\<exists>s'. core1_main_iter ((test_sys (test_world 0 []))\<lparr>cmd_queue := [\<lparr>cmd = CMD_SET_PAGE_NO, arg = 7\<rparr>]\<rparr>) =
           Returns s' \<and> cmd_queue s' = [] \<and> results_queue s' = [result s'] \<and> sz (result s') = 1) \<and>
   started (test_sys once_world) \<and>
   (\<exists>i\<ge>gpio_cnt once_world. gpio_in once_world i) \<and> \<not> responsive once_world \<and>
   (\<exists>s'. core1_main_iter ((test_sys once_world)\<lparr>cmd_queue := [\<lparr>cmd = CMD_READ_PAGE, arg = 0\<rparr>]\<rparr>) =
           Returns s' \<and> cmd_queue s' = [] \<and> results_queue s' = [result s']) \<and>
   (\<exists>c q. cmd_queue ((test_sys (test_world 0 []))\<lparr>cmd_queue := [\<lparr>cmd = CMD_NONE, arg = 0\<rparr>]\<rparr>) = c # q \<and>
      cmd_queue ((test_sys (test_world 0 []))\<lparr>cmd_arg1 := \<lparr>cmd = CMD_NONE, arg = 0\<rparr>,
                   results_queue := [\<lparr>sz = 0, alloc = 0\<rparr>]\<rparr>) = q \<and>
      results_queue ((test_sys (test_world 0 []))\<lparr>cmd_arg1 := \<lparr>cmd = CMD_NONE, arg = 0\<rparr>,
                   results_queue := [\<lparr>sz = 0, alloc = 0\<rparr>]\<rparr>) =
        results_queue ((test_sys (test_world 0 []))\<lparr>cmd_queue := [\<lparr>cmd = CMD_NONE, arg = 0\<rparr>]\<rparr>) @
        [result ((test_sys (test_world 0 []))\<lparr>cmd_arg1 := \<lparr>cmd = CMD_NONE, arg = 0\<rparr>,
                   results_queue := [\<lparr>sz = 0, alloc = 0\<rparr>]\<rparr>)])"
proof -
  let ?t = "test_sys (test_world 0 [])"
  let ?o = "test_sys once_world"
  let ?n = "\<lparr>cmd = CMD_NONE, arg = 0\<rparr>"
  let ?p = "\<lparr>cmd = CMD_SET_PAGE_NO, arg = 7\<rparr>"
  let ?r = "\<lparr>cmd = CMD_READ_PAGE, arg = 0\<rparr>"
  note wp = worker_publishes_one_result
  have st: "started (test_sys w)" for w by (simp add: started_def test_sys_def)
  have b: "main_boot (test_world 0 []) = Returns (Running (test_sys (launched (test_world 0 []) 0)))"
    by (rule main_boot_test_world)
  have m: "main_loop_iter ?t = Returns (?t\<lparr>hw := polled (test_world 0 [])\<rparr>)"
    by (simp add: main_loop_iter_idle)
  have hi: "\<exists>i\<ge>gpio_cnt once_world. gpio_in once_world i"
    by (simp add: once_world_def test_world_def)
  have nr: "\<not> responsive once_world"
  proof
    assume "responsive once_world"
    then obtain i where "3 \<le> i" "gpio_in once_world i" unfolding responsive_def by blast
    then show False by (simp add: once_world_def)
  qed
  have 0: "started (test_sys (launched (test_world 0 []) 0)) \<and>
      sz (result (test_sys (launched (test_world 0 []) 0))) = 0"
    using wp [of "test_world 0 []" "test_sys (launched (test_world 0 []) 0)", THEN conjunct1] b
    by simp
  have 1: "started (?t\<lparr>hw := polled (test_world 0 [])\<rparr>)"
    using wp [of _ _ ?t "?t\<lparr>hw := polled (test_world 0 [])\<rparr>", THEN conjunct2, THEN conjunct1]
      st m by simp
  have 2: "core1_main_iter (?t\<lparr>cmd_queue := [?n]\<rparr>) =
     Returns (?t\<lparr>cmd_arg1 := ?n, results_queue := [\<lparr>sz = 0, alloc = 0\<rparr>]\<rparr>)"
    using wp [of _ _ "?t\<lparr>cmd_queue := [?n]\<rparr>" _ _ _ ?n "[]", THEN conjunct2, THEN conjunct2,
        THEN conjunct2, THEN conjunct1] st [of "test_world 0 []"]
    by (simp add: test_sys_def started_def)
  have 3: "\<exists>s'. core1_main_iter (?t\<lparr>cmd_queue := [?p]\<rparr>) = Returns s' \<and> cmd_queue s' = [] \<and>
      results_queue s' = [result s'] \<and> sz (result s') = 1"
    using wp [of _ _ "?t\<lparr>cmd_queue := [?p]\<rparr>" _ _ _ ?p "[]", THEN conjunct2, THEN conjunct2,
        THEN conjunct2, THEN conjunct2, THEN conjunct1] st [of "test_world 0 []"]
    by (simp add: started_def)
  have 4: "\<exists>s'. core1_main_iter (?o\<lparr>cmd_queue := [?r]\<rparr>) = Returns s' \<and> cmd_queue s' = [] \<and>
      results_queue s' = [result s']"
    using wp [of _ _ "?o\<lparr>cmd_queue := [?r]\<rparr>" _ _ _ ?r "[]", THEN conjunct2, THEN conjunct2,
        THEN conjunct2, THEN conjunct2, THEN conjunct2, THEN conjunct1] st [of once_world] hi
    by (simp add: started_def)
  have 5: "\<exists>c q. cmd_queue (?t\<lparr>cmd_queue := [?n]\<rparr>) = c # q \<and>
      cmd_queue (?t\<lparr>cmd_arg1 := ?n, results_queue := [\<lparr>sz = 0, alloc = 0\<rparr>]\<rparr>) = q \<and>
      results_queue (?t\<lparr>cmd_arg1 := ?n, results_queue := [\<lparr>sz = 0, alloc = 0\<rparr>]\<rparr>) =
        results_queue (?t\<lparr>cmd_queue := [?n]\<rparr>) @
        [result (?t\<lparr>cmd_arg1 := ?n, results_queue := [\<lparr>sz = 0, alloc = 0\<rparr>]\<rparr>)]"
    using wp [of _ _ "?t\<lparr>cmd_queue := [?n]\<rparr>" _ _ _ _ _
        "?t\<lparr>cmd_arg1 := ?n, results_queue := [\<lparr>sz = 0, alloc = 0\<rparr>]\<rparr>",
        THEN conjunct2, THEN conjunct2, THEN conjunct2, THEN conjunct2, THEN conjunct2,
        THEN conjunct2] 2
    by blast
  from b 0 st m 1 2 3 4 hi nr show ?thesis using 5 by simp
qed

end
